theory Spec2Isabelle
  imports Main "HOL-Library.AList" "HOL-Library.Multiset"
begin

section \<open>The relational store of the billing ledger\<close>

text \<open>
  The tables of \<^verbatim>\<open>query.sql\<close> that the invoice controllers read and write, as lists of
  rows. The identifiers (\<^verbatim>\<open>UUID\<close>) and dates held by the store are opaque values. Money
  columns (\<^verbatim>\<open>NUMERIC(_, 2)\<close>) are integers counting hundredths, so price times quantity is
  exact; column precision overflow is outside the model. Columns that no statement of the
  invoice controllers reads or writes (names, contact fields, category, \<^verbatim>\<open>created_at\<close>,
  \<^verbatim>\<open>invoice_date\<close>, the \<^verbatim>\<open>updated_at\<close> of the other tables) are left out, and so are
  the tables \<^verbatim>\<open>companies\<close> and \<^verbatim>\<open>users\<close>: the caller's \<^verbatim>\<open>company_id\<close> comes from
  the signed token, which the login handler fills from the user's row, and names an existing
  company. \<^verbatim>\<open>invoices.updated_at\<close> is kept: every \<^verbatim>\<open>UPDATE\<close> of an invoice row sets it to
  \<^verbatim>\<open>NOW()\<close>, which is the start time of the transaction and is passed to each operation as
  \<open>now\<close>.
\<close>

type_synonym uuid = string
type_synonym date = string
type_synonym timestamp = nat

datatype invoice_status = draft | sent | paid | cancelled

record party =
  p_id :: uuid
  p_company_id :: uuid

record item =
  it_id :: uuid
  it_company_id :: uuid
  it_price :: int
  it_quantity :: int

record invoice =
  inv_id :: uuid
  inv_company_id :: uuid
  inv_party_id :: uuid
  inv_invoice_number :: string
  inv_due_date :: "date option"
  inv_total_amount :: int
  inv_status :: invoice_status
  inv_updated_at :: timestamp

record invoice_item =
  ii_invoice_id :: uuid
  ii_item_id :: uuid
  ii_quantity :: int
  ii_price_at_purchase :: int
  ii_total_line_amount :: int

record db =
  parties :: "party list"
  items :: "item list"
  invoices :: "invoice list"
  invoice_items :: "invoice_item list"

text \<open>
  Every failure of a handler is a value. \<open>DbError\<close> is an error raised by the store: a
  constraint of the schema (\<^verbatim>\<open>23505\<close>, \<^verbatim>\<open>23503\<close>, \<^verbatim>\<open>23514\<close>, \<^verbatim>\<open>23502\<close>) or a text that
  a column type refuses (\<^verbatim>\<open>22P02\<close> for an identifier or an enumeration value, \<^verbatim>\<open>22007\<close>
  for a date, \<^verbatim>\<open>22001\<close> for a string longer than its \<^verbatim>\<open>VARCHAR\<close> column). The other
  errors are the \<^verbatim>\<open>throw new Error(...)\<close> and early returns of the controllers.
\<close>

datatype db_error =
    unique_violation
  | foreign_key_violation
  | check_violation
  | not_null_violation
  | invalid_text_representation
  | invalid_datetime_format
  | string_data_right_truncation

subsection \<open>Requests\<close>

text \<open>
  A JSON body field that may be missing is an option: \<open>None\<close> is \<^verbatim>\<open>undefined\<close> or
  \<^verbatim>\<open>null\<close>, which are falsy and reach a statement as \<^verbatim>\<open>NULL\<close> alike. For \<^verbatim>\<open>items\<close>,
  where the default of the tenant-scoped \<^verbatim>\<open>createInvoice\<close> applies to a missing field
  only, \<open>None\<close> is the missing field. The other fields are JSON strings, and \<open>quantity\<close>
  is a JSON integer; a missing quantity behaves as \<open>0\<close> in the only test the controllers
  apply to it.

  Where the store holds an identifier or a date, the request carries a text. The controllers
  look at such a text in three ways: its truthiness (\<^verbatim>\<open>!x\<close>, \<^verbatim>\<open>x || null\<close>); its equality
  with the text of a stored identifier (the keys of \<^verbatim>\<open>existingMap\<close> are the \<^verbatim>\<open>item_id\<close>
  strings of rows that the store returned, and the store prints an identifier in one standard
  form); and, passed as a query parameter, the value that the input function of the column
  type reads from it, or the refusal of that function. A text is modelled by what these
  three tell apart:

    \<^item> \<open>Standard v\<close>, the text that the store itself prints for the value \<open>v\<close>;
    \<^item> \<open>Variant v\<close>, any other text that the input function reads as \<open>v\<close> (for an
      identifier: upper-case digits, surrounding braces, another hyphenation);
    \<^item> \<open>Malformed\<close>, a non-empty text that the input function refuses;
    \<^item> \<open>EmptyText\<close>, the empty string, which is falsy and which the input functions of
      \<^verbatim>\<open>UUID\<close> and \<^verbatim>\<open>DATE\<close> refuse.

  The route parameter \<^verbatim>\<open>:id\<close> is such a text as well.
\<close>

datatype 'a pg_text = Standard 'a | Variant 'a | Malformed | EmptyText

datatype error =
    PartyNotFound
  | InvoiceNumberExists
  | ItemIdRequired
  | InvalidLineQuantity "uuid pg_text option"
  | ItemNotFound "uuid pg_text option"
  | InsufficientStock "uuid pg_text option"
  | InvoiceNotFound
  | InvalidStatus
  | NotIterable
  | DbError db_error

record line_req =
  item_id :: "uuid pg_text option"
  quantity :: int

record create_req =
  c_party_id :: "uuid pg_text option"
  c_invoice_number :: "string option"
  c_due_date :: "date pg_text option"
  c_items :: "line_req list option"
  c_status :: "string option"

record update_req =
  u_due_date :: "date pg_text option"
  u_party_id :: "uuid pg_text option"
  u_status :: "string option"
  u_items :: "line_req list option"

text \<open>JavaScript's truthiness of an optional text, and \<^verbatim>\<open>x || null\<close>.\<close>

definition truthy :: "'a pg_text option \<Rightarrow> bool" where
  "truthy x = (case x of None \<Rightarrow> False | Some EmptyText \<Rightarrow> False | Some _ \<Rightarrow> True)"

definition or_null_text :: "'a pg_text option \<Rightarrow> 'a pg_text option" where
  "or_null_text x = (if truthy x then x else None)"

definition or_null :: "string option \<Rightarrow> string option" where
  "or_null x = (case x of None \<Rightarrow> None | Some s \<Rightarrow> if s = [] then None else Some s)"

text \<open>
  The input function of a column type, and a query parameter compared with or assigned to a
  column of that type: \<^verbatim>\<open>NULL\<close> stays \<^verbatim>\<open>NULL\<close>, a text is read, and the statement fails
  when the text is refused.
\<close>

definition read_text :: "'a pg_text \<Rightarrow> 'a option" where
  "read_text t = (case t of Standard v \<Rightarrow> Some v | Variant v \<Rightarrow> Some v
                  | Malformed \<Rightarrow> None | EmptyText \<Rightarrow> None)"

definition bind_param :: "db_error \<Rightarrow> 'a pg_text option \<Rightarrow> error + 'a option" where
  "bind_param refusal x =
     (case x of None \<Rightarrow> Inr None
      | Some t \<Rightarrow> (case read_text t of None \<Rightarrow> Inl (DbError refusal)
                   | Some v \<Rightarrow> Inr (Some v)))"

definition uuid_param :: "uuid pg_text option \<Rightarrow> error + uuid option" where
  "uuid_param x = bind_param invalid_text_representation x"

definition date_param :: "date pg_text option \<Rightarrow> error + date option" where
  "date_param x = bind_param invalid_datetime_format x"

subsection \<open>Statements\<close>

text \<open>
  A statement parameter that may be \<^verbatim>\<open>NULL\<close> is an option; a comparison with \<^verbatim>\<open>NULL\<close>
  selects no row.
\<close>

text \<open>The cast \<^verbatim>\<open>$n::invoice_status\<close>; any other text is rejected by the store.\<close>

definition cast_invoice_status :: "string \<Rightarrow> invoice_status option" where
  "cast_invoice_status s =
     (if s = ''draft'' then Some draft
      else if s = ''sent'' then Some sent
      else if s = ''paid'' then Some paid
      else if s = ''cancelled'' then Some cancelled
      else None)"

text \<open>
  Assignment to a \<^verbatim>\<open>VARCHAR(n)\<close> column: a longer string is refused unless the characters
  beyond \<open>n\<close> are all spaces, which are cut off.
\<close>

definition varchar :: "nat \<Rightarrow> string \<Rightarrow> string option" where
  "varchar n s =
     (if length s \<le> n then Some s
      else if list_all (\<lambda>c. c = CHR '' '') (drop n s) then Some (take n s)
      else None)"

text \<open>\<^verbatim>\<open>SELECT 1 FROM parties WHERE id = $1 AND company_id = $2\<close>\<close>

definition select_party :: "uuid option \<Rightarrow> uuid \<Rightarrow> db \<Rightarrow> party list" where
  "select_party pid cid d = filter (\<lambda>p. Some (p_id p) = pid \<and> p_company_id p = cid) (parties d)"

text \<open>\<^verbatim>\<open>SELECT 1 FROM invoices WHERE company_id = $1 AND invoice_number = $2\<close>\<close>

definition select_invoice_number :: "uuid \<Rightarrow> string option \<Rightarrow> db \<Rightarrow> invoice list" where
  "select_invoice_number cid n d =
     filter (\<lambda>i. inv_company_id i = cid \<and> Some (inv_invoice_number i) = n) (invoices d)"

text \<open>\<^verbatim>\<open>SELECT ... FROM invoices WHERE id = $1 AND company_id = $2\<close>\<close>

definition select_invoice :: "uuid \<Rightarrow> uuid \<Rightarrow> db \<Rightarrow> invoice list" where
  "select_invoice iid cid d =
     filter (\<lambda>i. inv_id i = iid \<and> inv_company_id i = cid) (invoices d)"

text \<open>\<^verbatim>\<open>SELECT price, quantity AS stock_quantity FROM items WHERE id = $1 AND company_id = $2\<close>\<close>

definition select_item :: "uuid option \<Rightarrow> uuid \<Rightarrow> db \<Rightarrow> item list" where
  "select_item iid cid d =
     filter (\<lambda>r. Some (it_id r) = iid \<and> it_company_id r = cid) (items d)"

text \<open>\<^verbatim>\<open>SELECT item_id, quantity FROM invoice_items WHERE invoice_id = $1\<close>\<close>

definition select_lines :: "uuid \<Rightarrow> db \<Rightarrow> invoice_item list" where
  "select_lines iid d = filter (\<lambda>l. ii_invoice_id l = iid) (invoice_items d)"

text \<open>
  \<^verbatim>\<open>INSERT INTO invoices (company_id, party_id, invoice_number, due_date, total_amount, status)
  VALUES ($1, $2, $3, $4, $5, COALESCE($6, 'draft')::invoice_status) RETURNING *\<close>, with \<open>0\<close>
  for \<^verbatim>\<open>$5\<close>. The parameters typed by their columns are read first, in their order
  (\<^verbatim>\<open>party_id\<close>, \<^verbatim>\<open>due_date\<close>); then the row is formed (the \<^verbatim>\<open>VARCHAR(50)\<close> assignment
  of \<^verbatim>\<open>invoice_number\<close>, the cast of the status); then come the \<^verbatim>\<open>NOT NULL\<close> columns,
  the primary key, \<^verbatim>\<open>UNIQUE (company_id, invoice_number)\<close> and the foreign key to
  \<^verbatim>\<open>parties\<close>. \<^verbatim>\<open>CHECK (total_amount >= 0)\<close> holds of \<open>0\<close>. \<open>new_id\<close> is the identifier
  that \<^verbatim>\<open>uuid_generate_v4()\<close> gives the row.
\<close>

definition insert_invoice ::
  "uuid \<Rightarrow> timestamp \<Rightarrow> uuid \<Rightarrow> uuid pg_text option \<Rightarrow> string option \<Rightarrow> date pg_text option \<Rightarrow>
     string option \<Rightarrow> db \<Rightarrow> error + db" where
  "insert_invoice new_id now company_id party_id invoice_number due_date status d =
     (case uuid_param party_id of
        Inl e \<Rightarrow> Inl e
      | Inr party \<Rightarrow>
     (case date_param due_date of
        Inl e \<Rightarrow> Inl e
      | Inr due \<Rightarrow>
     (case (case invoice_number of None \<Rightarrow> Some None
            | Some s \<Rightarrow> map_option Some (varchar 50 s)) of
        None \<Rightarrow> Inl (DbError string_data_right_truncation)
      | Some number \<Rightarrow>
     (case cast_invoice_status (case status of None \<Rightarrow> ''draft'' | Some s \<Rightarrow> s) of
        None \<Rightarrow> Inl (DbError invalid_text_representation)
      | Some st \<Rightarrow>
     (case party of
        None \<Rightarrow> Inl (DbError not_null_violation)
      | Some p \<Rightarrow>
     (case number of
        None \<Rightarrow> Inl (DbError not_null_violation)
      | Some n \<Rightarrow>
          if filter (\<lambda>j. inv_id j = new_id) (invoices d) \<noteq> [] then
            Inl (DbError unique_violation)
          else if select_invoice_number company_id (Some n) d \<noteq> [] then
            Inl (DbError unique_violation)
          else if filter (\<lambda>x. p_id x = p) (parties d) = [] then
            Inl (DbError foreign_key_violation)
          else Inr (d\<lparr>invoices := invoices d @
                      [\<lparr>inv_id = new_id, inv_company_id = company_id, inv_party_id = p,
                        inv_invoice_number = n, inv_due_date = due, inv_total_amount = 0,
                        inv_status = st, inv_updated_at = now\<rparr>]\<rparr>)))))))"

text \<open>
  The row constraints of \<^verbatim>\<open>invoice_items\<close>: \<^verbatim>\<open>CHECK (quantity > 0)\<close> and
  \<^verbatim>\<open>CHECK (price_at_purchase >= 0)\<close>.
\<close>

definition line_checks :: "invoice_item \<Rightarrow> bool" where
  "line_checks l = (ii_quantity l > 0 \<and> ii_price_at_purchase l \<ge> 0)"

text \<open>
  \<^verbatim>\<open>INSERT INTO invoice_items (invoice_id, item_id, quantity, price_at_purchase,
  total_line_amount) VALUES ($1, $2, $3, $4, $5)\<close>, with \<^verbatim>\<open>item_id NOT NULL\<close>, the checks
  and the two foreign keys.
\<close>

definition insert_invoice_item ::
  "uuid \<Rightarrow> uuid option \<Rightarrow> int \<Rightarrow> int \<Rightarrow> int \<Rightarrow> db \<Rightarrow> error + db" where
  "insert_invoice_item iid itm q p t d =
     (case itm of
        None \<Rightarrow> Inl (DbError not_null_violation)
      | Some i \<Rightarrow>
          (let l = \<lparr>ii_invoice_id = iid, ii_item_id = i, ii_quantity = q,
                    ii_price_at_purchase = p, ii_total_line_amount = t\<rparr>
           in
           if \<not> line_checks l then Inl (DbError check_violation)
           else if filter (\<lambda>j. inv_id j = iid) (invoices d) = [] then
             Inl (DbError foreign_key_violation)
           else if filter (\<lambda>r. it_id r = i) (items d) = [] then
             Inl (DbError foreign_key_violation)
           else Inr (d\<lparr>invoice_items := invoice_items d @ [l]\<rparr>)))"

text \<open>
  \<^verbatim>\<open>UPDATE items SET quantity = f(quantity) WHERE w\<close>, rejected by
  \<^verbatim>\<open>CHECK (quantity >= 0)\<close> when a row it touches would go below zero.
\<close>

definition update_items_quantity :: "(item \<Rightarrow> bool) \<Rightarrow> (int \<Rightarrow> int) \<Rightarrow> db \<Rightarrow> error + db" where
  "update_items_quantity w f d =
     (if filter (\<lambda>r. w r \<and> f (it_quantity r) < 0) (items d) \<noteq> [] then
        Inl (DbError check_violation)
      else Inr (d\<lparr>items := map (\<lambda>r. if w r then r\<lparr>it_quantity := f (it_quantity r)\<rparr> else r)
                               (items d)\<rparr>))"

text \<open>
  \<^verbatim>\<open>UPDATE invoices SET total_amount = $1 WHERE w\<close>. The trigger \<^verbatim>\<open>set_timestamp\<close> of the
  schema sets \<^verbatim>\<open>updated_at\<close> on every updated row.
\<close>

definition update_invoice_total :: "(invoice \<Rightarrow> bool) \<Rightarrow> int \<Rightarrow> timestamp \<Rightarrow> db \<Rightarrow> error + db" where
  "update_invoice_total w t now d =
     (if filter w (invoices d) \<noteq> [] \<and> t < 0 then Inl (DbError check_violation)
      else Inr (d\<lparr>invoices := map (\<lambda>i. if w i then i\<lparr>inv_total_amount := t,
                                                          inv_updated_at := now\<rparr> else i)
                                  (invoices d)\<rparr>))"

section \<open>createInvoice (the tenant-scoped controller)\<close>

text \<open>One iteration of the loop over the request's lines; the state threaded through the loop
  is the store and the running \<^verbatim>\<open>totalAmount\<close>. The item query reads \<^verbatim>\<open>item_id\<close> as an
  identifier, and the two statements after it pass the same text.\<close>

definition create_line :: "uuid \<Rightarrow> uuid \<Rightarrow> line_req \<Rightarrow> db \<times> int \<Rightarrow> error + db \<times> int" where
  "create_line company_id invoiceId l st =
     (case st of (d, totalAmount) \<Rightarrow>
      if \<not> truthy (item_id l) then Inl ItemIdRequired
      else if quantity l = 0 \<or> quantity l \<le> 0 then Inl (InvalidLineQuantity (item_id l))
      else
        (case uuid_param (item_id l) of
           Inl e \<Rightarrow> Inl e
         | Inr iid \<Rightarrow>
            (case select_item iid company_id d of
               [] \<Rightarrow> Inl (ItemNotFound (item_id l))
             | r # _ \<Rightarrow>
                 if it_quantity r < quantity l then Inl (InsufficientStock (item_id l))
                 else
                   (let totalLineAmount = it_price r * quantity l in
                    case insert_invoice_item invoiceId iid (quantity l) (it_price r)
                           totalLineAmount d of
                      Inl e \<Rightarrow> Inl e
                    | Inr d1 \<Rightarrow>
                        (case update_items_quantity
                                (\<lambda>x. Some (it_id x) = iid \<and> it_company_id x = company_id)
                                (\<lambda>q. q - quantity l) d1 of
                           Inl e \<Rightarrow> Inl e
                         | Inr d2 \<Rightarrow> Inr (d2, totalAmount + totalLineAmount))))))"

fun create_lines :: "uuid \<Rightarrow> uuid \<Rightarrow> line_req list \<Rightarrow> db \<times> int \<Rightarrow> error + db \<times> int" where
  "create_lines company_id invoiceId [] st = Inr st"
| "create_lines company_id invoiceId (l # ls) st =
     (case create_line company_id invoiceId l st of
        Inl e \<Rightarrow> Inl e
      | Inr st' \<Rightarrow> create_lines company_id invoiceId ls st')"

text \<open>
  The statements between \<^verbatim>\<open>BEGIN\<close> and \<^verbatim>\<open>COMMIT\<close>: the party query, the invoice number
  query, the insertion with \<^verbatim>\<open>due_date || null\<close>, the loop and the total. A missing
  \<^verbatim>\<open>items\<close> defaults to the empty list.
\<close>

definition createInvoice_tx :: "timestamp \<Rightarrow> uuid \<Rightarrow> uuid \<Rightarrow> create_req \<Rightarrow> db \<Rightarrow> error + db" where
  "createInvoice_tx now new_id company_id req d =
     (case uuid_param (c_party_id req) of
        Inl e \<Rightarrow> Inl e
      | Inr party \<Rightarrow>
          if select_party party company_id d = [] then Inl PartyNotFound
          else if select_invoice_number company_id (c_invoice_number req) d \<noteq> [] then
            Inl InvoiceNumberExists
          else
            (case insert_invoice new_id now company_id (c_party_id req) (c_invoice_number req)
                    (or_null_text (c_due_date req)) (c_status req) d of
               Inl e \<Rightarrow> Inl e
             | Inr d1 \<Rightarrow>
                 (case create_lines company_id new_id
                         (case c_items req of None \<Rightarrow> [] | Some ls \<Rightarrow> ls) (d1, 0) of
                    Inl e \<Rightarrow> Inl e
                  | Inr (d2, totalAmount) \<Rightarrow>
                      update_invoice_total
                        (\<lambda>i. inv_id i = new_id \<and> inv_company_id i = company_id)
                        totalAmount now d2)))"

text \<open>
  The handler: \<^verbatim>\<open>COMMIT\<close> makes the transaction's store the new store, \<^verbatim>\<open>ROLLBACK\<close> in
  the \<^verbatim>\<open>catch\<close> block keeps the old one. The result is the store after the request and the
  response: the error, or the new invoice's identifier.
\<close>

definition createInvoice :: "timestamp \<Rightarrow> uuid \<Rightarrow> uuid \<Rightarrow> create_req \<Rightarrow> db \<Rightarrow> db \<times> (error + uuid)" where
  "createInvoice now new_id company_id req d =
     (case createInvoice_tx now new_id company_id req d of
        Inl e \<Rightarrow> (d, Inl e)
      | Inr d' \<Rightarrow> (d', Inr new_id))"

section \<open>updateInvoice (the tenant-scoped controller)\<close>

text \<open>
  \<^verbatim>\<open>UPDATE invoices SET due_date = COALESCE($1, due_date), party_id = COALESCE($2, party_id),
  status = COALESCE($3, status)::invoice_status, updated_at = NOW() WHERE id = $4 AND company_id = $5\<close>.
  The three parameters are read in their order, each by the type of its column; a new party
  must exist.
\<close>

definition update_invoice_meta ::
  "date pg_text option \<Rightarrow> uuid pg_text option \<Rightarrow> string option \<Rightarrow> timestamp \<Rightarrow> uuid \<Rightarrow> uuid \<Rightarrow> db
     \<Rightarrow> error + db" where
  "update_invoice_meta due_date party_id status now iid cid d =
     (case date_param due_date of
        Inl e \<Rightarrow> Inl e
      | Inr due \<Rightarrow>
     (case uuid_param party_id of
        Inl e \<Rightarrow> Inl e
      | Inr pty \<Rightarrow>
     (case (case status of None \<Rightarrow> Some None
            | Some s \<Rightarrow> map_option Some (cast_invoice_status s)) of
        None \<Rightarrow> Inl (DbError invalid_text_representation)
      | Some st \<Rightarrow>
          if select_invoice iid cid d \<noteq> [] \<and>
             (case pty of None \<Rightarrow> False
              | Some p \<Rightarrow> filter (\<lambda>x. p_id x = p) (parties d) = [])
          then Inl (DbError foreign_key_violation)
          else Inr (d\<lparr>invoices :=
                 map (\<lambda>i. if inv_id i = iid \<and> inv_company_id i = cid
                           then i\<lparr>inv_due_date := (case due of None \<Rightarrow> inv_due_date i
                                                   | Some x \<Rightarrow> Some x),
                                  inv_party_id := (case pty of None \<Rightarrow> inv_party_id i
                                                   | Some x \<Rightarrow> x),
                                  inv_status := (case st of None \<Rightarrow> inv_status i
                                                 | Some x \<Rightarrow> x),
                                  inv_updated_at := now\<rparr>
                           else i) (invoices d)\<rparr>))))"

text \<open>
  \<^verbatim>\<open>UPDATE invoice_items SET quantity = $1, price_at_purchase = $2, total_line_amount = $3
  WHERE invoice_id = $4 AND item_id = $5\<close>: every line of the invoice with that item.
\<close>

definition update_invoice_item :: "uuid \<Rightarrow> uuid option \<Rightarrow> int \<Rightarrow> int \<Rightarrow> int \<Rightarrow> db \<Rightarrow> error + db" where
  "update_invoice_item iid itm q p t d =
     (if filter (\<lambda>l. ii_invoice_id l = iid \<and> Some (ii_item_id l) = itm) (invoice_items d) \<noteq> [] \<and>
         \<not> (q > 0 \<and> p \<ge> 0)
      then Inl (DbError check_violation)
      else Inr (d\<lparr>invoice_items :=
             map (\<lambda>l. if ii_invoice_id l = iid \<and> Some (ii_item_id l) = itm
                       then l\<lparr>ii_quantity := q, ii_price_at_purchase := p,
                              ii_total_line_amount := t\<rparr>
                       else l) (invoice_items d)\<rparr>))"

text \<open>\<^verbatim>\<open>DELETE FROM invoice_items WHERE invoice_id = $1 AND item_id = $2\<close>\<close>

definition delete_invoice_item :: "uuid \<Rightarrow> uuid \<Rightarrow> db \<Rightarrow> db" where
  "delete_invoice_item iid itm d =
     d\<lparr>invoice_items :=
         filter (\<lambda>l. \<not> (ii_invoice_id l = iid \<and> ii_item_id l = itm)) (invoice_items d)\<rparr>"

text \<open>
  \<^verbatim>\<open>new Map(rows.map((row) => [row.item_id, row.quantity]))\<close>: a JavaScript \<^verbatim>\<open>Map\<close> keeps
  one entry per key, at the position of the key's first insertion, with the value of its last.
  A key is the standard text of a stored identifier and is represented by that identifier;
  iteration follows the list.
\<close>

definition new_Map :: "invoice_item list \<Rightarrow> (uuid \<times> int) list" where
  "new_Map rows = fold (\<lambda>row m. AList.update (ii_item_id row) (ii_quantity row) m) rows []"

text \<open>
  \<^verbatim>\<open>existingMap.get(item_id)\<close>, \<^verbatim>\<open>existingMap.has(item_id)\<close> and
  \<^verbatim>\<open>existingMap.delete(item_id)\<close> compare the request's text with the keys as strings: only
  the standard text of an identifier is equal to a key.
\<close>

definition Map_key :: "uuid pg_text option \<Rightarrow> uuid option" where
  "Map_key x = (case x of Some (Standard u) \<Rightarrow> Some u | _ \<Rightarrow> None)"

definition Map_get :: "(uuid \<times> int) list \<Rightarrow> uuid pg_text option \<Rightarrow> int option" where
  "Map_get m x = (case Map_key x of None \<Rightarrow> None | Some k \<Rightarrow> map_of m k)"

definition Map_has :: "(uuid \<times> int) list \<Rightarrow> uuid pg_text option \<Rightarrow> bool" where
  "Map_has m x = (case Map_key x of None \<Rightarrow> False | Some k \<Rightarrow> map_of m k \<noteq> None)"

definition Map_delete :: "uuid pg_text option \<Rightarrow> (uuid \<times> int) list \<Rightarrow> (uuid \<times> int) list" where
  "Map_delete x m = (case Map_key x of None \<Rightarrow> m | Some k \<Rightarrow> AList.delete k m)"

text \<open>One iteration of the loop over the desired lines; the state is the store, what is left
  of \<^verbatim>\<open>existingMap\<close>, and \<^verbatim>\<open>totalAmount\<close>. \<^verbatim>\<open>existingMap.get(item_id) || 0\<close> is the stored
  quantity, or \<open>0\<close> without an entry.\<close>

definition update_line ::
  "uuid \<Rightarrow> uuid \<Rightarrow> line_req \<Rightarrow> db \<times> (uuid \<times> int) list \<times> int
     \<Rightarrow> error + db \<times> (uuid \<times> int) list \<times> int" where
  "update_line company_id invoice_id l st =
     (case st of (d, existingMap, totalAmount) \<Rightarrow>
      if \<not> truthy (item_id l) then Inl ItemIdRequired
      else if quantity l = 0 \<or> quantity l \<le> 0 then Inl (InvalidLineQuantity (item_id l))
      else
        (case uuid_param (item_id l) of
           Inl e \<Rightarrow> Inl e
         | Inr iid \<Rightarrow>
            (case select_item iid company_id d of
               [] \<Rightarrow> Inl (ItemNotFound (item_id l))
             | r # _ \<Rightarrow>
                 (let prevQty = (case Map_get existingMap (item_id l) of
                                   None \<Rightarrow> 0 | Some q \<Rightarrow> q);
                      quantityChange = quantity l - prevQty
                  in
                  if quantityChange > 0 \<and> it_quantity r < quantityChange
                  then Inl (InsufficientStock (item_id l))
                  else
                    (let totalLineAmount = it_price r * quantity l in
                     case (if Map_has existingMap (item_id l)
                           then update_invoice_item invoice_id iid (quantity l) (it_price r)
                                  totalLineAmount d
                           else insert_invoice_item invoice_id iid (quantity l) (it_price r)
                                  totalLineAmount d) of
                       Inl e \<Rightarrow> Inl e
                     | Inr d1 \<Rightarrow>
                         (case update_items_quantity
                                 (\<lambda>x. Some (it_id x) = iid \<and> it_company_id x = company_id)
                                 (\<lambda>q. q - quantityChange) d1 of
                            Inl e \<Rightarrow> Inl e
                          | Inr d2 \<Rightarrow>
                              Inr (d2, Map_delete (item_id l) existingMap,
                                   totalAmount + totalLineAmount)))))))"

fun update_lines ::
  "uuid \<Rightarrow> uuid \<Rightarrow> line_req list \<Rightarrow> db \<times> (uuid \<times> int) list \<times> int
     \<Rightarrow> error + db \<times> (uuid \<times> int) list \<times> int" where
  "update_lines company_id invoice_id [] st = Inr st"
| "update_lines company_id invoice_id (l # ls) st =
     (case update_line company_id invoice_id l st of
        Inl e \<Rightarrow> Inl e
      | Inr st' \<Rightarrow> update_lines company_id invoice_id ls st')"

text \<open>The loop over the entries left in \<^verbatim>\<open>existingMap\<close>: delete the lines, return the stock.
  A key passed as a parameter is read back as the identifier it is the text of.\<close>

fun return_removed :: "uuid \<Rightarrow> uuid \<Rightarrow> (uuid \<times> int) list \<Rightarrow> db \<Rightarrow> error + db" where
  "return_removed company_id invoice_id [] d = Inr d"
| "return_removed company_id invoice_id ((oldItemId, oldQty) # rest) d =
     (case update_items_quantity
             (\<lambda>x. it_id x = oldItemId \<and> it_company_id x = company_id)
             (\<lambda>q. q + oldQty) (delete_invoice_item invoice_id oldItemId d) of
        Inl e \<Rightarrow> Inl e
      | Inr d2 \<Rightarrow> return_removed company_id invoice_id rest d2)"

text \<open>
  The statements between \<^verbatim>\<open>BEGIN\<close> and \<^verbatim>\<open>COMMIT\<close>, for the identifier \<open>invoice_id\<close>
  that the store reads from the route parameter: the ownership query, the party query under
  \<^verbatim>\<open>if (party_id)\<close>, the update of the invoice row with \<^verbatim>\<open>due_date || null\<close>,
  \<^verbatim>\<open>party_id || null\<close> and \<^verbatim>\<open>status || null\<close>, and under \<^verbatim>\<open>Array.isArray(items)\<close> the two
  loops and the total recomputed from the stored lines.
\<close>

definition updateInvoice_tx :: "timestamp \<Rightarrow> uuid \<Rightarrow> uuid \<Rightarrow> update_req \<Rightarrow> db \<Rightarrow> error + db" where
  "updateInvoice_tx now invoice_id company_id req d =
     (if select_invoice invoice_id company_id d = [] then Inl InvoiceNotFound
      else
        (case (if truthy (u_party_id req)
               then (case uuid_param (u_party_id req) of
                       Inl e \<Rightarrow> Inl e
                     | Inr party \<Rightarrow>
                         if select_party party company_id d = [] then Inl PartyNotFound
                         else Inr ())
               else Inr ()) of
           Inl e \<Rightarrow> Inl e
         | Inr _ \<Rightarrow>
        (case update_invoice_meta (or_null_text (u_due_date req)) (or_null_text (u_party_id req))
                (or_null (u_status req)) now invoice_id company_id d of
           Inl e \<Rightarrow> Inl e
         | Inr d1 \<Rightarrow>
             (case u_items req of
                None \<Rightarrow> Inr d1
              | Some ls \<Rightarrow>
                  (case update_lines company_id invoice_id ls
                          (d1, new_Map (select_lines invoice_id d1), 0) of
                     Inl e \<Rightarrow> Inl e
                   | Inr (d2, existingMap, totalAmount) \<Rightarrow>
                       (case return_removed company_id invoice_id existingMap d2 of
                          Inl e \<Rightarrow> Inl e
                        | Inr d3 \<Rightarrow>
                            (let finalTotal =
                                   sum_list (map ii_total_line_amount (select_lines invoice_id d3))
                             in update_invoice_total
                                  (\<lambda>i. inv_id i = invoice_id \<and> inv_company_id i = company_id)
                                  finalTotal now d3)))))))"

text \<open>
  The handler. Every statement passes the route parameter \<^verbatim>\<open>id\<close> where a \<^verbatim>\<open>UUID\<close> column
  is compared, the first statement included: a text that is no identifier fails that
  statement, and any other text is read as the same identifier by all of them.
\<close>

definition updateInvoice ::
  "timestamp \<Rightarrow> uuid pg_text \<Rightarrow> uuid \<Rightarrow> update_req \<Rightarrow> db \<Rightarrow> db \<times> (error + unit)" where
  "updateInvoice now id_text company_id req d =
     (case read_text id_text of
        None \<Rightarrow> (d, Inl (DbError invalid_text_representation))
      | Some invoice_id \<Rightarrow>
          (case updateInvoice_tx now invoice_id company_id req d of
             Inl e \<Rightarrow> (d, Inl e)
           | Inr d' \<Rightarrow> (d', Inr ())))"

section \<open>updateInvoiceStatus\<close>

text \<open>
  A single statement outside any transaction:
  \<^verbatim>\<open>UPDATE invoices SET status = $1::invoice_status, updated_at = NOW()
  WHERE id = $2 AND company_id = $3 RETURNING *\<close>. The earlier controller leaves
  \<^verbatim>\<open>updated_at\<close> to the trigger \<^verbatim>\<open>set_timestamp\<close>, with the same effect. The response is the
  updated row.
\<close>

definition validStatuses :: "string list" where
  "validStatuses = [''draft'', ''sent'', ''paid'', ''cancelled'']"

definition updateInvoiceStatus ::
  "timestamp \<Rightarrow> uuid pg_text \<Rightarrow> uuid \<Rightarrow> string \<Rightarrow> db \<Rightarrow> db \<times> (error + invoice)" where
  "updateInvoiceStatus now id_text company_id status d =
     (if status \<notin> set validStatuses then (d, Inl InvalidStatus)
      else
        (case cast_invoice_status status of
           None \<Rightarrow> (d, Inl (DbError invalid_text_representation))
         | Some st \<Rightarrow>
        (case read_text id_text of
           None \<Rightarrow> (d, Inl (DbError invalid_text_representation))
         | Some invoice_id \<Rightarrow>
             (let d' = d\<lparr>invoices :=
                          map (\<lambda>i. if inv_id i = invoice_id \<and> inv_company_id i = company_id
                                    then i\<lparr>inv_status := st, inv_updated_at := now\<rparr> else i)
                              (invoices d)\<rparr>
              in case select_invoice invoice_id company_id d' of
                   [] \<Rightarrow> (d', Inl InvoiceNotFound)
                 | row # _ \<Rightarrow> (d', Inr row)))))"

section \<open>deleteInvoice (the tenant-scoped controller)\<close>

text \<open>The loop that returns each line's quantity to its item before the lines are deleted.\<close>

fun return_stock :: "uuid \<Rightarrow> invoice_item list \<Rightarrow> db \<Rightarrow> error + db" where
  "return_stock company_id [] d = Inr d"
| "return_stock company_id (line # rest) d =
     (case update_items_quantity
             (\<lambda>x. it_id x = ii_item_id line \<and> it_company_id x = company_id)
             (\<lambda>q. q + ii_quantity line) d of
        Inl e \<Rightarrow> Inl e
      | Inr d1 \<Rightarrow> return_stock company_id rest d1)"

text \<open>
  \<^verbatim>\<open>DELETE FROM invoice_items ii USING invoices inv WHERE ii.invoice_id = inv.id AND inv.id = $1
  AND inv.company_id = $2\<close>
\<close>

definition delete_lines_using :: "uuid \<Rightarrow> uuid \<Rightarrow> db \<Rightarrow> db" where
  "delete_lines_using iid cid d =
     (if select_invoice iid cid d = [] then d
      else d\<lparr>invoice_items := filter (\<lambda>l. ii_invoice_id l \<noteq> iid) (invoice_items d)\<rparr>)"

text \<open>
  \<^verbatim>\<open>DELETE FROM invoices WHERE w\<close>; the lines of a deleted invoice go with it
  (\<^verbatim>\<open>ON DELETE CASCADE\<close>).
\<close>

definition delete_invoices :: "(invoice \<Rightarrow> bool) \<Rightarrow> db \<Rightarrow> db" where
  "delete_invoices w d =
     d\<lparr>invoices := filter (\<lambda>i. \<not> w i) (invoices d),
       invoice_items :=
         filter (\<lambda>l. filter (\<lambda>i. w i \<and> inv_id i = ii_invoice_id l) (invoices d) = [])
                (invoice_items d)\<rparr>"

definition deleteInvoice_tx :: "uuid \<Rightarrow> uuid \<Rightarrow> db \<Rightarrow> error + db" where
  "deleteInvoice_tx invoice_id company_id d =
     (if select_invoice invoice_id company_id d = [] then Inl InvoiceNotFound
      else
        (case return_stock company_id (select_lines invoice_id d) d of
           Inl e \<Rightarrow> Inl e
         | Inr d1 \<Rightarrow>
             Inr (delete_invoices (\<lambda>i. inv_id i = invoice_id \<and> inv_company_id i = company_id)
                    (delete_lines_using invoice_id company_id d1))))"

definition deleteInvoice :: "uuid pg_text \<Rightarrow> uuid \<Rightarrow> db \<Rightarrow> db \<times> (error + unit)" where
  "deleteInvoice id_text company_id d =
     (case read_text id_text of
        None \<Rightarrow> (d, Inl (DbError invalid_text_representation))
      | Some invoice_id \<Rightarrow>
          (case deleteInvoice_tx invoice_id company_id d of
             Inl e \<Rightarrow> (d, Inl e)
           | Inr d' \<Rightarrow> (d', Inr ())))"

section \<open>The earlier controller, without tenant scoping on writes\<close>

text \<open>
  The other revision of \<^verbatim>\<open>controllers/invoiceController.js\<close>: no party check, no check of
  \<^verbatim>\<open>item_id\<close>, no \<^verbatim>\<open>|| null\<close> on the fields of the body, stock updates keyed by \<^verbatim>\<open>id\<close>
  alone, the invoice total accumulated in memory, and a delete that returns no stock.
  \<^verbatim>\<open>items\<close> has no default: iterating over a missing list throws.
\<close>

definition create_line_unscoped :: "uuid \<Rightarrow> uuid \<Rightarrow> line_req \<Rightarrow> db \<times> int \<Rightarrow> error + db \<times> int" where
  "create_line_unscoped company_id invoiceId l st =
     (case st of (d, totalAmount) \<Rightarrow>
      if quantity l = 0 \<or> quantity l \<le> 0 then Inl (InvalidLineQuantity (item_id l))
      else
        (case uuid_param (item_id l) of
           Inl e \<Rightarrow> Inl e
         | Inr iid \<Rightarrow>
            (case select_item iid company_id d of
               [] \<Rightarrow> Inl (ItemNotFound (item_id l))
             | r # _ \<Rightarrow>
                 if it_quantity r < quantity l then Inl (InsufficientStock (item_id l))
                 else
                   (let priceAtPurchase = it_price r;
                        totalLineAmount = priceAtPurchase * quantity l
                    in
                    case insert_invoice_item invoiceId iid (quantity l) priceAtPurchase
                           totalLineAmount d of
                      Inl e \<Rightarrow> Inl e
                    | Inr d1 \<Rightarrow>
                        (case update_items_quantity (\<lambda>x. Some (it_id x) = iid)
                                (\<lambda>q. q - quantity l) d1 of
                           Inl e \<Rightarrow> Inl e
                         | Inr d2 \<Rightarrow> Inr (d2, totalAmount + totalLineAmount))))))"

fun create_lines_unscoped :: "uuid \<Rightarrow> uuid \<Rightarrow> line_req list \<Rightarrow> db \<times> int \<Rightarrow> error + db \<times> int" where
  "create_lines_unscoped company_id invoiceId [] st = Inr st"
| "create_lines_unscoped company_id invoiceId (l # ls) st =
     (case create_line_unscoped company_id invoiceId l st of
        Inl e \<Rightarrow> Inl e
      | Inr st' \<Rightarrow> create_lines_unscoped company_id invoiceId ls st')"

definition createInvoice_unscoped_tx ::
  "timestamp \<Rightarrow> uuid \<Rightarrow> uuid \<Rightarrow> create_req \<Rightarrow> db \<Rightarrow> error + db" where
  "createInvoice_unscoped_tx now new_id company_id req d =
     (case insert_invoice new_id now company_id (c_party_id req) (c_invoice_number req)
             (c_due_date req) (c_status req) d of
        Inl e \<Rightarrow> Inl e
      | Inr d1 \<Rightarrow>
          (case c_items req of
             None \<Rightarrow> Inl NotIterable
           | Some ls \<Rightarrow>
               (case create_lines_unscoped company_id new_id ls (d1, 0) of
                  Inl e \<Rightarrow> Inl e
                | Inr (d2, totalAmount) \<Rightarrow>
                    update_invoice_total (\<lambda>i. inv_id i = new_id) totalAmount now d2)))"

definition createInvoice_unscoped ::
  "timestamp \<Rightarrow> uuid \<Rightarrow> uuid \<Rightarrow> create_req \<Rightarrow> db \<Rightarrow> db \<times> (error + uuid)" where
  "createInvoice_unscoped now new_id company_id req d =
     (case createInvoice_unscoped_tx now new_id company_id req d of
        Inl e \<Rightarrow> (d, Inl e)
      | Inr d' \<Rightarrow> (d', Inr new_id))"

definition update_line_unscoped ::
  "uuid \<Rightarrow> uuid \<Rightarrow> line_req \<Rightarrow> db \<times> (uuid \<times> int) list \<times> int
     \<Rightarrow> error + db \<times> (uuid \<times> int) list \<times> int" where
  "update_line_unscoped company_id invoice_id l st =
     (case st of (d, existingMap, totalAmount) \<Rightarrow>
      if quantity l = 0 \<or> quantity l \<le> 0 then Inl (InvalidLineQuantity (item_id l))
      else
        (case uuid_param (item_id l) of
           Inl e \<Rightarrow> Inl e
         | Inr iid \<Rightarrow>
            (case select_item iid company_id d of
               [] \<Rightarrow> Inl (ItemNotFound (item_id l))
             | r # _ \<Rightarrow>
                 (let price = it_price r;
                      existingQuantity = (case Map_get existingMap (item_id l) of
                                            None \<Rightarrow> 0 | Some q \<Rightarrow> q);
                      quantityChange = quantity l - existingQuantity
                  in
                  if quantityChange > 0 \<and> it_quantity r < quantityChange
                  then Inl (InsufficientStock (item_id l))
                  else
                    (let totalLineAmount = price * quantity l in
                     case (if Map_has existingMap (item_id l)
                           then update_invoice_item invoice_id iid (quantity l) price
                                  totalLineAmount d
                           else insert_invoice_item invoice_id iid (quantity l) price
                                  totalLineAmount d) of
                       Inl e \<Rightarrow> Inl e
                     | Inr d1 \<Rightarrow>
                         (case update_items_quantity (\<lambda>x. Some (it_id x) = iid)
                                 (\<lambda>q. q - quantityChange) d1 of
                            Inl e \<Rightarrow> Inl e
                          | Inr d2 \<Rightarrow>
                              Inr (d2, Map_delete (item_id l) existingMap,
                                   totalAmount + totalLineAmount)))))))"

fun update_lines_unscoped ::
  "uuid \<Rightarrow> uuid \<Rightarrow> line_req list \<Rightarrow> db \<times> (uuid \<times> int) list \<times> int
     \<Rightarrow> error + db \<times> (uuid \<times> int) list \<times> int" where
  "update_lines_unscoped company_id invoice_id [] st = Inr st"
| "update_lines_unscoped company_id invoice_id (l # ls) st =
     (case update_line_unscoped company_id invoice_id l st of
        Inl e \<Rightarrow> Inl e
      | Inr st' \<Rightarrow> update_lines_unscoped company_id invoice_id ls st')"

fun return_removed_unscoped :: "uuid \<Rightarrow> (uuid \<times> int) list \<Rightarrow> db \<Rightarrow> error + db" where
  "return_removed_unscoped invoice_id [] d = Inr d"
| "return_removed_unscoped invoice_id ((oldItemId, oldQty) # rest) d =
     (case update_items_quantity (\<lambda>x. it_id x = oldItemId) (\<lambda>q. q + oldQty)
             (delete_invoice_item invoice_id oldItemId d) of
        Inl e \<Rightarrow> Inl e
      | Inr d2 \<Rightarrow> return_removed_unscoped invoice_id rest d2)"

definition updateInvoice_unscoped_tx ::
  "timestamp \<Rightarrow> uuid \<Rightarrow> uuid \<Rightarrow> update_req \<Rightarrow> db \<Rightarrow> error + db" where
  "updateInvoice_unscoped_tx now invoice_id company_id req d =
     (if select_invoice invoice_id company_id d = [] then Inl InvoiceNotFound
      else
        (case update_invoice_meta (u_due_date req) (u_party_id req) (u_status req)
                now invoice_id company_id d of
           Inl e \<Rightarrow> Inl e
         | Inr d1 \<Rightarrow>
             (case u_items req of
                None \<Rightarrow> Inr d1
              | Some ls \<Rightarrow>
                  (case update_lines_unscoped company_id invoice_id ls
                          (d1, new_Map (select_lines invoice_id d1), 0) of
                     Inl e \<Rightarrow> Inl e
                   | Inr (d2, existingMap, totalAmount) \<Rightarrow>
                       (case return_removed_unscoped invoice_id existingMap d2 of
                          Inl e \<Rightarrow> Inl e
                        | Inr d3 \<Rightarrow>
                            update_invoice_total (\<lambda>i. inv_id i = invoice_id) totalAmount now d3)))))"

definition updateInvoice_unscoped ::
  "timestamp \<Rightarrow> uuid pg_text \<Rightarrow> uuid \<Rightarrow> update_req \<Rightarrow> db \<Rightarrow> db \<times> (error + unit)" where
  "updateInvoice_unscoped now id_text company_id req d =
     (case read_text id_text of
        None \<Rightarrow> (d, Inl (DbError invalid_text_representation))
      | Some invoice_id \<Rightarrow>
          (case updateInvoice_unscoped_tx now invoice_id company_id req d of
             Inl e \<Rightarrow> (d, Inl e)
           | Inr d' \<Rightarrow> (d', Inr ())))"

text \<open>
  \<^verbatim>\<open>DELETE FROM invoice_items WHERE invoice_id = $1\<close>, then
  \<^verbatim>\<open>DELETE FROM invoices WHERE id = $1\<close>. No statement touches \<^verbatim>\<open>items\<close>.
\<close>

definition deleteInvoice_unscoped :: "uuid pg_text \<Rightarrow> uuid \<Rightarrow> db \<Rightarrow> db \<times> (error + unit)" where
  "deleteInvoice_unscoped id_text company_id d =
     (case read_text id_text of
        None \<Rightarrow> (d, Inl (DbError invalid_text_representation))
      | Some invoice_id \<Rightarrow>
          if select_invoice invoice_id company_id d = [] then (d, Inl InvoiceNotFound)
          else
            (delete_invoices (\<lambda>i. inv_id i = invoice_id)
               (d\<lparr>invoice_items := filter (\<lambda>l. ii_invoice_id l \<noteq> invoice_id) (invoice_items d)\<rparr>),
             Inr ()))"

section \<open>Vocabulary of the properties\<close>

text \<open>
  The price the tenant's catalog holds for an item: the first row the controllers' item
  query returns (\<open>0\<close> without a row).
\<close>

definition catalog_price :: "uuid \<Rightarrow> db \<Rightarrow> uuid \<Rightarrow> int" where
  "catalog_price cid d iid = (case select_item (Some iid) cid d of [] \<Rightarrow> 0 | r # _ \<Rightarrow> it_price r)"

text \<open>
  The item that the store reads from the \<^verbatim>\<open>item_id\<close> of a request entry, whatever its
  spelling, and the key of \<^verbatim>\<open>existingMap\<close> that the \<^verbatim>\<open>item_id\<close> is equal to as a string.
\<close>

definition item_of :: "line_req \<Rightarrow> uuid option" where
  "item_of l = (case item_id l of None \<Rightarrow> None | Some t \<Rightarrow> read_text t)"

definition key_of :: "line_req \<Rightarrow> uuid option" where
  "key_of l = Map_key (item_id l)"

text \<open>The line a request entry gives rise to when it is priced at the catalog price.\<close>

definition expected_line :: "uuid \<Rightarrow> uuid \<Rightarrow> db \<Rightarrow> line_req \<Rightarrow> invoice_item list" where
  "expected_line cid nid d l =
     (case item_of l of None \<Rightarrow> []
      | Some iid \<Rightarrow> [\<lparr>ii_invoice_id = nid, ii_item_id = iid, ii_quantity = quantity l,
                      ii_price_at_purchase = catalog_price cid d iid,
                      ii_total_line_amount = catalog_price cid d iid * quantity l\<rparr>])"

text \<open>The units of an item that a list of request entries asks for, all entries counted.\<close>

definition requested :: "line_req list \<Rightarrow> uuid \<Rightarrow> int" where
  "requested ls iid = sum_list (map quantity (filter (\<lambda>l. item_of l = Some iid) ls))"

text \<open>An item row after the requested units have left its stock: in the caller's company
  only, or in any company.\<close>

definition take_stock :: "uuid \<Rightarrow> line_req list \<Rightarrow> item \<Rightarrow> item" where
  "take_stock cid ls r =
     (if it_company_id r = cid then r\<lparr>it_quantity := it_quantity r - requested ls (it_id r)\<rparr> else r)"

definition take_stock_unscoped :: "line_req list \<Rightarrow> item \<Rightarrow> item" where
  "take_stock_unscoped ls r = r\<lparr>it_quantity := it_quantity r - requested ls (it_id r)\<rparr>"

text \<open>The foreign key \<^verbatim>\<open>invoice_items.invoice_id REFERENCES invoices(id)\<close>.\<close>

definition lines_have_invoice :: "db \<Rightarrow> bool" where
  "lines_have_invoice d =
     list_all (\<lambda>l. filter (\<lambda>i. inv_id i = ii_invoice_id l) (invoices d) \<noteq> []) (invoice_items d)"

text \<open>The lines of a create request, the default applied.\<close>

definition req_lines :: "create_req \<Rightarrow> line_req list" where
  "req_lines req = (case c_items req of None \<Rightarrow> [] | Some ls \<Rightarrow> ls)"


text \<open>An item row after the quantities of a list of stored lines have come back to its stock.\<close>

definition give_back :: "uuid \<Rightarrow> invoice_item list \<Rightarrow> item \<Rightarrow> item" where
  "give_back cid ls r =
     (if it_company_id r = cid
      then r\<lparr>it_quantity := it_quantity r +
                sum_list (map ii_quantity (filter (\<lambda>l. ii_item_id l = it_id r) ls))\<rparr>
      else r)"

text \<open>What \<open>updateInvoiceStatus\<close> does to one invoice row, and a store seen without the
  \<open>updated_at\<close> column.\<close>

definition status_row :: "uuid \<Rightarrow> uuid \<Rightarrow> invoice_status \<Rightarrow> timestamp \<Rightarrow> invoice \<Rightarrow> invoice" where
  "status_row iid cid st now i =
     (if inv_id i = iid \<and> inv_company_id i = cid
      then i\<lparr>inv_status := st, inv_updated_at := now\<rparr> else i)"

definition without_updated_at :: "db \<Rightarrow> db" where
  "without_updated_at d = d\<lparr>invoices := map (\<lambda>i. i\<lparr>inv_updated_at := 0\<rparr>) (invoices d)\<rparr>"

text \<open>
  Vocabulary for \<open>updateInvoice\<close>: the quantity \<^verbatim>\<open>existingMap\<close> holds for an item and
  the quantity that \<^verbatim>\<open>existingMap.get\<close> finds for a request entry, the stock change of one
  loop iteration, the sum of the entries of a map for an item, the
  invariant that every key of the map has exactly one line, and the item rows after the loop
  over the desired lines and after the loop over the removed ones.
\<close>

definition held :: "(uuid \<times> int) list \<Rightarrow> uuid \<Rightarrow> int" where
  "held m iid = (case map_of m iid of None \<Rightarrow> 0 | Some q \<Rightarrow> q)"

definition held_for :: "(uuid \<times> int) list \<Rightarrow> line_req \<Rightarrow> int" where
  "held_for m l = (case Map_get m (item_id l) of None \<Rightarrow> 0 | Some q \<Rightarrow> q)"

definition adjust_stock :: "uuid \<Rightarrow> uuid \<Rightarrow> int \<Rightarrow> item \<Rightarrow> item" where
  "adjust_stock cid iid n r =
     (if it_id r = iid \<and> it_company_id r = cid then r\<lparr>it_quantity := it_quantity r - n\<rparr> else r)"

definition returned :: "(uuid \<times> int) list \<Rightarrow> uuid \<Rightarrow> int" where
  "returned m iid = sum_list (map snd (filter (\<lambda>kv. fst kv = iid) m))"

definition one_line_each :: "(uuid \<times> int) list \<Rightarrow> invoice_item list \<Rightarrow> bool" where
  "one_line_each m ls = (\<forall>k \<in> fst ` set m. length (filter (\<lambda>x. ii_item_id x = k) ls) = 1)"

definition settle :: "uuid \<Rightarrow> line_req list \<Rightarrow> (uuid \<times> int) list \<Rightarrow> item \<Rightarrow> item" where
  "settle cid ls m r =
     (if it_company_id r = cid
      then r\<lparr>it_quantity := it_quantity r - requested ls (it_id r) +
                (if Some (it_id r) \<in> key_of ` set ls then held m (it_id r) else 0)\<rparr>
      else r)"

definition give_back_map :: "uuid \<Rightarrow> (uuid \<times> int) list \<Rightarrow> item \<Rightarrow> item" where
  "give_back_map cid m r =
     (if it_company_id r = cid then r\<lparr>it_quantity := it_quantity r + returned m (it_id r)\<rparr> else r)"

text \<open>The same vocabulary for the earlier controller, whose stock updates are keyed by
  \<^verbatim>\<open>id\<close> alone.\<close>

definition adjust_stock_unscoped :: "uuid \<Rightarrow> int \<Rightarrow> item \<Rightarrow> item" where
  "adjust_stock_unscoped iid n r =
     (if it_id r = iid then r\<lparr>it_quantity := it_quantity r - n\<rparr> else r)"

definition settle_unscoped :: "line_req list \<Rightarrow> (uuid \<times> int) list \<Rightarrow> item \<Rightarrow> item" where
  "settle_unscoped ls m r =
     r\<lparr>it_quantity := it_quantity r - requested ls (it_id r) +
          (if Some (it_id r) \<in> key_of ` set ls then held m (it_id r) else 0)\<rparr>"

definition give_back_map_unscoped :: "(uuid \<times> int) list \<Rightarrow> item \<Rightarrow> item" where
  "give_back_map_unscoped m r = r\<lparr>it_quantity := it_quantity r + returned m (it_id r)\<rparr>"

definition give_back_unscoped :: "invoice_item list \<Rightarrow> item \<Rightarrow> item" where
  "give_back_unscoped ls r =
     r\<lparr>it_quantity := it_quantity r +
          sum_list (map ii_quantity (filter (\<lambda>l. ii_item_id l = it_id r) ls))\<rparr>"

text \<open>A stored line carries the catalog price of its item and the matching line total.\<close>

definition priced :: "uuid \<Rightarrow> db \<Rightarrow> invoice_item \<Rightarrow> bool" where
  "priced cid d x =
     (ii_price_at_purchase x = catalog_price cid d (ii_item_id x) \<and>
      ii_total_line_amount x = catalog_price cid d (ii_item_id x) * ii_quantity x)"

text \<open>The stored lines of an invoice and the desired lines of a request, both as
  (item, quantity) pairs; and an invoice whose stored total is the sum of its stored lines.\<close>

definition stored_pairs :: "uuid \<Rightarrow> db \<Rightarrow> (uuid option \<times> int) list" where
  "stored_pairs iv d = map (\<lambda>x. (Some (ii_item_id x), ii_quantity x)) (select_lines iv d)"

definition desired_pairs :: "line_req list \<Rightarrow> (uuid option \<times> int) list" where
  "desired_pairs ls = map (\<lambda>l. (item_of l, quantity l)) ls"

definition total_matches_lines :: "uuid \<Rightarrow> uuid \<Rightarrow> db \<Rightarrow> bool" where
  "total_matches_lines iv cid d =
     (select_invoice iv cid d \<noteq> [] \<and>
      list_all (\<lambda>i. inv_total_amount i = sum_list (map ii_total_line_amount (select_lines iv d)))
        (select_invoice iv cid d))"

text \<open>
  No item row has a negative stock; the quantity \<^verbatim>\<open>existingMap\<close> holds for an item of an
  invoice; and an item of the company whose current stock is below a number of units.
\<close>

definition stock_nonneg :: "db \<Rightarrow> bool" where
  "stock_nonneg d = list_all (\<lambda>r. 0 \<le> it_quantity r) (items d)"

definition held_by_invoice :: "uuid \<Rightarrow> db \<Rightarrow> uuid \<Rightarrow> int" where
  "held_by_invoice iv d iid = held (new_Map (select_lines iv d)) iid"

definition exceeds_stock :: "uuid \<Rightarrow> db \<Rightarrow> uuid \<Rightarrow> int \<Rightarrow> bool" where
  "exceeds_stock cid d iid n =
     (case select_item (Some iid) cid d of [] \<Rightarrow> False | r # _ \<Rightarrow> it_quantity r < n)"

section \<open>Concrete stores and requests\<close>

text \<open>Company \<open>C\<close> with party \<open>P\<close> and items \<open>A\<close> (price 100, stock 10) and \<open>B\<close>
  (price 250, stock 3); party \<open>Q\<close> belongs to company \<open>D\<close>.\<close>

definition ex_db :: db where
  "ex_db = \<lparr>parties = [\<lparr>p_id = ''P'', p_company_id = ''C''\<rparr>, \<lparr>p_id = ''Q'', p_company_id = ''D''\<rparr>],
            items = [\<lparr>it_id = ''A'', it_company_id = ''C'', it_price = 100, it_quantity = 10\<rparr>,
                     \<lparr>it_id = ''B'', it_company_id = ''C'', it_price = 250, it_quantity = 3\<rparr>],
            invoices = [], invoice_items = []\<rparr>"

definition ex_create :: "line_req list \<Rightarrow> create_req" where
  "ex_create ls = \<lparr>c_party_id = Some (Standard ''P''), c_invoice_number = Some ''INV-1'', c_due_date = None,
                   c_items = Some ls, c_status = None\<rparr>"

definition ex_db1 :: db where
  "ex_db1 = \<lparr>parties = parties ex_db,
             items = [\<lparr>it_id = ''A'', it_company_id = ''C'', it_price = 100, it_quantity = 6\<rparr>,
                      \<lparr>it_id = ''B'', it_company_id = ''C'', it_price = 250, it_quantity = 2\<rparr>],
             invoices = [\<lparr>inv_id = ''I'', inv_company_id = ''C'', inv_party_id = ''P'',
                          inv_invoice_number = ''INV-1'', inv_due_date = None,
                          inv_total_amount = 650, inv_status = draft, inv_updated_at = 1\<rparr>],
             invoice_items =
               [\<lparr>ii_invoice_id = ''I'', ii_item_id = ''A'', ii_quantity = 4,
                 ii_price_at_purchase = 100, ii_total_line_amount = 400\<rparr>,
                \<lparr>ii_invoice_id = ''I'', ii_item_id = ''B'', ii_quantity = 1,
                 ii_price_at_purchase = 250, ii_total_line_amount = 250\<rparr>]\<rparr>"

definition ex_lines :: "line_req list" where
  "ex_lines = [\<lparr>item_id = Some (Standard ''A''), quantity = 4\<rparr>, \<lparr>item_id = Some (Standard ''B''), quantity = 1\<rparr>]"

definition ex_db_empty :: db where
  "ex_db_empty = ex_db\<lparr>invoices := [\<lparr>inv_id = ''I'', inv_company_id = ''C'', inv_party_id = ''P'',
                          inv_invoice_number = ''INV-1'', inv_due_date = None,
                          inv_total_amount = 0, inv_status = draft, inv_updated_at = 1\<rparr>]\<rparr>"

definition ex_bad_lines :: "line_req list" where
  "ex_bad_lines = [\<lparr>item_id = Some (Standard ''A''), quantity = 4\<rparr>, \<lparr>item_id = Some (Standard ''B''), quantity = 0\<rparr>]"

definition ex_foreign_party :: create_req where
  "ex_foreign_party = (ex_create ex_lines)\<lparr>c_party_id := Some (Standard ''Q'')\<rparr>"

definition ex_db1_foreign :: db where
  "ex_db1_foreign = ex_db1\<lparr>invoices := [\<lparr>inv_id = ''I'', inv_company_id = ''C'', inv_party_id = ''Q'',
                          inv_invoice_number = ''INV-1'', inv_due_date = None,
                          inv_total_amount = 650, inv_status = draft, inv_updated_at = 1\<rparr>]\<rparr>"

definition ex_db1_deleted :: db where
  "ex_db1_deleted = ex_db1\<lparr>invoices := [], invoice_items := []\<rparr>"

definition ex_db1_paid :: "timestamp \<Rightarrow> db" where
  "ex_db1_paid t = ex_db1\<lparr>invoices := [\<lparr>inv_id = ''I'', inv_company_id = ''C'', inv_party_id = ''P'',
                          inv_invoice_number = ''INV-1'', inv_due_date = None,
                          inv_total_amount = 650, inv_status = paid, inv_updated_at = t\<rparr>]\<rparr>"

definition ex_update :: "line_req list \<Rightarrow> update_req" where
  "ex_update ls = \<lparr>u_due_date = None, u_party_id = None, u_status = None, u_items = Some ls\<rparr>"

definition ex_db1_repriced :: db where
  "ex_db1_repriced = ex_db1\<lparr>items :=
     [\<lparr>it_id = ''A'', it_company_id = ''C'', it_price = 120, it_quantity = 6\<rparr>,
      \<lparr>it_id = ''B'', it_company_id = ''C'', it_price = 250, it_quantity = 2\<rparr>]\<rparr>"

definition ex_requantified :: "line_req list" where
  "ex_requantified = [\<lparr>item_id = Some (Standard ''A''), quantity = 2\<rparr>, \<lparr>item_id = Some (Standard ''B''), quantity = 1\<rparr>]"

definition ex_db2_repriced :: db where
  "ex_db2_repriced =
     \<lparr>parties = parties ex_db,
      items = [\<lparr>it_id = ''A'', it_company_id = ''C'', it_price = 120, it_quantity = 8\<rparr>,
               \<lparr>it_id = ''B'', it_company_id = ''C'', it_price = 250, it_quantity = 2\<rparr>],
      invoices = [\<lparr>inv_id = ''I'', inv_company_id = ''C'', inv_party_id = ''P'',
                   inv_invoice_number = ''INV-1'', inv_due_date = None,
                   inv_total_amount = 490, inv_status = draft, inv_updated_at = 2\<rparr>],
      invoice_items =
        [\<lparr>ii_invoice_id = ''I'', ii_item_id = ''A'', ii_quantity = 2,
          ii_price_at_purchase = 120, ii_total_line_amount = 240\<rparr>,
         \<lparr>ii_invoice_id = ''I'', ii_item_id = ''B'', ii_quantity = 1,
          ii_price_at_purchase = 250, ii_total_line_amount = 250\<rparr>]\<rparr>"

definition ex_dup_lines :: "line_req list" where
  "ex_dup_lines = [\<lparr>item_id = Some (Standard ''A''), quantity = 1\<rparr>, \<lparr>item_id = Some (Standard ''A''), quantity = 1\<rparr>]"

definition ex_db_dup :: db where
  "ex_db_dup =
     \<lparr>parties = parties ex_db,
      items = [\<lparr>it_id = ''A'', it_company_id = ''C'', it_price = 100, it_quantity = 8\<rparr>,
               \<lparr>it_id = ''B'', it_company_id = ''C'', it_price = 250, it_quantity = 3\<rparr>],
      invoices = [\<lparr>inv_id = ''I'', inv_company_id = ''C'', inv_party_id = ''P'',
                   inv_invoice_number = ''INV-1'', inv_due_date = None,
                   inv_total_amount = 200, inv_status = draft, inv_updated_at = 1\<rparr>],
      invoice_items =
        [\<lparr>ii_invoice_id = ''I'', ii_item_id = ''A'', ii_quantity = 1,
          ii_price_at_purchase = 100, ii_total_line_amount = 100\<rparr>,
         \<lparr>ii_invoice_id = ''I'', ii_item_id = ''A'', ii_quantity = 1,
          ii_price_at_purchase = 100, ii_total_line_amount = 100\<rparr>]\<rparr>"

definition ex_one_line :: "line_req list" where
  "ex_one_line = [\<lparr>item_id = Some (Standard ''A''), quantity = 2\<rparr>]"

definition ex_db_dup2 :: db where
  "ex_db_dup2 =
     \<lparr>parties = parties ex_db,
      items = [\<lparr>it_id = ''A'', it_company_id = ''C'', it_price = 100, it_quantity = 7\<rparr>,
               \<lparr>it_id = ''B'', it_company_id = ''C'', it_price = 250, it_quantity = 3\<rparr>],
      invoices = [\<lparr>inv_id = ''I'', inv_company_id = ''C'', inv_party_id = ''P'',
                   inv_invoice_number = ''INV-1'', inv_due_date = None,
                   inv_total_amount = 400, inv_status = draft, inv_updated_at = 2\<rparr>],
      invoice_items =
        [\<lparr>ii_invoice_id = ''I'', ii_item_id = ''A'', ii_quantity = 2,
          ii_price_at_purchase = 100, ii_total_line_amount = 200\<rparr>,
         \<lparr>ii_invoice_id = ''I'', ii_item_id = ''A'', ii_quantity = 2,
          ii_price_at_purchase = 100, ii_total_line_amount = 200\<rparr>]\<rparr>"

definition ex_replaced :: "line_req list" where
  "ex_replaced = [\<lparr>item_id = Some (Standard ''A''), quantity = 2\<rparr>]"

definition ex_db2 :: db where
  "ex_db2 =
     \<lparr>parties = parties ex_db,
      items = [\<lparr>it_id = ''A'', it_company_id = ''C'', it_price = 100, it_quantity = 8\<rparr>,
               \<lparr>it_id = ''B'', it_company_id = ''C'', it_price = 250, it_quantity = 3\<rparr>],
      invoices = [\<lparr>inv_id = ''I'', inv_company_id = ''C'', inv_party_id = ''P'',
                   inv_invoice_number = ''INV-1'', inv_due_date = None,
                   inv_total_amount = 200, inv_status = draft, inv_updated_at = 2\<rparr>],
      invoice_items =
        [\<lparr>ii_invoice_id = ''I'', ii_item_id = ''A'', ii_quantity = 2,
          ii_price_at_purchase = 100, ii_total_line_amount = 200\<rparr>]\<rparr>"

definition ex_overdraw :: "line_req list" where
  "ex_overdraw = [\<lparr>item_id = Some (Standard ''B''), quantity = 1\<rparr>, \<lparr>item_id = Some (Standard ''A''), quantity = 11\<rparr>]"

text \<open>The desired lines (\<open>A\<close>, 2) and (\<open>B\<close>, 1) with the identifier of \<open>A\<close> in
  another spelling, and the store after an update of invoice \<open>I\<close> with them: no line for
  \<open>A\<close> is left; the total depends on the controller.\<close>

definition ex_respelled :: "line_req list" where
  "ex_respelled = [\<lparr>item_id = Some (Variant ''A''), quantity = 2\<rparr>,
                   \<lparr>item_id = Some (Standard ''B''), quantity = 1\<rparr>]"

definition ex_db1_respelled :: "int \<Rightarrow> db" where
  "ex_db1_respelled tot =
     \<lparr>parties = parties ex_db,
      items = [\<lparr>it_id = ''A'', it_company_id = ''C'', it_price = 100, it_quantity = 8\<rparr>,
               \<lparr>it_id = ''B'', it_company_id = ''C'', it_price = 250, it_quantity = 2\<rparr>],
      invoices = [\<lparr>inv_id = ''I'', inv_company_id = ''C'', inv_party_id = ''P'',
                   inv_invoice_number = ''INV-1'', inv_due_date = None,
                   inv_total_amount = tot, inv_status = draft, inv_updated_at = 2\<rparr>],
      invoice_items =
        [\<lparr>ii_invoice_id = ''I'', ii_item_id = ''B'', ii_quantity = 1,
          ii_price_at_purchase = 250, ii_total_line_amount = 250\<rparr>]\<rparr>"
section \<open>What each statement and each loop does when it succeeds\<close>

lemma bind_param_Inr:
  "bind_param e x = Inr v \<Longrightarrow> v = (case x of None \<Rightarrow> None | Some t \<Rightarrow> read_text t)"
  by (auto simp: bind_param_def split: option.splits)

lemma uuid_param_item: "uuid_param (item_id l) = Inr v \<Longrightarrow> v = item_of l"
  by (auto simp: uuid_param_def item_of_def dest: bind_param_Inr)

lemma uuid_param_item_of: "item_of l = Some iid \<Longrightarrow> uuid_param (item_id l) = Inr (Some iid)"
  by (auto simp: uuid_param_def bind_param_def item_of_def split: option.splits)

lemma item_of_truthy: "item_of l = Some iid \<Longrightarrow> truthy (item_id l)"
  by (auto simp: item_of_def truthy_def read_text_def split: option.splits pg_text.splits)

lemma select_item_Cons_Some: "select_item v cid d = r # rs \<Longrightarrow> v = Some (it_id r)"
proof -
  assume "select_item v cid d = r # rs"
  then have "r \<in> set (select_item v cid d)" by simp
  then show ?thesis by (auto simp: select_item_def)
qed

lemma insert_invoice_item_Inr:
  "insert_invoice_item iv itm q p t d = Inr d' \<Longrightarrow>
     \<exists>i. itm = Some i \<and> 0 < q \<and> 0 \<le> p \<and>
         d' = d\<lparr>invoice_items := invoice_items d @
                  [\<lparr>ii_invoice_id = iv, ii_item_id = i, ii_quantity = q,
                    ii_price_at_purchase = p, ii_total_line_amount = t\<rparr>]\<rparr>"
  by (auto simp: insert_invoice_item_def line_checks_def Let_def split: if_splits option.splits)

lemma update_items_quantity_Inr:
  "update_items_quantity w f d = Inr d' \<Longrightarrow>
   d' = d\<lparr>items := map (\<lambda>r. if w r then r\<lparr>it_quantity := f (it_quantity r)\<rparr> else r) (items d)\<rparr>"
  by (auto simp: update_items_quantity_def split: if_splits)

lemma create_line_Inr:
  assumes "create_line cid nid l (d, t) = Inr (d', t')"
  shows "\<exists>iid r rs. item_of l = Some iid \<and> 0 < quantity l \<and>
           select_item (Some iid) cid d = r # rs \<and> quantity l \<le> it_quantity r \<and>
           t' = t + it_price r * quantity l \<and>
           invoice_items d' = invoice_items d @ expected_line cid nid d l \<and>
           items d' = map (take_stock cid [l]) (items d) \<and>
           parties d' = parties d \<and> invoices d' = invoices d"
proof -
  from assms obtain v r rs where v: "uuid_param (item_id l) = Inr v"
    and sel: "select_item v cid d = r # rs"
    by (auto simp: create_line_def split: if_splits sum.splits list.splits)
  from select_item_Cons_Some[OF sel] uuid_param_item[OF v]
  have idr: "v = Some (it_id r)" "item_of l = Some (it_id r)" by simp_all
  have ts: "take_stock cid [l] = (\<lambda>x. if Some (it_id x) = Some (it_id r) \<and> it_company_id x = cid
       then x\<lparr>it_quantity := it_quantity x - quantity l\<rparr> else x)"
    by (rule ext) (auto simp: take_stock_def requested_def idr)
  show ?thesis
    using assms sel[unfolded idr]
    apply (simp add: create_line_def Let_def v idr ts split: if_splits sum.splits)
    apply (auto dest!: insert_invoice_item_Inr update_items_quantity_Inr
       simp: expected_line_def catalog_price_def idr)
    done
qed

lemma take_stock_fields [simp]:
  "it_id (take_stock c ls r) = it_id r"
  "it_company_id (take_stock c ls r) = it_company_id r"
  "it_price (take_stock c ls r) = it_price r"
  by (simp_all add: take_stock_def)

lemma select_item_map:
  assumes "\<And>r. it_id (g r) = it_id r" "\<And>r. it_company_id (g r) = it_company_id r"
    and "items d' = map g (items d)"
  shows "select_item i cid d' = map g (select_item i cid d)"
  using assms by (simp add: select_item_def filter_map o_def)

lemma catalog_price_map:
  assumes "\<And>r. it_id (g r) = it_id r" "\<And>r. it_company_id (g r) = it_company_id r"
    and "\<And>r. it_price (g r) = it_price r"
    and "items d' = map g (items d)"
  shows "catalog_price cid d' = catalog_price cid d"
proof
  fix i
  have "select_item (Some i) cid d' = map g (select_item (Some i) cid d)"
    using assms(1,2,4) by (rule select_item_map)
  then show "catalog_price cid d' i = catalog_price cid d i"
    by (simp add: catalog_price_def assms(3) split: list.splits)
qed

lemma catalog_price_items:
  "items d' = map (take_stock c ls) (items d) \<Longrightarrow> catalog_price cid d' = catalog_price cid d"
  by (rule catalog_price_map[where g = "take_stock c ls"]) simp_all

lemma requested_Cons: "requested (l # ls) i = (if item_of l = Some i then quantity l else 0) + requested ls i"
  by (simp add: requested_def)

lemma take_stock_Cons: "take_stock cid ls (take_stock cid [l] r) = take_stock cid (l # ls) r"
  by (simp add: take_stock_def requested_def)

lemma create_lines_Inr:
  "create_lines cid nid ls (d, t) = Inr (d', t') \<Longrightarrow>
     t' = t + sum_list (map ii_total_line_amount (concat (map (expected_line cid nid d) ls))) \<and>
     invoice_items d' = invoice_items d @ concat (map (expected_line cid nid d) ls) \<and>
     items d' = map (take_stock cid ls) (items d) \<and>
     parties d' = parties d \<and> invoices d' = invoices d"
proof (induction ls arbitrary: d t)
  case Nil
  then show ?case by (simp add: take_stock_def requested_def map_idI)
next
  case (Cons l ls)
  then obtain d1 t1 where s1: "create_line cid nid l (d, t) = Inr (d1, t1)"
    and s2: "create_lines cid nid ls (d1, t1) = Inr (d', t')"
    by (auto split: sum.splits)
  from create_line_Inr[OF s1] obtain iid r rs where
    f: "item_of l = Some iid" "select_item (Some iid) cid d = r # rs"
      "t1 = t + it_price r * quantity l"
      "invoice_items d1 = invoice_items d @ expected_line cid nid d l"
      "items d1 = map (take_stock cid [l]) (items d)"
      "parties d1 = parties d" "invoices d1 = invoices d"
    by blast
  have cp: "catalog_price cid d1 = catalog_price cid d"
    using f(5) by (rule catalog_price_items)
  have el: "expected_line cid nid d1 = expected_line cid nid d"
    by (rule ext) (simp add: expected_line_def cp split: option.splits)
  have t1: "t1 = t + sum_list (map ii_total_line_amount (expected_line cid nid d l))"
    using f(1,2,3) by (simp add: expected_line_def catalog_price_def)
  from Cons.IH[OF s2] show ?case
    using f(4-7) t1 by (simp add: el take_stock_Cons o_def)
qed

lemma take_stock_unscoped_fields [simp]:
  "it_id (take_stock_unscoped ls r) = it_id r"
  "it_company_id (take_stock_unscoped ls r) = it_company_id r"
  "it_price (take_stock_unscoped ls r) = it_price r"
  by (simp_all add: take_stock_unscoped_def)

lemma take_stock_unscoped_Cons:
  "take_stock_unscoped ls (take_stock_unscoped [l] r) = take_stock_unscoped (l # ls) r"
  by (simp add: take_stock_unscoped_def requested_def)

lemma create_line_unscoped_Inr:
  assumes "create_line_unscoped cid nid l (d, t) = Inr (d', t')"
  shows "\<exists>iid r rs. item_of l = Some iid \<and> 0 < quantity l \<and>
           select_item (Some iid) cid d = r # rs \<and> quantity l \<le> it_quantity r \<and>
           t' = t + it_price r * quantity l \<and>
           invoice_items d' = invoice_items d @ expected_line cid nid d l \<and>
           items d' = map (take_stock_unscoped [l]) (items d) \<and>
           parties d' = parties d \<and> invoices d' = invoices d"
proof -
  from assms obtain v r rs where v: "uuid_param (item_id l) = Inr v"
    and sel: "select_item v cid d = r # rs"
    by (auto simp: create_line_unscoped_def split: if_splits sum.splits list.splits)
  from select_item_Cons_Some[OF sel] uuid_param_item[OF v]
  have idr: "v = Some (it_id r)" "item_of l = Some (it_id r)" by simp_all
  have ts: "take_stock_unscoped [l] = (\<lambda>x. if Some (it_id x) = Some (it_id r)
       then x\<lparr>it_quantity := it_quantity x - quantity l\<rparr> else x)"
    by (rule ext) (auto simp: take_stock_unscoped_def requested_def idr)
  show ?thesis
    using assms sel[unfolded idr]
    apply (simp add: create_line_unscoped_def Let_def v idr ts split: if_splits sum.splits)
    apply (auto dest!: insert_invoice_item_Inr update_items_quantity_Inr
       simp: expected_line_def catalog_price_def idr)
    done
qed

lemma create_lines_unscoped_Inr:
  "create_lines_unscoped cid nid ls (d, t) = Inr (d', t') \<Longrightarrow>
     t' = t + sum_list (map ii_total_line_amount (concat (map (expected_line cid nid d) ls))) \<and>
     invoice_items d' = invoice_items d @ concat (map (expected_line cid nid d) ls) \<and>
     items d' = map (take_stock_unscoped ls) (items d) \<and>
     parties d' = parties d \<and> invoices d' = invoices d"
proof (induction ls arbitrary: d t)
  case Nil
  then show ?case by (simp add: take_stock_unscoped_def requested_def map_idI)
next
  case (Cons l ls)
  then obtain d1 t1 where s1: "create_line_unscoped cid nid l (d, t) = Inr (d1, t1)"
    and s2: "create_lines_unscoped cid nid ls (d1, t1) = Inr (d', t')"
    by (auto split: sum.splits)
  from create_line_unscoped_Inr[OF s1] obtain iid r rs where
    f: "item_of l = Some iid" "select_item (Some iid) cid d = r # rs"
      "t1 = t + it_price r * quantity l"
      "invoice_items d1 = invoice_items d @ expected_line cid nid d l"
      "items d1 = map (take_stock_unscoped [l]) (items d)"
      "parties d1 = parties d" "invoices d1 = invoices d"
    by blast
  have cp: "catalog_price cid d1 = catalog_price cid d"
    by (rule catalog_price_map[where g = "take_stock_unscoped [l]"]) (simp_all add: f(5))
  have el: "expected_line cid nid d1 = expected_line cid nid d"
    by (rule ext) (simp add: expected_line_def cp split: option.splits)
  have t1: "t1 = t + sum_list (map ii_total_line_amount (expected_line cid nid d l))"
    using f(1,2,3) by (simp add: expected_line_def catalog_price_def)
  from Cons.IH[OF s2] show ?case
    using f(4-7) t1 by (simp add: el take_stock_unscoped_Cons o_def)
qed

lemma insert_invoice_Inr:
  "insert_invoice nid now cid pty num due sts d = Inr d' \<Longrightarrow>
     \<exists>i. d' = d\<lparr>invoices := invoices d @ [i]\<rparr> \<and> inv_id i = nid \<and> inv_company_id i = cid \<and>
         inv_total_amount i = 0 \<and> filter (\<lambda>j. inv_id j = nid) (invoices d) = []"
  by (auto simp: insert_invoice_def split: if_splits sum.splits option.splits)

lemma update_invoice_total_Inr:
  "update_invoice_total w t now d = Inr d' \<Longrightarrow>
     d' = d\<lparr>invoices := map (\<lambda>i. if w i then i\<lparr>inv_total_amount := t, inv_updated_at := now\<rparr> else i)
                            (invoices d)\<rparr>"
  by (auto simp: update_invoice_total_def split: if_splits)

lemma fresh_invoice_no_lines:
  assumes "lines_have_invoice d" "filter (\<lambda>j. inv_id j = nid) (invoices d) = []"
  shows "select_lines nid d = []"
  using assms unfolding lines_have_invoice_def select_lines_def
  by (auto simp: list_all_iff filter_empty_conv)

lemma expected_line_invoice:
  "l' \<in> set (concat (map (expected_line cid nid d) ls)) \<Longrightarrow> ii_invoice_id l' = nid"
  by (auto simp: expected_line_def split: option.splits)

lemma filter_expected_lines:
  "filter (\<lambda>l. ii_invoice_id l = nid) (concat (map (expected_line cid nid d) ls)) =
     concat (map (expected_line cid nid d) ls)"
  by (rule filter_True) (auto simp: expected_line_def split: option.splits)

lemma createInvoice_tx_Inr:
  assumes tx: "createInvoice_tx now nid cid req d = Inr d'" and fk: "lines_have_invoice d"
  shows "select_lines nid d' = concat (map (expected_line cid nid d) (req_lines req)) \<and>
         map inv_total_amount (filter (\<lambda>i. inv_id i = nid) (invoices d')) =
           [sum_list (map ii_total_line_amount (select_lines nid d'))] \<and>
         items d' = map (take_stock cid (req_lines req)) (items d)"
proof -
  from tx obtain d1 d2 t where
    ins: "insert_invoice nid now cid (c_party_id req) (c_invoice_number req)
            (or_null_text (c_due_date req)) (c_status req) d = Inr d1"
    and loop: "create_lines cid nid (req_lines req) (d1, 0) = Inr (d2, t)"
    and upd: "update_invoice_total (\<lambda>i. inv_id i = nid \<and> inv_company_id i = cid) t now d2 = Inr d'"
    by (auto simp: createInvoice_tx_def req_lines_def split: if_splits sum.splits)
  from insert_invoice_Inr[OF ins] obtain i where d1: "d1 = d\<lparr>invoices := invoices d @ [i]\<rparr>"
    and i: "inv_id i = nid" "inv_company_id i = cid"
    and fresh: "filter (\<lambda>j. inv_id j = nid) (invoices d) = []" by blast
  have nol: "select_lines nid d = []" using fk fresh by (rule fresh_invoice_no_lines)
  have cp: "catalog_price cid d1 = catalog_price cid d"
    by (rule ext) (simp add: catalog_price_def select_item_def d1)
  have el: "expected_line cid nid d1 = expected_line cid nid d"
    by (rule ext) (simp add: expected_line_def cp split: option.splits)
  note L = create_lines_Inr[OF loop, unfolded el]
  note U = update_invoice_total_Inr[OF upd]
  have lines: "select_lines nid d' = concat (map (expected_line cid nid d) (req_lines req))"
    using nol L U by (simp add: select_lines_def d1 filter_expected_lines)
  have inv2: "invoices d2 = invoices d @ [i]" using L by (simp add: d1)
  have tot: "map inv_total_amount (filter (\<lambda>i. inv_id i = nid) (invoices d')) = [t]"
    using fresh by (simp add: U inv2 i filter_map o_def filter_empty_conv)
  have "items d' = items d2" by (simp add: U)
  then show ?thesis using lines tot L by (simp add: d1)
qed

lemma createInvoice_unscoped_tx_Inr:
  assumes tx: "createInvoice_unscoped_tx now nid cid req d = Inr d'" and fk: "lines_have_invoice d"
  shows "select_lines nid d' = concat (map (expected_line cid nid d) (req_lines req)) \<and>
         map inv_total_amount (filter (\<lambda>i. inv_id i = nid) (invoices d')) =
           [sum_list (map ii_total_line_amount (select_lines nid d'))] \<and>
         items d' = map (take_stock_unscoped (req_lines req)) (items d)"
proof -
  from tx obtain d1 d2 t where
    ins: "insert_invoice nid now cid (c_party_id req) (c_invoice_number req)
            (c_due_date req) (c_status req) d = Inr d1"
    and loop: "create_lines_unscoped cid nid (req_lines req) (d1, 0) = Inr (d2, t)"
    and upd: "update_invoice_total (\<lambda>i. inv_id i = nid) t now d2 = Inr d'"
    by (auto simp: createInvoice_unscoped_tx_def req_lines_def split: option.splits sum.splits)
  from insert_invoice_Inr[OF ins] obtain i where d1: "d1 = d\<lparr>invoices := invoices d @ [i]\<rparr>"
    and i: "inv_id i = nid" "inv_company_id i = cid"
    and fresh: "filter (\<lambda>j. inv_id j = nid) (invoices d) = []" by blast
  have nol: "select_lines nid d = []" using fk fresh by (rule fresh_invoice_no_lines)
  have cp: "catalog_price cid d1 = catalog_price cid d"
    by (rule ext) (simp add: catalog_price_def select_item_def d1)
  have el: "expected_line cid nid d1 = expected_line cid nid d"
    by (rule ext) (simp add: expected_line_def cp split: option.splits)
  note L = create_lines_unscoped_Inr[OF loop, unfolded el]
  note U = update_invoice_total_Inr[OF upd]
  have lines: "select_lines nid d' = concat (map (expected_line cid nid d) (req_lines req))"
    using nol L U by (simp add: select_lines_def d1 filter_expected_lines)
  have inv2: "invoices d2 = invoices d @ [i]" using L by (simp add: d1)
  have tot: "map inv_total_amount (filter (\<lambda>i. inv_id i = nid) (invoices d')) = [t]"
    using fresh by (simp add: U inv2 i filter_map o_def filter_empty_conv)
  have "items d' = items d2" by (simp add: U)
  then show ?thesis using lines tot L by (simp add: d1)
qed

section \<open>Creating an invoice: total and stock\<close>

text \<open>
  Claim C1. In a store whose lines all belong to an invoice, every successful
  \<open>createInvoice\<close> (either controller) leaves exactly one line per requested entry, priced at
  the item's current catalog price with \<open>total_line_amount = price_at_purchase * quantity\<close>;
  the invoice's \<open>total_amount\<close> is the sum of its lines' \<open>total_line_amount\<close>; and every
  item row has lost exactly the units requested for it.
\<close>

theorem createInvoice_total_and_stock:
  assumes "lines_have_invoice d"
  shows "(createInvoice now new_id company_id req d = (d', Inr r) \<longrightarrow>
            select_lines new_id d' =
              concat (map (expected_line company_id new_id d) (req_lines req)) \<and>
            map inv_total_amount (filter (\<lambda>i. inv_id i = new_id) (invoices d')) =
              [sum_list (map ii_total_line_amount (select_lines new_id d'))] \<and>
            items d' = map (take_stock company_id (req_lines req)) (items d)) \<and>
         (createInvoice_unscoped now new_id company_id req d = (d', Inr r) \<longrightarrow>
            select_lines new_id d' =
              concat (map (expected_line company_id new_id d) (req_lines req)) \<and>
            map inv_total_amount (filter (\<lambda>i. inv_id i = new_id) (invoices d')) =
              [sum_list (map ii_total_line_amount (select_lines new_id d'))] \<and>
            items d' = map (take_stock_unscoped (req_lines req)) (items d))"
proof (intro conjI impI)
  assume "createInvoice now new_id company_id req d = (d', Inr r)"
  then have "createInvoice_tx now new_id company_id req d = Inr d'"
    by (simp add: createInvoice_def split: sum.splits)
  from createInvoice_tx_Inr[OF this assms]
  show "select_lines new_id d' =
              concat (map (expected_line company_id new_id d) (req_lines req))"
    and "map inv_total_amount (filter (\<lambda>i. inv_id i = new_id) (invoices d')) =
              [sum_list (map ii_total_line_amount (select_lines new_id d'))]"
    and "items d' = map (take_stock company_id (req_lines req)) (items d)"
    by simp_all
next
  assume "createInvoice_unscoped now new_id company_id req d = (d', Inr r)"
  then have "createInvoice_unscoped_tx now new_id company_id req d = Inr d'"
    by (simp add: createInvoice_unscoped_def split: sum.splits)
  from createInvoice_unscoped_tx_Inr[OF this assms]
  show "select_lines new_id d' =
              concat (map (expected_line company_id new_id d) (req_lines req))"
    and "map inv_total_amount (filter (\<lambda>i. inv_id i = new_id) (invoices d')) =
              [sum_list (map ii_total_line_amount (select_lines new_id d'))]"
    and "items d' = map (take_stock_unscoped (req_lines req)) (items d)"
    by simp_all
qed

lemma ex_create_scoped:
  "createInvoice 1 ''I'' ''C'' (ex_create ex_lines) ex_db = (ex_db1, Inr ''I'')"
  by code_simp

lemma ex_create_unscoped:
  "createInvoice_unscoped 1 ''I'' ''C'' (ex_create ex_lines) ex_db = (ex_db1, Inr ''I'')"
  by code_simp

theorem createInvoice_total_and_stock_witness:
  "lines_have_invoice ex_db \<and>
   createInvoice 1 ''I'' ''C'' (ex_create ex_lines) ex_db = (ex_db1, Inr ''I'') \<and>
   createInvoice_unscoped 1 ''I'' ''C'' (ex_create ex_lines) ex_db = (ex_db1, Inr ''I'') \<and>
   map inv_total_amount (filter (\<lambda>i. inv_id i = ''I'') (invoices ex_db1)) =
     [sum_list (map ii_total_line_amount (select_lines ''I'' ex_db1))] \<and>
   items ex_db1 = map (take_stock ''C'' ex_lines) (items ex_db) \<and>
   items ex_db1 = map (take_stock_unscoped ex_lines) (items ex_db)"
proof -
  have h: "lines_have_invoice ex_db" by (simp add: lines_have_invoice_def ex_db_def)
  have r: "req_lines (ex_create ex_lines) = ex_lines" by (simp add: req_lines_def ex_create_def)
  show ?thesis
    using createInvoice_total_and_stock[OF h, of 1 "''I''" "''C''" "ex_create ex_lines" ex_db1 "''I''",
        unfolded r]
      h ex_create_scoped ex_create_unscoped
    by blast
qed

section \<open>Creating an invoice without lines\<close>

lemma map_if_filter_empty:
  "filter w xs = [] \<Longrightarrow> map (\<lambda>x. if w x then f x else x) xs = xs"
  by (induction xs) (auto split: if_splits)



text \<open>
  What the store makes of the fields of the request decides whether the insertion goes
  through. An empty \<^verbatim>\<open>due_date\<close> is stored as \<^verbatim>\<open>NULL\<close> by the tenant-scoped controller
  (\<^verbatim>\<open>due_date || null\<close>) and refused by the store in the earlier one; a text that is no
  date, and an invoice number of more than 50 characters, are refused in both.
\<close>

lemma createInvoice_refused_fields:
  "createInvoice 1 ''I'' ''C'' ((ex_create [])\<lparr>c_due_date := Some EmptyText\<rparr>) ex_db
     = (ex_db_empty, Inr ''I'') \<and>
   createInvoice_unscoped 1 ''I'' ''C'' ((ex_create [])\<lparr>c_due_date := Some EmptyText\<rparr>) ex_db
     = (ex_db, Inl (DbError invalid_datetime_format)) \<and>
   createInvoice 1 ''I'' ''C'' ((ex_create [])\<lparr>c_due_date := Some Malformed\<rparr>) ex_db
     = (ex_db, Inl (DbError invalid_datetime_format)) \<and>
   createInvoice_unscoped 1 ''I'' ''C'' ((ex_create [])\<lparr>c_due_date := Some Malformed\<rparr>) ex_db
     = (ex_db, Inl (DbError invalid_datetime_format)) \<and>
   createInvoice 1 ''I'' ''C'' ((ex_create [])\<lparr>c_invoice_number := Some (replicate 51 CHR ''9'')\<rparr>) ex_db
     = (ex_db, Inl (DbError string_data_right_truncation)) \<and>
   createInvoice_unscoped 1 ''I'' ''C''
       ((ex_create [])\<lparr>c_invoice_number := Some (replicate 51 CHR ''9'')\<rparr>) ex_db
     = (ex_db, Inl (DbError string_data_right_truncation)) \<and>
   createInvoice 1 ''I'' ''C'' ((ex_create [])\<lparr>c_invoice_number := None\<rparr>) ex_db
     = (ex_db, Inl (DbError not_null_violation)) \<and>
   createInvoice_unscoped 1 ''I'' ''C'' ((ex_create [])\<lparr>c_party_id := Some Malformed\<rparr>) ex_db
     = (ex_db, Inl (DbError invalid_text_representation))"
  by code_simp



section \<open>Creating an invoice with a non-positive quantity\<close>

lemma create_lines_append:
  "create_lines cid nid (xs @ ys) st =
     (case create_lines cid nid xs st of Inl e \<Rightarrow> Inl e | Inr st' \<Rightarrow> create_lines cid nid ys st')"
  by (induction xs arbitrary: st) (auto split: sum.splits)

lemma create_lines_unscoped_append:
  "create_lines_unscoped cid nid (xs @ ys) st =
     (case create_lines_unscoped cid nid xs st of Inl e \<Rightarrow> Inl e
      | Inr st' \<Rightarrow> create_lines_unscoped cid nid ys st')"
  by (induction xs arbitrary: st) (auto split: sum.splits)

lemma create_line_nonpositive:
  "quantity l \<le> 0 \<Longrightarrow> create_line cid nid l st =
     Inl (if truthy (item_id l) then InvalidLineQuantity (item_id l) else ItemIdRequired)"
  by (auto simp: create_line_def split: prod.splits)

lemma create_line_unscoped_nonpositive:
  "quantity l \<le> 0 \<Longrightarrow> create_line_unscoped cid nid l st = Inl (InvalidLineQuantity (item_id l))"
  by (auto simp: create_line_unscoped_def split: prod.splits)

lemma create_lines_nonpositive:
  "quantity l \<le> 0 \<Longrightarrow> create_lines cid nid (pre @ l # post) st =
     (case create_lines cid nid pre st of Inl e \<Rightarrow> Inl e
      | Inr st' \<Rightarrow> Inl (if truthy (item_id l) then InvalidLineQuantity (item_id l) else ItemIdRequired))"
  by (simp add: create_lines_append create_line_nonpositive split: sum.splits)

lemma create_lines_unscoped_nonpositive:
  "quantity l \<le> 0 \<Longrightarrow> create_lines_unscoped cid nid (pre @ l # post) st =
     (case create_lines_unscoped cid nid pre st of Inl e \<Rightarrow> Inl e
      | Inr st' \<Rightarrow> Inl (InvalidLineQuantity (item_id l)))"
  by (simp add: create_lines_unscoped_append create_line_unscoped_nonpositive split: sum.splits)

lemma createInvoice_tx_nonpositive:
  assumes items: "c_items req = Some (pre @ l # post)" and q: "quantity l \<le> 0"
  shows "\<exists>e. createInvoice_tx now nid cid req d = Inl e \<and>
           ((\<exists>d1. createInvoice_tx now nid cid (req\<lparr>c_items := Some pre\<rparr>) d = Inr d1) \<longrightarrow>
            e = (if truthy (item_id l) then InvalidLineQuantity (item_id l) else ItemIdRequired))"
  using items
  by (auto simp: createInvoice_tx_def create_lines_nonpositive[OF q]
      split: sum.splits option.splits)

lemma createInvoice_unscoped_tx_nonpositive:
  assumes items: "c_items req = Some (pre @ l # post)" and q: "quantity l \<le> 0"
  shows "\<exists>e. createInvoice_unscoped_tx now nid cid req d = Inl e \<and>
           ((\<exists>d1. createInvoice_unscoped_tx now nid cid (req\<lparr>c_items := Some pre\<rparr>) d = Inr d1) \<longrightarrow>
            e = InvalidLineQuantity (item_id l))"
  using items
  by (auto simp: createInvoice_unscoped_tx_def create_lines_unscoped_nonpositive[OF q]
      split: sum.splits option.splits)

text \<open>
  Claim C6. Every \<open>createInvoice\<close> call with a line whose quantity is zero or negative
  fails, and the store after the call is the store before it: no invoice row, no line and no
  stock change survive. The error is a validation error of that line whenever the request cut
  off before that line is one the controller accepts, that is, whenever no earlier check of
  the handler fails first: the quantity validation error, except that the tenant-scoped
  controller, which tests \<^verbatim>\<open>!item_id\<close> before the quantity, answers with the
  \<open>item_id\<close> validation error when the line's \<open>item_id\<close> is missing or empty.
\<close>

theorem createInvoice_nonpositive_quantity:
  assumes items: "c_items req = Some (pre @ l # post)" and q: "quantity l \<le> 0"
  shows "(\<exists>e. createInvoice now new_id company_id req d = (d, Inl e) \<and>
            ((\<exists>d1. createInvoice now new_id company_id (req\<lparr>c_items := Some pre\<rparr>) d
                     = (d1, Inr new_id)) \<longrightarrow>
             e = (if truthy (item_id l) then InvalidLineQuantity (item_id l) else ItemIdRequired))) \<and>
         (\<exists>e. createInvoice_unscoped now new_id company_id req d = (d, Inl e) \<and>
            ((\<exists>d1. createInvoice_unscoped now new_id company_id (req\<lparr>c_items := Some pre\<rparr>) d
                     = (d1, Inr new_id)) \<longrightarrow>
             e = InvalidLineQuantity (item_id l)))"
proof (rule conjI)
  show "\<exists>e. createInvoice now new_id company_id req d = (d, Inl e) \<and>
            ((\<exists>d1. createInvoice now new_id company_id (req\<lparr>c_items := Some pre\<rparr>) d
                     = (d1, Inr new_id)) \<longrightarrow>
             e = (if truthy (item_id l) then InvalidLineQuantity (item_id l) else ItemIdRequired))"
    using createInvoice_tx_nonpositive[OF items q, of now new_id company_id d]
    by (auto simp: createInvoice_def split: sum.splits)
next
  show "\<exists>e. createInvoice_unscoped now new_id company_id req d = (d, Inl e) \<and>
            ((\<exists>d1. createInvoice_unscoped now new_id company_id (req\<lparr>c_items := Some pre\<rparr>) d
                     = (d1, Inr new_id)) \<longrightarrow>
             e = InvalidLineQuantity (item_id l))"
    using createInvoice_unscoped_tx_nonpositive[OF items q, of now new_id company_id d]
    by (auto simp: createInvoice_unscoped_def split: sum.splits)
qed

theorem createInvoice_nonpositive_quantity_witness:
  "createInvoice 1 ''I'' ''C'' (ex_create ex_bad_lines) ex_db
     = (ex_db, Inl (InvalidLineQuantity (Some (Standard ''B'')))) \<and>
   createInvoice_unscoped 1 ''I'' ''C'' (ex_create ex_bad_lines) ex_db
     = (ex_db, Inl (InvalidLineQuantity (Some (Standard ''B''))))"
proof -
  let ?l = "\<lparr>item_id = Some (Standard ''B''), quantity = 0\<rparr>"
  let ?pre = "[\<lparr>item_id = Some (Standard ''A''), quantity = 4\<rparr>]"
  have h1: "c_items (ex_create ex_bad_lines) = Some (?pre @ ?l # [])"
    by (simp add: ex_create_def ex_bad_lines_def)
  have h2: "quantity ?l \<le> 0" by simp
  have p: "(ex_create ex_bad_lines)\<lparr>c_items := Some ?pre\<rparr> = ex_create ?pre"
    by (simp add: ex_create_def)
  have "snd (createInvoice 1 ''I'' ''C'' (ex_create ?pre) ex_db) = Inr ''I''"
    by code_simp
  then have h3: "\<exists>d1. createInvoice 1 ''I'' ''C'' (ex_create ?pre) ex_db = (d1, Inr ''I'')"
    by (metis prod.collapse)
  have "snd (createInvoice_unscoped 1 ''I'' ''C'' (ex_create ?pre) ex_db) = Inr ''I''"
    by code_simp
  then have h4: "\<exists>d1. createInvoice_unscoped 1 ''I'' ''C'' (ex_create ?pre) ex_db = (d1, Inr ''I'')"
    by (metis prod.collapse)
  show ?thesis
    using createInvoice_nonpositive_quantity[OF h1 h2, of 1 "''I''" "''C''" ex_db, unfolded p] h3 h4
    by (auto simp: truthy_def)
qed

text \<open>
  A line with quantity \<open>0\<close> whose \<open>item_id\<close> is the empty string or missing: the
  tenant-scoped controller answers with the \<open>item_id\<close> validation error, the earlier one
  with the quantity validation error.
\<close>

lemma createInvoice_nonpositive_quantity_falsy_item_id:
  "createInvoice 1 ''I'' ''C'' (ex_create [\<lparr>item_id = Some EmptyText, quantity = 0\<rparr>]) ex_db
     = (ex_db, Inl ItemIdRequired) \<and>
   createInvoice_unscoped 1 ''I'' ''C'' (ex_create [\<lparr>item_id = Some EmptyText, quantity = 0\<rparr>]) ex_db
     = (ex_db, Inl (InvalidLineQuantity (Some EmptyText))) \<and>
   createInvoice 1 ''I'' ''C'' (ex_create [\<lparr>item_id = None, quantity = 0\<rparr>]) ex_db
     = (ex_db, Inl ItemIdRequired) \<and>
   createInvoice_unscoped 1 ''I'' ''C'' (ex_create [\<lparr>item_id = None, quantity = 0\<rparr>]) ex_db
     = (ex_db, Inl (InvalidLineQuantity None))"
  by code_simp

section \<open>The party of a new invoice\<close>

text \<open>The tenant-scoped controller checks the party first.\<close>

lemma createInvoice_party_not_found:
  "uuid_param (c_party_id req) = Inr p \<Longrightarrow> select_party p company_id d = [] \<Longrightarrow>
     createInvoice now new_id company_id req d = (d, Inl PartyNotFound)"
  by (simp add: createInvoice_def createInvoice_tx_def)

text \<open>
  Claim C7. Company \<open>C\<close> asks the earlier controller for an invoice on party \<open>Q\<close>, which
  belongs to company \<open>D\<close>: the invoice is committed with \<open>Q\<close> attached and stock is taken,
  where the tenant-scoped controller answers \<open>PartyNotFound\<close> and leaves the store alone.
\<close>

theorem createInvoice_unscoped_attaches_foreign_party:
  "c_party_id ex_foreign_party = Some (Standard ''Q'') \<and>
   select_party (Some ''Q'') ''C'' ex_db = [] \<and>
   createInvoice_unscoped 1 ''I'' ''C'' ex_foreign_party ex_db = (ex_db1_foreign, Inr ''I'') \<and>
   map inv_party_id (select_invoice ''I'' ''C'' ex_db1_foreign) = [''Q''] \<and>
   map p_company_id (filter (\<lambda>p. p_id p = ''Q'') (parties ex_db1_foreign)) = [''D''] \<and>
   createInvoice 1 ''I'' ''C'' ex_foreign_party ex_db = (ex_db, Inl PartyNotFound)"
  by code_simp

section \<open>Deleting an invoice\<close>

lemma return_stock_Inr:
  "return_stock cid ls d = Inr d' \<Longrightarrow>
     items d' = map (give_back cid ls) (items d) \<and> parties d' = parties d \<and>
     invoices d' = invoices d \<and> invoice_items d' = invoice_items d"
proof (induction ls arbitrary: d)
  case Nil
  then show ?case by (simp add: give_back_def map_idI)
next
  case (Cons l ls)
  then obtain d1 where
    u: "update_items_quantity (\<lambda>x. it_id x = ii_item_id l \<and> it_company_id x = cid)
          (\<lambda>q. q + ii_quantity l) d = Inr d1"
    and r: "return_stock cid ls d1 = Inr d'"
    by (auto split: sum.splits)
  note U = update_items_quantity_Inr[OF u]
  from Cons.IH[OF r] show ?case
    by (auto simp: U give_back_def)
qed

lemma deleteInvoice_returns_stock:
  assumes "deleteInvoice id_text company_id d = (d', Inr r)" "read_text id_text = Some invoice_id"
  shows "items d' = map (give_back company_id (select_lines invoice_id d)) (items d) \<and>
         select_lines invoice_id d' = [] \<and> select_invoice invoice_id company_id d' = []"
proof -
  from assms obtain d1 where
    ex: "select_invoice invoice_id company_id d \<noteq> []"
    and rs: "return_stock company_id (select_lines invoice_id d) d = Inr d1"
    and d': "d' = delete_invoices (\<lambda>i. inv_id i = invoice_id \<and> inv_company_id i = company_id)
                    (delete_lines_using invoice_id company_id d1)"
    by (auto simp: deleteInvoice_def deleteInvoice_tx_def split: sum.splits if_splits)
  note R = return_stock_Inr[OF rs]
  have s1: "select_invoice invoice_id company_id d1 \<noteq> []"
    using ex R by (simp add: select_invoice_def)
  show ?thesis
    using s1 R
    by (auto simp: d' delete_invoices_def delete_lines_using_def select_lines_def
        select_invoice_def filter_empty_conv)
qed

text \<open>
  Claim C3. An invoice for 4 units of \<open>A\<close> and 1 unit of \<open>B\<close> is created and then deleted
  through the earlier controller: the lines and the invoice row go, and the stock stays at
  6 and 2 instead of returning to 10 and 3. The tenant-scoped controller returns it.
\<close>

theorem deleteInvoice_unscoped_returns_no_stock:
  "createInvoice_unscoped 1 ''I'' ''C'' (ex_create ex_lines) ex_db = (ex_db1, Inr ''I'') \<and>
   deleteInvoice_unscoped (Standard ''I'') ''C'' ex_db1 = (ex_db1_deleted, Inr ()) \<and>
   map it_quantity (items ex_db) = [10, 3] \<and>
   map it_quantity (items ex_db1_deleted) = [6, 2] \<and>
   deleteInvoice (Standard ''I'') ''C'' ex_db1 = (ex_db, Inr ())"
  by code_simp

text \<open>
  The scenario of the specification on the tenant-scoped controller: after the invoice for
  4 units of \<open>A\<close> and 1 of \<open>B\<close> is replaced by one for 2 units of \<open>A\<close> and then
  deleted, the store is the one before the invoice existed.
\<close>

lemma create_update_delete_scenario:
  "createInvoice 1 ''I'' ''C'' (ex_create ex_lines) ex_db = (ex_db1, Inr ''I'') \<and>
   updateInvoice 2 (Standard ''I'') ''C'' (ex_update ex_replaced) ex_db1 = (ex_db2, Inr ()) \<and>
   deleteInvoice (Standard ''I'') ''C'' ex_db2 = (ex_db, Inr ())"
  by code_simp

section \<open>Changing the status of an invoice\<close>

text \<open>
  Claim C9, as stated, fails. Every application sets \<open>updated_at\<close> to its own time: after
  a second call with the same status, one time unit later, the invoice row and the row in the
  response carry the time of the second call, so the state that the read endpoints and
  \<^verbatim>\<open>RETURNING *\<close> show is not the state after the first call.
\<close>

theorem updateInvoiceStatus_twice_differs:
  "updateInvoiceStatus 2 (Standard ''I'') ''C'' ''paid'' ex_db1
     = (ex_db1_paid 2,
        Inr \<lparr>inv_id = ''I'', inv_company_id = ''C'', inv_party_id = ''P'',
             inv_invoice_number = ''INV-1'', inv_due_date = None, inv_total_amount = 650,
             inv_status = paid, inv_updated_at = 2\<rparr>) \<and>
   updateInvoiceStatus 3 (Standard ''I'') ''C'' ''paid'' (ex_db1_paid 2)
     = (ex_db1_paid 3,
        Inr \<lparr>inv_id = ''I'', inv_company_id = ''C'', inv_party_id = ''P'',
             inv_invoice_number = ''INV-1'', inv_due_date = None, inv_total_amount = 650,
             inv_status = paid, inv_updated_at = 3\<rparr>) \<and>
   map inv_updated_at (select_invoice ''I'' ''C'' (ex_db1_paid 2)) = [2] \<and>
   map inv_updated_at (select_invoice ''I'' ''C'' (ex_db1_paid 3)) = [3] \<and>
   ex_db1_paid 3 \<noteq> ex_db1_paid 2"
  by code_simp

lemma status_row_twice: "status_row iid cid st t2 (status_row iid cid st t1 i) = status_row iid cid st t2 i"
  by (simp add: status_row_def)

lemma status_row_without_updated_at:
  "(status_row iid cid st t2 i)\<lparr>inv_updated_at := 0\<rparr> = (status_row iid cid st t1 i)\<lparr>inv_updated_at := 0\<rparr>"
  by (simp add: status_row_def)

lemma updateInvoiceStatus_eq:
  "cast_invoice_status status = Some st \<Longrightarrow> status \<in> set validStatuses \<Longrightarrow>
   read_text id_text = Some iid \<Longrightarrow>
   updateInvoiceStatus now id_text cid status d =
     (d\<lparr>invoices := map (status_row iid cid st now) (invoices d)\<rparr>,
      case select_invoice iid cid (d\<lparr>invoices := map (status_row iid cid st now) (invoices d)\<rparr>) of
        [] \<Rightarrow> Inl InvoiceNotFound | row # _ \<Rightarrow> Inr row)"
  unfolding status_row_def
  by (simp add: updateInvoiceStatus_def Let_def split: list.splits)

lemma updateInvoiceStatus_refused:
  "read_text id_text = None \<Longrightarrow> status \<in> set validStatuses \<Longrightarrow>
   updateInvoiceStatus now id_text cid status d = (d, Inl (DbError invalid_text_representation))"
  by (auto simp: updateInvoiceStatus_def validStatuses_def cast_invoice_status_def)

lemma valid_status_cast:
  "status \<in> set validStatuses \<Longrightarrow> \<exists>st. cast_invoice_status status = Some st"
  by (auto simp: validStatuses_def cast_invoice_status_def)

text \<open>
  Claim C9, amended. For every valid status, a second \<open>updateInvoiceStatus\<close> with the
  same status leaves the store as the first call left it except for \<open>updated_at\<close>, which
  carries the time of the latest call: the store and the response after the two calls are
  those of a single call made at the time of the second, and with \<open>updated_at\<close> left out
  the store after the second call is the store after the first. No application changes an
  item row or an invoice line.
\<close>

theorem updateInvoiceStatus_idempotent_up_to_updated_at:
  assumes "status \<in> set validStatuses"
  shows "updateInvoiceStatus t2 id_text company_id status
           (fst (updateInvoiceStatus t1 id_text company_id status d))
         = updateInvoiceStatus t2 id_text company_id status d \<and>
         without_updated_at (fst (updateInvoiceStatus t2 id_text company_id status
           (fst (updateInvoiceStatus t1 id_text company_id status d))))
         = without_updated_at (fst (updateInvoiceStatus t1 id_text company_id status d)) \<and>
         items (fst (updateInvoiceStatus t1 id_text company_id status d)) = items d \<and>
         invoice_items (fst (updateInvoiceStatus t1 id_text company_id status d)) = invoice_items d"
proof (cases "read_text id_text")
  case None
  note R = updateInvoiceStatus_refused[OF None assms]
  show ?thesis by (simp add: R)
next
  case (Some iid)
  from valid_status_cast[OF assms] obtain st where c: "cast_invoice_status status = Some st" ..
  note E = updateInvoiceStatus_eq[OF c assms Some]
  have a: "updateInvoiceStatus t2 id_text company_id status
           (fst (updateInvoiceStatus t1 id_text company_id status d))
         = updateInvoiceStatus t2 id_text company_id status d"
    by (simp add: E o_def status_row_twice)
  have b: "without_updated_at (fst (updateInvoiceStatus t2 id_text company_id status
           (fst (updateInvoiceStatus t1 id_text company_id status d))))
         = without_updated_at (fst (updateInvoiceStatus t1 id_text company_id status d))"
    by (simp add: E without_updated_at_def o_def status_row_twice
        status_row_without_updated_at[of _ _ _ t2 _ t1])
  show ?thesis using a b by (simp add: E)
qed

theorem updateInvoiceStatus_idempotent_up_to_updated_at_witness:
  "''paid'' \<in> set validStatuses \<and>
   updateInvoiceStatus 3 (Standard ''I'') ''C'' ''paid''
       (fst (updateInvoiceStatus 2 (Standard ''I'') ''C'' ''paid'' ex_db1))
     = updateInvoiceStatus 3 (Standard ''I'') ''C'' ''paid'' ex_db1 \<and>
   without_updated_at (fst (updateInvoiceStatus 3 (Standard ''I'') ''C'' ''paid''
       (fst (updateInvoiceStatus 2 (Standard ''I'') ''C'' ''paid'' ex_db1))))
     = without_updated_at (fst (updateInvoiceStatus 2 (Standard ''I'') ''C'' ''paid'' ex_db1)) \<and>
   items (fst (updateInvoiceStatus 2 (Standard ''I'') ''C'' ''paid'' ex_db1)) = items ex_db1"
proof -
  have h: "''paid'' \<in> set validStatuses" by (simp add: validStatuses_def)
  show ?thesis
    using updateInvoiceStatus_idempotent_up_to_updated_at[OF h, of 3 "Standard ''I''" "''C''" 2 ex_db1] h
    by blast
qed

section \<open>What the loops of updateInvoice do when they succeed\<close>

lemma key_of_item_of: "key_of l = Some k \<Longrightarrow> item_of l = Some k"
  by (auto simp: key_of_def Map_key_def item_of_def read_text_def split: option.splits pg_text.splits)

lemma key_of_cases: "item_of l = Some iid \<Longrightarrow> key_of l = Some iid \<or> key_of l = None"
  by (auto simp: key_of_def Map_key_def item_of_def read_text_def split: option.splits pg_text.splits)

lemma Map_has_key: "Map_has m (item_id l) = (case key_of l of None \<Rightarrow> False | Some k \<Rightarrow> map_of m k \<noteq> None)"
  by (simp add: Map_has_def key_of_def)

lemma held_for_key: "held_for m l = (case key_of l of None \<Rightarrow> 0 | Some k \<Rightarrow> held m k)"
  by (simp add: held_for_def Map_get_def key_of_def held_def split: option.splits)

lemma Map_delete_key:
  "Map_delete (item_id l) m = (case key_of l of None \<Rightarrow> m | Some k \<Rightarrow> AList.delete k m)"
  by (simp add: Map_delete_def key_of_def)

lemma update_invoice_item_Inr:
  "update_invoice_item iid (Some itm) q p t d = Inr d' \<Longrightarrow>
     d' = d\<lparr>invoice_items :=
             map (\<lambda>l. if ii_invoice_id l = iid \<and> ii_item_id l = itm
                       then \<lparr>ii_invoice_id = iid, ii_item_id = itm, ii_quantity = q,
                             ii_price_at_purchase = p, ii_total_line_amount = t\<rparr>
                       else l) (invoice_items d)\<rparr>"
proof -
  have e: "(\<lambda>l. if ii_invoice_id l = iid \<and> ii_item_id l = itm
                       then l\<lparr>ii_quantity := q, ii_price_at_purchase := p,
                              ii_total_line_amount := t\<rparr>
                       else l) = (\<lambda>l. if ii_invoice_id l = iid \<and> ii_item_id l = itm
                       then \<lparr>ii_invoice_id = iid, ii_item_id = itm, ii_quantity = q,
                             ii_price_at_purchase = p, ii_total_line_amount = t\<rparr>
                       else l)"
    by (rule ext) auto
  assume "update_invoice_item iid (Some itm) q p t d = Inr d'"
  then show ?thesis
    by (auto simp: update_invoice_item_def e split: if_splits)
qed

lemma update_line_Inr:
  assumes "update_line cid iv l (d, m, t) = Inr (d', m', t')"
  shows "\<exists>iid r rs e. item_of l = Some iid \<and> 0 < quantity l \<and>
           select_item (Some iid) cid d = r # rs \<and> expected_line cid iv d l = [e] \<and>
           (0 < quantity l - held_for m l \<longrightarrow> quantity l - held_for m l \<le> it_quantity r) \<and>
           t' = t + ii_total_line_amount e \<and> m' = Map_delete (item_id l) m \<and>
           invoice_items d' =
             (if Map_has m (item_id l)
              then map (\<lambda>x. if ii_invoice_id x = iv \<and> ii_item_id x = iid then e else x)
                     (invoice_items d)
              else invoice_items d @ [e]) \<and>
           items d' = map (adjust_stock cid iid (quantity l - held_for m l)) (items d) \<and>
           parties d' = parties d \<and> invoices d' = invoices d"
proof -
  from assms obtain v r rs where v: "uuid_param (item_id l) = Inr v"
    and sel: "select_item v cid d = r # rs" and q: "0 < quantity l"
    by (auto simp: update_line_def Let_def split: if_splits sum.splits list.splits)
  from select_item_Cons_Some[OF sel] uuid_param_item[OF v]
  have idr: "v = Some (it_id r)" "item_of l = Some (it_id r)" by simp_all
  have e: "expected_line cid iv d l =
     [\<lparr>ii_invoice_id = iv, ii_item_id = it_id r, ii_quantity = quantity l,
       ii_price_at_purchase = it_price r, ii_total_line_amount = it_price r * quantity l\<rparr>]"
    using sel idr by (simp add: expected_line_def catalog_price_def)
  have af: "adjust_stock cid (it_id r) n = (\<lambda>x. if it_id x = it_id r \<and> it_company_id x = cid
       then x\<lparr>it_quantity := it_quantity x - n\<rparr> else x)" for n
    by (rule ext) (simp add: adjust_stock_def)
  show ?thesis
    using assms sel[unfolded idr] q
    apply (simp add: update_line_def Let_def v idr e af held_for_def[symmetric]
        split: if_splits sum.splits)
     apply (auto dest!: insert_invoice_item_Inr update_invoice_item_Inr update_items_quantity_Inr)
    done
qed

lemma filter_map_if_const:
  assumes "P e"
  shows "filter P (map (\<lambda>x. if P x \<and> Q x then e else x) xs) =
         map (\<lambda>x. if Q x then e else x) (filter P xs)"
  using assms by (induction xs) auto

lemma filter_not_map_if_const:
  assumes "P e"
  shows "filter (\<lambda>x. \<not> P x) (map (\<lambda>x. if P x \<and> Q x then e else x) xs) = filter (\<lambda>x. \<not> P x) xs"
  using assms by (induction xs) auto

lemma expected_line_single:
  "expected_line cid iv d l = [e] \<Longrightarrow> item_of l = Some iid \<Longrightarrow>
     ii_invoice_id e = iv \<and> ii_item_id e = iid \<and> ii_quantity e = quantity l"
  by (auto simp: expected_line_def)

lemma update_line_lines:
  assumes "update_line cid iv l (d, m, t) = Inr (d', m', t')"
  shows "\<exists>iid e. item_of l = Some iid \<and> expected_line cid iv d l = [e] \<and>
           m' = Map_delete (item_id l) m \<and> t' = t + ii_total_line_amount e \<and>
           select_lines iv d' =
             (if Map_has m (item_id l)
              then map (\<lambda>x. if ii_item_id x = iid then e else x) (select_lines iv d)
              else select_lines iv d @ [e]) \<and>
           filter (\<lambda>x. ii_invoice_id x \<noteq> iv) (invoice_items d') =
             filter (\<lambda>x. ii_invoice_id x \<noteq> iv) (invoice_items d) \<and>
           items d' = map (adjust_stock cid iid (quantity l - held_for m l)) (items d) \<and>
           parties d' = parties d \<and> invoices d' = invoices d"
proof -
  from update_line_Inr[OF assms] obtain iid r rs e where
    f: "item_of l = Some iid" "expected_line cid iv d l = [e]"
       "t' = t + ii_total_line_amount e" "m' = Map_delete (item_id l) m"
       "invoice_items d' =
             (if Map_has m (item_id l)
              then map (\<lambda>x. if ii_invoice_id x = iv \<and> ii_item_id x = iid then e else x)
                     (invoice_items d)
              else invoice_items d @ [e])"
       "items d' = map (adjust_stock cid iid (quantity l - held_for m l)) (items d)"
       "parties d' = parties d" "invoices d' = invoices d"
    by blast
  from expected_line_single[OF f(2) f(1)] have e: "ii_invoice_id e = iv" "ii_item_id e = iid"
    by simp_all
  have 1: "select_lines iv d' =
             (if Map_has m (item_id l)
              then map (\<lambda>x. if ii_item_id x = iid then e else x) (select_lines iv d)
              else select_lines iv d @ [e])"
    unfolding select_lines_def f(5)
    using filter_map_if_const[where P = "\<lambda>x. ii_invoice_id x = iv" and Q = "\<lambda>x. ii_item_id x = iid"
        and e = e and xs = "invoice_items d"] e
    by simp
  have 2: "filter (\<lambda>x. ii_invoice_id x \<noteq> iv) (invoice_items d') =
             filter (\<lambda>x. ii_invoice_id x \<noteq> iv) (invoice_items d)"
    unfolding f(5)
    using filter_not_map_if_const[where P = "\<lambda>x. ii_invoice_id x = iv" and Q = "\<lambda>x. ii_item_id x = iid"
        and e = e and xs = "invoice_items d"] e
    by simp
  show ?thesis using f 1 2 by blast
qed

text \<open>The same step seen through the key of \<^verbatim>\<open>existingMap\<close> that the entry is equal to,
  if any: an entry in another spelling finds no key, is inserted as a new line and leaves
  the map as it is.\<close>

lemma update_line_keyed:
  assumes "update_line cid iv l (d, m, t) = Inr (d', m', t')"
  shows "\<exists>iid e. item_of l = Some iid \<and> expected_line cid iv d l = [e] \<and>
           t' = t + ii_total_line_amount e \<and>
           filter (\<lambda>x. ii_invoice_id x \<noteq> iv) (invoice_items d') =
             filter (\<lambda>x. ii_invoice_id x \<noteq> iv) (invoice_items d) \<and>
           parties d' = parties d \<and> invoices d' = invoices d \<and>
           ((key_of l = Some iid \<and> m' = AList.delete iid m \<and>
             select_lines iv d' =
               (if map_of m iid \<noteq> None
                then map (\<lambda>x. if ii_item_id x = iid then e else x) (select_lines iv d)
                else select_lines iv d @ [e]) \<and>
             items d' = map (adjust_stock cid iid (quantity l - held m iid)) (items d)) \<or>
            (key_of l = None \<and> m' = m \<and> select_lines iv d' = select_lines iv d @ [e] \<and>
             items d' = map (adjust_stock cid iid (quantity l)) (items d)))"
proof -
  from update_line_lines[OF assms] obtain iid e where
    f: "item_of l = Some iid" "expected_line cid iv d l = [e]"
       "m' = Map_delete (item_id l) m" "t' = t + ii_total_line_amount e"
       "select_lines iv d' =
             (if Map_has m (item_id l)
              then map (\<lambda>x. if ii_item_id x = iid then e else x) (select_lines iv d)
              else select_lines iv d @ [e])"
       "filter (\<lambda>x. ii_invoice_id x \<noteq> iv) (invoice_items d') =
             filter (\<lambda>x. ii_invoice_id x \<noteq> iv) (invoice_items d)"
       "items d' = map (adjust_stock cid iid (quantity l - held_for m l)) (items d)"
       "parties d' = parties d" "invoices d' = invoices d"
    by blast
  from key_of_cases[OF f(1)] show ?thesis
  proof
    assume k: "key_of l = Some iid"
    show ?thesis
      using f k by (simp add: Map_has_key held_for_key Map_delete_key)
  next
    assume k: "key_of l = None"
    show ?thesis
      using f k by (simp add: Map_has_key held_for_key Map_delete_key)
  qed
qed

lemma adjust_stock_fields [simp]:
  "it_id (adjust_stock c i n r) = it_id r"
  "it_company_id (adjust_stock c i n r) = it_company_id r"
  "it_price (adjust_stock c i n r) = it_price r"
  by (simp_all add: adjust_stock_def)

lemma expected_line_cong:
  "catalog_price cid d' = catalog_price cid d \<Longrightarrow> expected_line cid iv d' = expected_line cid iv d"
  by (rule ext) (simp add: expected_line_def split: option.splits)

lemma mset_map_if_one:
  assumes "length (filter Q xs) = 1"
  shows "mset (map (\<lambda>x. if Q x then e else x) xs) = filter_mset (\<lambda>x. \<not> Q x) (mset xs) + {#e#}"
  using assms
proof (induction xs)
  case Nil then show ?case by simp
next
  case (Cons x xs)
  show ?case
  proof (cases "Q x")
    case True
    with Cons.prems have "filter Q xs = []" by simp
    then have "map (\<lambda>x. if Q x then e else x) xs = xs" "filter (\<lambda>x. \<not> Q x) xs = xs"
      by (auto simp: filter_empty_conv filter_id_conv intro: map_idI)
    then have "map (\<lambda>x. if Q x then e else x) xs = xs" "filter_mset (\<lambda>x. \<not> Q x) (mset xs) = mset xs"
      by (simp_all flip: mset_filter)
    with True show ?thesis by simp
  next
    case False
    with Cons show ?thesis by simp
  qed
qed

lemma filter_other_map_if:
  "k \<noteq> iid \<Longrightarrow> ii_item_id e = iid \<Longrightarrow>
     filter (\<lambda>x. ii_item_id x = k) (map (\<lambda>x. if ii_item_id x = iid then e else x) xs) =
     filter (\<lambda>x. ii_item_id x = k) xs"
  by (induction xs) auto

lemma update_lines_Inr:
  assumes "update_lines cid iv ls (d, m, t) = Inr (d', m', t')"
    and "one_line_each m (select_lines iv d)"
    and "list_all (\<lambda>l. key_of l = item_of l) ls"
  shows "mset (select_lines iv d') =
           filter_mset (\<lambda>x. ii_item_id x \<notin> fst ` set m \<or> Some (ii_item_id x) \<notin> key_of ` set ls)
             (mset (select_lines iv d)) +
           mset (concat (map (expected_line cid iv d) ls)) \<and>
         m' = filter (\<lambda>kv. Some (fst kv) \<notin> key_of ` set ls) m \<and>
         t' = t + sum_list (map ii_total_line_amount (concat (map (expected_line cid iv d) ls))) \<and>
         filter (\<lambda>x. ii_invoice_id x \<noteq> iv) (invoice_items d') =
           filter (\<lambda>x. ii_invoice_id x \<noteq> iv) (invoice_items d) \<and>
         catalog_price cid d' = catalog_price cid d \<and>
         parties d' = parties d \<and> invoices d' = invoices d"
  using assms
proof (induction ls arbitrary: d m t)
  case Nil
  then show ?case by (auto intro: filter_mset_cong simp: filter_id_conv)
next
  case (Cons l ls)
  from Cons.prems(1) obtain d1 m1 t1 where
    s1: "update_line cid iv l (d, m, t) = Inr (d1, m1, t1)"
    and s2: "update_lines cid iv ls (d1, m1, t1) = Inr (d', m', t')"
    by (auto split: sum.splits)
  from Cons.prems(3) have std: "key_of l = item_of l" "list_all (\<lambda>l. key_of l = item_of l) ls"
    by simp_all
  from update_line_keyed[OF s1] std(1) obtain iid e where
    f: "item_of l = Some iid" "expected_line cid iv d l = [e]"
       "m1 = AList.delete iid m" "t1 = t + ii_total_line_amount e"
       "select_lines iv d1 =
             (if map_of m iid \<noteq> None
              then map (\<lambda>x. if ii_item_id x = iid then e else x) (select_lines iv d)
              else select_lines iv d @ [e])"
       "filter (\<lambda>x. ii_invoice_id x \<noteq> iv) (invoice_items d1) =
             filter (\<lambda>x. ii_invoice_id x \<noteq> iv) (invoice_items d)"
       "items d1 = map (adjust_stock cid iid (quantity l - held m iid)) (items d)"
       "parties d1 = parties d" "invoices d1 = invoices d"
    and k: "key_of l = Some iid"
    by auto
  from expected_line_single[OF f(2) f(1)] have e: "ii_invoice_id e = iv" "ii_item_id e = iid"
    by simp_all
  have keys1: "fst ` set m1 = fst ` set m - {iid}"
    by (auto simp: f(3) AList.delete_eq)
  have has: "map_of m iid = None \<longleftrightarrow> iid \<notin> fst ` set m"
    by (simp add: map_of_eq_None_iff)
  have cp: "catalog_price cid d1 = catalog_price cid d"
    by (rule catalog_price_map[where g = "adjust_stock cid iid (quantity l - held m iid)"])
       (simp_all add: f(7))
  note el = expected_line_cong[OF cp]
  have L1: "mset (select_lines iv d1) =
      filter_mset (\<lambda>x. ii_item_id x \<noteq> iid \<or> iid \<notin> fst ` set m) (mset (select_lines iv d)) + {#e#}"
  proof (cases "iid \<in> fst ` set m")
    case True
    with Cons.prems(2) have "length (filter (\<lambda>x. ii_item_id x = iid) (select_lines iv d)) = 1"
      unfolding one_line_each_def by blast
    from mset_map_if_one[OF this] True show ?thesis
      by (simp add: f(5) has)
  next
    case False
    then show ?thesis by (simp add: f(5) has)
  qed
  have H1: "one_line_each m1 (select_lines iv d1)"
    unfolding one_line_each_def
  proof
    fix k assume k: "k \<in> fst ` set m1"
    then have kk: "k \<in> fst ` set m" "k \<noteq> iid" by (auto simp: keys1)
    have "filter (\<lambda>x. ii_item_id x = k) (select_lines iv d1) =
          filter (\<lambda>x. ii_item_id x = k) (select_lines iv d)"
      using kk e by (simp add: f(5) filter_other_map_if)
    then show "length (filter (\<lambda>x. ii_item_id x = k) (select_lines iv d1)) = 1"
      using Cons.prems(2) kk unfolding one_line_each_def by auto
  qed
  note IH = Cons.IH[OF s2 H1 std(2), unfolded el cp]
  have M: "m' = filter (\<lambda>kv. Some (fst kv) \<notin> key_of ` set (l # ls)) m"
    using IH k by (auto simp: f(3) AList.delete_eq intro!: filter_cong)
  have Lm: "mset (select_lines iv d') =
           filter_mset (\<lambda>x. ii_item_id x \<notin> fst ` set m \<or> Some (ii_item_id x) \<notin> key_of ` set (l # ls))
             (mset (select_lines iv d)) +
           mset (concat (map (expected_line cid iv d) (l # ls)))"
  proof -
    have "mset (select_lines iv d') =
       filter_mset (\<lambda>x. ii_item_id x \<notin> fst ` set m1 \<or> Some (ii_item_id x) \<notin> key_of ` set ls)
         (mset (select_lines iv d1)) + mset (concat (map (expected_line cid iv d) ls))"
      using IH by simp
    also have "filter_mset (\<lambda>x. ii_item_id x \<notin> fst ` set m1 \<or> Some (ii_item_id x) \<notin> key_of ` set ls)
         (mset (select_lines iv d1)) =
       filter_mset (\<lambda>x. ii_item_id x \<notin> fst ` set m \<or> Some (ii_item_id x) \<notin> key_of ` set (l # ls))
             (mset (select_lines iv d)) + {#e#}"
    proof -
      have Qe: "ii_item_id e \<notin> fst ` set m1" using e by (simp add: keys1)
      have "filter_mset (\<lambda>x. ii_item_id x \<notin> fst ` set m1 \<or> Some (ii_item_id x) \<notin> key_of ` set ls)
              (filter_mset (\<lambda>x. ii_item_id x \<noteq> iid \<or> iid \<notin> fst ` set m) (mset (select_lines iv d))) =
            filter_mset (\<lambda>x. ii_item_id x \<notin> fst ` set m \<or> Some (ii_item_id x) \<notin> key_of ` set (l # ls))
              (mset (select_lines iv d))"
        unfolding filter_filter_mset
        by (rule filter_mset_cong[OF refl]) (auto simp: keys1 k)
      then show ?thesis unfolding L1 using Qe by simp
    qed
    finally show ?thesis by (simp add: f(2))
  qed
  show ?case using IH M Lm f by (simp add: cp)
qed

lemma held_delete: "held (AList.delete k m) i = (if i = k then 0 else held m i)"
  by (simp add: held_def delete_conv')

lemma settle_step_key:
  assumes "key_of l = Some iid"
  shows "settle cid ls (AList.delete iid m) (adjust_stock cid iid (quantity l - held m iid) r) =
         settle cid (l # ls) m r"
  using assms key_of_item_of[OF assms]
  by (auto simp: settle_def adjust_stock_def requested_Cons held_delete)

lemma settle_step_nokey:
  assumes "key_of l = None" "item_of l = Some iid"
  shows "settle cid ls m (adjust_stock cid iid (quantity l) r) = settle cid (l # ls) m r"
  using assms
  by (auto simp: settle_def adjust_stock_def requested_Cons)

lemma update_lines_items:
  "update_lines cid iv ls (d, m, t) = Inr (d', m', t') \<Longrightarrow>
     items d' = map (settle cid ls m) (items d)"
proof (induction ls arbitrary: d m t)
  case Nil
  then show ?case by (simp add: settle_def requested_def map_idI)
next
  case (Cons l ls)
  from Cons.prems(1) obtain d1 m1 t1 where
    s1: "update_line cid iv l (d, m, t) = Inr (d1, m1, t1)"
    and s2: "update_lines cid iv ls (d1, m1, t1) = Inr (d', m', t')"
    by (auto split: sum.splits)
  from update_line_keyed[OF s1] obtain iid where
    f: "item_of l = Some iid"
    and c: "(key_of l = Some iid \<and> m1 = AList.delete iid m \<and>
             items d1 = map (adjust_stock cid iid (quantity l - held m iid)) (items d)) \<or>
            (key_of l = None \<and> m1 = m \<and>
             items d1 = map (adjust_stock cid iid (quantity l)) (items d))"
    by blast
  from c show ?case
  proof
    assume a: "key_of l = Some iid \<and> m1 = AList.delete iid m \<and>
             items d1 = map (adjust_stock cid iid (quantity l - held m iid)) (items d)"
    from Cons.IH[OF s2] show ?case
      using a by (simp add: o_def settle_step_key)
  next
    assume a: "key_of l = None \<and> m1 = m \<and>
             items d1 = map (adjust_stock cid iid (quantity l)) (items d)"
    from Cons.IH[OF s2] show ?case
      using a f by (simp add: o_def settle_step_nokey)
  qed
qed

lemma return_removed_Inr:
  "return_removed cid iv m d = Inr d' \<Longrightarrow>
     invoice_items d' =
       filter (\<lambda>x. \<not> (ii_invoice_id x = iv \<and> ii_item_id x \<in> fst ` set m)) (invoice_items d) \<and>
     items d' = map (give_back_map cid m) (items d) \<and>
     parties d' = parties d \<and> invoices d' = invoices d"
proof (induction m arbitrary: d)
  case Nil
  then show ?case by (simp add: give_back_map_def returned_def map_idI)
next
  case (Cons kv m)
  obtain k v where kv: "kv = (k, v)" by (cases kv)
  from Cons.prems obtain d2 where
    u: "update_items_quantity (\<lambda>x. it_id x = k \<and> it_company_id x = cid) (\<lambda>q. q + v)
          (delete_invoice_item iv k d) = Inr d2"
    and r: "return_removed cid iv m d2 = Inr d'"
    by (auto simp: kv split: sum.splits)
  note U = update_items_quantity_Inr[OF u]
  have g: "give_back_map cid m (if it_id r = k \<and> it_company_id r = cid
             then r\<lparr>it_quantity := it_quantity r + v\<rparr> else r) = give_back_map cid (kv # m) r" for r
    by (auto simp: give_back_map_def returned_def kv)
  from Cons.IH[OF r] show ?case
    by (auto simp: U delete_invoice_item_def kv o_def g[unfolded kv] intro!: filter_cong)
qed

lemma new_Map_keys_aux:
  "fst ` set (fold (\<lambda>row m. AList.update (ii_item_id row) (ii_quantity row) m) rows m0) =
     fst ` set m0 \<union> ii_item_id ` set rows"
  by (induction rows arbitrary: m0) (auto simp: dom_update)

lemma new_Map_keys: "fst ` set (new_Map rows) = ii_item_id ` set rows"
  by (simp add: new_Map_def new_Map_keys_aux)

lemma new_Map_distinct_aux:
  "distinct (map fst m0) \<Longrightarrow>
     distinct (map fst (fold (\<lambda>row m. AList.update (ii_item_id row) (ii_quantity row) m) rows m0))"
  by (induction rows arbitrary: m0) (auto simp: distinct_update)

lemma new_Map_distinct: "distinct (map fst (new_Map rows))"
  by (simp add: new_Map_def new_Map_distinct_aux)

lemma new_Map_distinct_rows_aux:
  "distinct (map fst m0 @ map ii_item_id rows) \<Longrightarrow>
     fold (\<lambda>row m. AList.update (ii_item_id row) (ii_quantity row) m) rows m0 =
       m0 @ map (\<lambda>x. (ii_item_id x, ii_quantity x)) rows"
proof (induction rows arbitrary: m0)
  case Nil then show ?case by simp
next
  case (Cons r rows)
  have u: "AList.update (ii_item_id r) (ii_quantity r) m0 = m0 @ [(ii_item_id r, ii_quantity r)]"
    using Cons.prems by (induction m0) auto
  have "distinct (map fst (m0 @ [(ii_item_id r, ii_quantity r)]) @ map ii_item_id rows)"
    using Cons.prems by auto
  from Cons.IH[OF this] show ?case by (simp add: u)
qed

lemma new_Map_distinct_rows:
  "distinct (map ii_item_id rows) \<Longrightarrow> new_Map rows = map (\<lambda>x. (ii_item_id x, ii_quantity x)) rows"
  using new_Map_distinct_rows_aux[of "[]" rows] by (simp add: new_Map_def)

lemma distinct_returned_held:
  "distinct (map fst m) \<Longrightarrow> returned m i = held m i"
proof (induction m)
  case Nil then show ?case by (simp add: returned_def held_def)
next
  case (Cons kv m)
  from Cons.prems have "fst kv \<notin> fst ` set m" by simp
  then have "fst kv = i \<Longrightarrow> filter (\<lambda>kv. fst kv = i) m = []"
    unfolding filter_empty_conv by (metis imageI)
  moreover have "fst kv = i \<Longrightarrow> held (kv # m) i = snd kv"
    by (cases kv) (simp add: held_def)
  moreover have "fst kv \<noteq> i \<Longrightarrow> held (kv # m) i = held m i"
    by (cases kv) (auto simp add: held_def)
  ultimately show ?case using Cons by (cases "fst kv = i") (simp_all add: returned_def)
qed


lemma update_invoice_meta_Inr:
  "update_invoice_meta due pty sts now iv cid d = Inr d' \<Longrightarrow>
     invoice_items d' = invoice_items d \<and> items d' = items d \<and> parties d' = parties d \<and>
     map (\<lambda>i. (inv_id i, inv_company_id i)) (invoices d') =
       map (\<lambda>i. (inv_id i, inv_company_id i)) (invoices d)"
  by (auto simp: update_invoice_meta_def split: option.splits if_splits sum.splits)

lemma select_invoice_empty_iff:
  "select_invoice iv cid d = [] \<longleftrightarrow>
     (iv, cid) \<notin> set (map (\<lambda>i. (inv_id i, inv_company_id i)) (invoices d))"
  by (auto simp: select_invoice_def filter_empty_conv)

lemma select_invoice_preserved:
  "map (\<lambda>i. (inv_id i, inv_company_id i)) (invoices d') =
     map (\<lambda>i. (inv_id i, inv_company_id i)) (invoices d) \<Longrightarrow>
   select_invoice iv cid d' = [] \<longleftrightarrow> select_invoice iv cid d = []"
  by (simp only: select_invoice_empty_iff)

lemma update_lines_ids:
  "update_lines cid iv ls (d, m, t) = Inr (d', m', t') \<Longrightarrow> list_all (\<lambda>l. item_of l \<noteq> None) ls"
proof (induction ls arbitrary: d m t)
  case Nil then show ?case by simp
next
  case (Cons l ls)
  from Cons.prems(1) obtain d1 m1 t1 where
    s1: "update_line cid iv l (d, m, t) = Inr (d1, m1, t1)"
    and s2: "update_lines cid iv ls (d1, m1, t1) = Inr (d', m', t')"
    by (auto split: sum.splits)
  from update_line_lines[OF s1] Cons.IH[OF s2] show ?case by auto
qed

lemma expected_lines_projection:
  "list_all (\<lambda>l. item_of l \<noteq> None) ls \<Longrightarrow>
     map (\<lambda>x. (Some (ii_item_id x), ii_quantity x)) (concat (map (expected_line cid iv d) ls)) =
     map (\<lambda>l. (item_of l, quantity l)) ls"
  by (induction ls) (auto simp: expected_line_def)

lemma updateInvoice_tx_steps:
  assumes "updateInvoice_tx now iv cid req d = Inr d'" "u_items req = Some ls"
  shows "\<exists>d1 d2 m2 t2 d3.
           select_invoice iv cid d \<noteq> [] \<and>
           update_invoice_meta (or_null_text (u_due_date req)) (or_null_text (u_party_id req))
             (or_null (u_status req)) now iv cid d = Inr d1 \<and>
           update_lines cid iv ls (d1, new_Map (select_lines iv d1), 0) = Inr (d2, m2, t2) \<and>
           return_removed cid iv m2 d2 = Inr d3 \<and>
           update_invoice_total (\<lambda>i. inv_id i = iv \<and> inv_company_id i = cid)
             (sum_list (map ii_total_line_amount (select_lines iv d3))) now d3 = Inr d'"
  using assms
  by (auto simp: updateInvoice_tx_def Let_def split: if_splits sum.splits option.splits)

lemma returned_filter:
  "returned (filter (\<lambda>kv. Some (fst kv) \<notin> S) m) i = (if Some i \<in> S then 0 else returned m i)"
  by (induction m) (auto simp: returned_def)

lemma returned_rows:
  "returned (map (\<lambda>x. (ii_item_id x, ii_quantity x)) rows) i =
     sum_list (map ii_quantity (filter (\<lambda>l. ii_item_id l = i) rows))"
  by (simp add: returned_def filter_map o_def)

lemma distinct_map_filter_one:
  "distinct (map f xs) \<Longrightarrow> k \<in> f ` set xs \<Longrightarrow> length (filter (\<lambda>x. f x = k) xs) = 1"
proof (induction xs)
  case Nil then show ?case by simp
next
  case (Cons x xs)
  show ?case
  proof (cases "f x = k")
    case True
    from Cons.prems(1) have "f x \<notin> f ` set xs" by simp
    with True have "filter (\<lambda>x. f x = k) xs = []"
      unfolding filter_empty_conv by (metis imageI)
    with True show ?thesis by simp
  next
    case False
    with Cons show ?thesis by auto
  qed
qed

lemma filter_mset_all: "(\<And>x. x \<in># M \<Longrightarrow> P x) \<Longrightarrow> filter_mset P M = M"
  by (induction M) auto

lemma filter_mset_none: "(\<And>x. x \<in># M \<Longrightarrow> \<not> P x) \<Longrightarrow> filter_mset P M = {#}"
  by (induction M) auto

lemma expected_line_item:
  "x \<in> set (concat (map (expected_line cid iv d) ls)) \<Longrightarrow>
     Some (ii_item_id x) \<in> item_of ` set ls \<and> ii_invoice_id x = iv"
  by (auto simp: expected_line_def image_iff split: option.splits)

lemma filter_map_if_same:
  "(\<And>x. P (g x) = P x) \<Longrightarrow> filter P (map (\<lambda>x. if P x then g x else x) xs) = map g (filter P xs)"
  by (induction xs) auto

lemma update_invoice_total_select:
  assumes "update_invoice_total (\<lambda>i. inv_id i = iv \<and> inv_company_id i = cid) t now d = Inr d'"
  shows "invoice_items d' = invoice_items d \<and> items d' = items d \<and> parties d' = parties d \<and>
         (select_invoice iv cid d' = [] \<longleftrightarrow> select_invoice iv cid d = []) \<and>
         (\<forall>i \<in> set (select_invoice iv cid d'). inv_total_amount i = t)"
proof -
  note U = update_invoice_total_Inr[OF assms]
  have "select_invoice iv cid d' =
          map (\<lambda>i. i\<lparr>inv_total_amount := t, inv_updated_at := now\<rparr>) (select_invoice iv cid d)"
    unfolding select_invoice_def U
    by (simp add: filter_map_if_same[where P = "\<lambda>i. inv_id i = iv \<and> inv_company_id i = cid"])
  then show ?thesis by (auto simp: U)
qed

lemma updateInvoice_tx_Inr:
  assumes tx: "updateInvoice_tx now iv cid req d = Inr d'" and ls: "u_items req = Some ls"
    and dist: "distinct (map ii_item_id (select_lines iv d))"
    and std: "list_all (\<lambda>l. key_of l = item_of l) ls"
  shows "mset (select_lines iv d') = mset (concat (map (expected_line cid iv d) ls)) \<and>
         list_all (\<lambda>l. item_of l \<noteq> None) ls \<and>
         items d' = map (\<lambda>r. give_back cid (select_lines iv d) (take_stock cid ls r)) (items d) \<and>
         select_invoice iv cid d' \<noteq> [] \<and>
         (\<forall>i \<in> set (select_invoice iv cid d').
            inv_total_amount i = sum_list (map ii_total_line_amount (select_lines iv d')))"
proof -
  from updateInvoice_tx_steps[OF tx ls] obtain d1 d2 m2 t2 d3 where
    ex: "select_invoice iv cid d \<noteq> []"
    and meta: "update_invoice_meta (or_null_text (u_due_date req)) (or_null_text (u_party_id req))
             (or_null (u_status req)) now iv cid d = Inr d1"
    and loop: "update_lines cid iv ls (d1, new_Map (select_lines iv d1), 0) = Inr (d2, m2, t2)"
    and rem: "return_removed cid iv m2 d2 = Inr d3"
    and tot: "update_invoice_total (\<lambda>i. inv_id i = iv \<and> inv_company_id i = cid)
             (sum_list (map ii_total_line_amount (select_lines iv d3))) now d3 = Inr d'"
    by blast
  let ?L = "select_lines iv d"
  let ?m0 = "map (\<lambda>x. (ii_item_id x, ii_quantity x)) ?L"
  let ?E = "concat (map (expected_line cid iv d) ls)"
  note M = update_invoice_meta_Inr[OF meta]
  have L1: "select_lines iv d1 = ?L" using M by (simp add: select_lines_def)
  have m0: "new_Map (select_lines iv d1) = ?m0"
    unfolding L1 using dist by (rule new_Map_distinct_rows)
  have cp1: "catalog_price cid d1 = catalog_price cid d"
    using M by (intro ext) (simp add: catalog_price_def select_item_def)
  note el1 = expected_line_cong[OF cp1]
  have keys0: "fst ` set ?m0 = ii_item_id ` set ?L" by (simp add: image_image)
  have H: "one_line_each ?m0 (select_lines iv d1)"
    unfolding one_line_each_def L1 keys0
    using distinct_map_filter_one[OF dist] by blast
  have ki: "key_of ` set ls = item_of ` set ls"
    using std by (auto simp: list_all_iff image_iff)
  note A = update_lines_Inr[OF loop[unfolded m0] H std, unfolded el1 cp1 L1 ki]
  note I = update_lines_items[OF loop[unfolded m0]]
  note R = return_removed_Inr[OF rem]
  note T = update_invoice_total_select[OF tot]
  have m2: "m2 = filter (\<lambda>kv. Some (fst kv) \<notin> item_of ` set ls) ?m0" using A by blast
  have inv2: "invoices d2 = invoices d1" using A by blast
  have R1: "invoice_items d3 =
       filter (\<lambda>x. \<not> (ii_invoice_id x = iv \<and> ii_item_id x \<in> fst ` set m2)) (invoice_items d2)"
    and R2: "items d3 = map (give_back_map cid m2) (items d2)"
    and R3: "invoices d3 = invoices d2"
    using R by blast+
  have T1: "invoice_items d' = invoice_items d3" and T2: "items d' = items d3"
    and T3: "select_invoice iv cid d' = [] \<longleftrightarrow> select_invoice iv cid d3 = []"
    and T4: "\<forall>i \<in> set (select_invoice iv cid d').
               inv_total_amount i = sum_list (map ii_total_line_amount (select_lines iv d3))"
    using T by blast+
  have M1: "invoice_items d1 = invoice_items d" and M2: "items d1 = items d"
    and M3: "map (\<lambda>i. (inv_id i, inv_company_id i)) (invoices d1) =
       map (\<lambda>i. (inv_id i, inv_company_id i)) (invoices d)"
    using M by blast+
  have keys2: "fst ` set m2 = {k \<in> ii_item_id ` set ?L. Some k \<notin> item_of ` set ls}"
    unfolding m2 by force
  have L3: "select_lines iv d3 = filter (\<lambda>x. ii_item_id x \<notin> fst ` set m2) (select_lines iv d2)"
    unfolding select_lines_def R1 filter_filter by (rule filter_cong) auto
  have part1: "filter_mset (\<lambda>x. ii_item_id x \<notin> fst ` set m2)
          (filter_mset (\<lambda>x. ii_item_id x \<notin> fst ` set ?m0 \<or> Some (ii_item_id x) \<notin> item_of ` set ls)
             (mset ?L)) = {#}"
    unfolding filter_filter_mset
  proof (rule filter_mset_none)
    fix x assume "x \<in># mset ?L"
    then have x: "ii_item_id x \<in> ii_item_id ` set ?L" by simp
    show "\<not> ((ii_item_id x \<notin> fst ` set ?m0 \<or> Some (ii_item_id x) \<notin> item_of ` set ls) \<and>
              ii_item_id x \<notin> fst ` set m2)"
      unfolding keys2 keys0 using x by blast
  qed
  have part2: "filter_mset (\<lambda>x. ii_item_id x \<notin> fst ` set m2) (mset ?E) = mset ?E"
  proof (rule filter_mset_all)
    fix x assume "x \<in># mset ?E"
    then have "Some (ii_item_id x) \<in> item_of ` set ls"
      using expected_line_item[of x cid iv d ls] by simp
    then show "ii_item_id x \<notin> fst ` set m2" unfolding keys2 by blast
  qed
  have Ld: "select_lines iv d' = select_lines iv d3" by (simp add: select_lines_def T1)
  have A1: "mset (select_lines iv d2) =
      filter_mset (\<lambda>x. ii_item_id x \<notin> fst ` set ?m0 \<or> Some (ii_item_id x) \<notin> item_of ` set ls)
             (mset ?L) + mset ?E"
    using A by blast
  have "mset (select_lines iv d3) =
      filter_mset (\<lambda>x. ii_item_id x \<notin> fst ` set m2) (mset (select_lines iv d2))"
    unfolding L3 by (rule mset_filter)
  also have "\<dots> = mset ?E"
    unfolding A1 filter_union_mset part1 part2 by simp
  finally have lines: "mset (select_lines iv d') = mset ?E" unfolding Ld .
  have ids: "list_all (\<lambda>l. item_of l \<noteq> None) ls"
    using loop by (rule update_lines_ids)
  have dk: "distinct (map fst ?m0)" using dist by (simp add: o_def)
  have row: "give_back_map cid m2 (settle cid ls ?m0 r) =
             give_back cid ?L (take_stock cid ls r)" for r
    unfolding m2
    by (simp add: ki give_back_map_def settle_def give_back_def take_stock_def returned_filter
        distinct_returned_held[OF dk, symmetric] returned_rows)
  have items: "items d' = map (\<lambda>r. give_back cid ?L (take_stock cid ls r)) (items d)"
    unfolding T2 R2 I M2 by (simp add: o_def row)
  have "select_invoice iv cid d1 \<noteq> []"
    using ex select_invoice_preserved[OF M3, of iv cid] by simp
  then have inv3: "select_invoice iv cid d3 \<noteq> []"
    by (simp add: select_invoice_def R3 inv2)
  have total: "\<forall>i \<in> set (select_invoice iv cid d').
            inv_total_amount i = sum_list (map ii_total_line_amount (select_lines iv d'))"
    unfolding Ld using T4 .
  have "select_invoice iv cid d' \<noteq> []" using inv3 T3 by simp
  with lines ids items total show ?thesis by simp
qed

lemma update_lines_subset:
  "update_lines cid iv ls (d, m, t) = Inr (d', m', t') \<Longrightarrow>
     fst ` set m' \<subseteq> fst ` set m \<and>
     (\<forall>x \<in> set (select_lines iv d').
        x \<in> set (concat (map (expected_line cid iv d) ls)) \<or>
        (x \<in> set (select_lines iv d) \<and>
         (ii_item_id x \<in> fst ` set m \<longrightarrow> ii_item_id x \<in> fst ` set m')))"
proof (induction ls arbitrary: d m t)
  case Nil
  then show ?case by simp
next
  case (Cons l ls)
  from Cons.prems(1) obtain d1 m1 t1 where
    s1: "update_line cid iv l (d, m, t) = Inr (d1, m1, t1)"
    and s2: "update_lines cid iv ls (d1, m1, t1) = Inr (d', m', t')"
    by (auto split: sum.splits)
  from update_line_keyed[OF s1] obtain iid e where
    f: "item_of l = Some iid" "expected_line cid iv d l = [e]"
    and c: "(key_of l = Some iid \<and> m1 = AList.delete iid m \<and>
             select_lines iv d1 =
               (if map_of m iid \<noteq> None
                then map (\<lambda>x. if ii_item_id x = iid then e else x) (select_lines iv d)
                else select_lines iv d @ [e]) \<and>
             items d1 = map (adjust_stock cid iid (quantity l - held m iid)) (items d)) \<or>
            (key_of l = None \<and> m1 = m \<and> select_lines iv d1 = select_lines iv d @ [e] \<and>
             items d1 = map (adjust_stock cid iid (quantity l)) (items d))"
    by blast
  from c obtain n where i1: "items d1 = map (adjust_stock cid iid n) (items d)" by blast
  have cp: "catalog_price cid d1 = catalog_price cid d"
    by (rule catalog_price_map[where g = "adjust_stock cid iid n"]) (simp_all add: i1)
  note el = expected_line_cong[OF cp]
  note IH = Cons.IH[OF s2, unfolded el]
  have sub1: "fst ` set m' \<subseteq> fst ` set m1" using IH by (rule conjunct1)
  have IH2: "\<forall>x \<in> set (select_lines iv d').
        x \<in> set (concat (map (expected_line cid iv d) ls)) \<or>
        (x \<in> set (select_lines iv d1) \<and>
         (ii_item_id x \<in> fst ` set m1 \<longrightarrow> ii_item_id x \<in> fst ` set m'))"
    using IH by (rule conjunct2)
  have keys1: "fst ` set m1 \<subseteq> fst ` set m"
    using c by (auto simp: AList.delete_eq)
  have sub: "fst ` set m' \<subseteq> fst ` set m" using sub1 keys1 by blast
  have step: "x = e \<or> (x \<in> set (select_lines iv d) \<and>
                (ii_item_id x \<in> fst ` set m \<longrightarrow> ii_item_id x \<in> fst ` set m1))"
    if x: "x \<in> set (select_lines iv d1)" for x
    using c
  proof
    assume a: "key_of l = Some iid \<and> m1 = AList.delete iid m \<and>
             select_lines iv d1 =
               (if map_of m iid \<noteq> None
                then map (\<lambda>x. if ii_item_id x = iid then e else x) (select_lines iv d)
                else select_lines iv d @ [e]) \<and>
             items d1 = map (adjust_stock cid iid (quantity l - held m iid)) (items d)"
    then have k1: "fst ` set m1 = fst ` set m - {iid}" by (auto simp: AList.delete_eq)
    have has: "map_of m iid = None \<longleftrightarrow> iid \<notin> fst ` set m"
      by (simp add: map_of_eq_None_iff)
    show ?thesis
    proof (cases "iid \<in> fst ` set m")
      case True
      then have "select_lines iv d1 = map (\<lambda>x. if ii_item_id x = iid then e else x) (select_lines iv d)"
        using a by (simp add: has)
      with x obtain y where y: "y \<in> set (select_lines iv d)" "x = (if ii_item_id y = iid then e else y)"
        by auto
      show ?thesis
      proof (cases "ii_item_id y = iid")
        case True
        with y show ?thesis by simp
      next
        case False
        with y have "x = y" by simp
        with y False show ?thesis by (simp add: k1)
      qed
    next
      case False
      then have "select_lines iv d1 = select_lines iv d @ [e]" using a by (simp add: has)
      with x have "x = e \<or> x \<in> set (select_lines iv d)" by auto
      then show ?thesis
      proof
        assume "x = e" then show ?thesis by simp
      next
        assume xd: "x \<in> set (select_lines iv d)"
        have "ii_item_id x \<in> fst ` set m \<longrightarrow> ii_item_id x \<in> fst ` set m1"
          using False by (auto simp: k1)
        with xd show ?thesis by simp
      qed
    qed
  next
    assume a: "key_of l = None \<and> m1 = m \<and> select_lines iv d1 = select_lines iv d @ [e] \<and>
             items d1 = map (adjust_stock cid iid (quantity l)) (items d)"
    with x have "x = e \<or> x \<in> set (select_lines iv d)" by auto
    then show ?thesis using a by auto
  qed
  have "x \<in> set (concat (map (expected_line cid iv d) (l # ls))) \<or>
        (x \<in> set (select_lines iv d) \<and>
         (ii_item_id x \<in> fst ` set m \<longrightarrow> ii_item_id x \<in> fst ` set m'))"
    if x: "x \<in> set (select_lines iv d')" for x
  proof -
    from IH2 x have "x \<in> set (concat (map (expected_line cid iv d) ls)) \<or>
        (x \<in> set (select_lines iv d1) \<and>
         (ii_item_id x \<in> fst ` set m1 \<longrightarrow> ii_item_id x \<in> fst ` set m'))"
      by blast
    then show ?thesis
    proof
      assume "x \<in> set (concat (map (expected_line cid iv d) ls))"
      then show ?thesis by simp
    next
      assume a: "x \<in> set (select_lines iv d1) \<and>
         (ii_item_id x \<in> fst ` set m1 \<longrightarrow> ii_item_id x \<in> fst ` set m')"
      from step[of x] a consider "x = e"
        | "x \<in> set (select_lines iv d)"
          "ii_item_id x \<in> fst ` set m \<longrightarrow> ii_item_id x \<in> fst ` set m1"
        by blast
      then show ?thesis
      proof cases
        case 1
        then show ?thesis by (simp add: f(2))
      next
        case 2
        have "ii_item_id x \<in> fst ` set m \<longrightarrow> ii_item_id x \<in> fst ` set m'"
          using 2(2) a by blast
        with 2(1) show ?thesis by simp
      qed
    qed
  qed
  then have "\<forall>x \<in> set (select_lines iv d').
        x \<in> set (concat (map (expected_line cid iv d) (l # ls))) \<or>
        (x \<in> set (select_lines iv d) \<and>
         (ii_item_id x \<in> fst ` set m \<longrightarrow> ii_item_id x \<in> fst ` set m'))" ..
  with sub show ?case by (rule conjI)
qed

lemma expected_line_priced:
  "x \<in> set (concat (map (expected_line cid iv d) ls)) \<Longrightarrow>
     ii_price_at_purchase x = catalog_price cid d (ii_item_id x) \<and>
     ii_total_line_amount x = catalog_price cid d (ii_item_id x) * ii_quantity x"
  by (auto simp: expected_line_def split: option.splits)

lemma updateInvoice_tx_lines_subset:
  assumes tx: "updateInvoice_tx now iv cid req d = Inr d'" and ls: "u_items req = Some ls"
  shows "set (select_lines iv d') \<subseteq> set (concat (map (expected_line cid iv d) ls))"
proof -
  from updateInvoice_tx_steps[OF tx ls] obtain d1 d2 m2 t2 d3 where
    meta: "update_invoice_meta (or_null_text (u_due_date req)) (or_null_text (u_party_id req))
             (or_null (u_status req)) now iv cid d = Inr d1"
    and loop: "update_lines cid iv ls (d1, new_Map (select_lines iv d1), 0) = Inr (d2, m2, t2)"
    and rem: "return_removed cid iv m2 d2 = Inr d3"
    and tot: "update_invoice_total (\<lambda>i. inv_id i = iv \<and> inv_company_id i = cid)
             (sum_list (map ii_total_line_amount (select_lines iv d3))) now d3 = Inr d'"
    by blast
  note M = update_invoice_meta_Inr[OF meta]
  have cp1: "catalog_price cid d1 = catalog_price cid d"
    using M by (intro ext) (simp add: catalog_price_def select_item_def)
  note S = update_lines_subset[OF loop, unfolded expected_line_cong[OF cp1] new_Map_keys]
  have R1: "invoice_items d3 =
       filter (\<lambda>x. \<not> (ii_invoice_id x = iv \<and> ii_item_id x \<in> fst ` set m2)) (invoice_items d2)"
    using return_removed_Inr[OF rem] by blast
  have T1: "invoice_items d' = invoice_items d3"
    using update_invoice_total_select[OF tot] by blast
  show ?thesis
  proof
    fix x assume "x \<in> set (select_lines iv d')"
    then have x: "x \<in> set (select_lines iv d2)" "ii_item_id x \<notin> fst ` set m2"
      by (auto simp: select_lines_def T1 R1)
    with S show "x \<in> set (concat (map (expected_line cid iv d) ls))" by blast
  qed
qed


section \<open>The loops of the earlier updateInvoice\<close>

lemma mset_eq_sum_list_map:
  fixes f :: "'a \<Rightarrow> int"
  assumes "mset xs = mset ys"
  shows "sum_list (map f xs) = sum_list (map f ys)"
proof -
  from assms have "mset (map f xs) = mset (map f ys)" by simp
  then have "sum_mset (mset (map f xs)) = sum_mset (mset (map f ys))" by (rule arg_cong)
  then show ?thesis unfolding sum_mset_sum_list .
qed

lemma filter_map_if_weaker:
  "(\<And>x. P (g x) = P x) \<Longrightarrow> (\<And>x. P x \<Longrightarrow> Q x) \<Longrightarrow>
     filter P (map (\<lambda>x. if Q x then g x else x) xs) = map g (filter P xs)"
  by (induction xs) auto

lemma update_invoice_total_select_unscoped:
  assumes "update_invoice_total (\<lambda>i. inv_id i = iv) t now d = Inr d'"
  shows "invoice_items d' = invoice_items d \<and> items d' = items d \<and> parties d' = parties d \<and>
         (select_invoice iv cid d' = [] \<longleftrightarrow> select_invoice iv cid d = []) \<and>
         (\<forall>i \<in> set (select_invoice iv cid d'). inv_total_amount i = t)"
proof -
  note U = update_invoice_total_Inr[OF assms]
  have "select_invoice iv cid d' =
          map (\<lambda>i. i\<lparr>inv_total_amount := t, inv_updated_at := now\<rparr>) (select_invoice iv cid d)"
    unfolding select_invoice_def U
    by (simp add: filter_map_if_weaker[where P = "\<lambda>i. inv_id i = iv \<and> inv_company_id i = cid"
          and Q = "\<lambda>i. inv_id i = iv"])
  then show ?thesis by (auto simp: U)
qed

lemma update_line_unscoped_Inr:
  assumes "update_line_unscoped cid iv l (d, m, t) = Inr (d', m', t')"
  shows "\<exists>iid r rs e. item_of l = Some iid \<and> 0 < quantity l \<and>
           select_item (Some iid) cid d = r # rs \<and> expected_line cid iv d l = [e] \<and>
           (0 < quantity l - held_for m l \<longrightarrow> quantity l - held_for m l \<le> it_quantity r) \<and>
           t' = t + ii_total_line_amount e \<and> m' = Map_delete (item_id l) m \<and>
           invoice_items d' =
             (if Map_has m (item_id l)
              then map (\<lambda>x. if ii_invoice_id x = iv \<and> ii_item_id x = iid then e else x)
                     (invoice_items d)
              else invoice_items d @ [e]) \<and>
           items d' = map (adjust_stock_unscoped iid (quantity l - held_for m l)) (items d) \<and>
           parties d' = parties d \<and> invoices d' = invoices d"
proof -
  from assms obtain v r rs where v: "uuid_param (item_id l) = Inr v"
    and sel: "select_item v cid d = r # rs" and q: "0 < quantity l"
    by (auto simp: update_line_unscoped_def Let_def split: if_splits sum.splits list.splits)
  from select_item_Cons_Some[OF sel] uuid_param_item[OF v]
  have idr: "v = Some (it_id r)" "item_of l = Some (it_id r)" by simp_all
  have e: "expected_line cid iv d l =
     [\<lparr>ii_invoice_id = iv, ii_item_id = it_id r, ii_quantity = quantity l,
       ii_price_at_purchase = it_price r, ii_total_line_amount = it_price r * quantity l\<rparr>]"
    using sel idr by (simp add: expected_line_def catalog_price_def)
  have af: "adjust_stock_unscoped (it_id r) n = (\<lambda>x. if it_id x = it_id r
       then x\<lparr>it_quantity := it_quantity x - n\<rparr> else x)" for n
    by (rule ext) (simp add: adjust_stock_unscoped_def)
  show ?thesis
    using assms sel[unfolded idr] q
    apply (simp add: update_line_unscoped_def Let_def v idr e af held_for_def[symmetric]
        split: if_splits sum.splits)
     apply (auto dest!: insert_invoice_item_Inr update_invoice_item_Inr update_items_quantity_Inr)
    done
qed

lemma update_line_unscoped_lines:
  assumes "update_line_unscoped cid iv l (d, m, t) = Inr (d', m', t')"
  shows "\<exists>iid e. item_of l = Some iid \<and> expected_line cid iv d l = [e] \<and>
           m' = Map_delete (item_id l) m \<and> t' = t + ii_total_line_amount e \<and>
           select_lines iv d' =
             (if Map_has m (item_id l)
              then map (\<lambda>x. if ii_item_id x = iid then e else x) (select_lines iv d)
              else select_lines iv d @ [e]) \<and>
           filter (\<lambda>x. ii_invoice_id x \<noteq> iv) (invoice_items d') =
             filter (\<lambda>x. ii_invoice_id x \<noteq> iv) (invoice_items d) \<and>
           items d' = map (adjust_stock_unscoped iid (quantity l - held_for m l)) (items d) \<and>
           parties d' = parties d \<and> invoices d' = invoices d"
proof -
  from update_line_unscoped_Inr[OF assms] obtain iid r rs e where
    f: "item_of l = Some iid" "expected_line cid iv d l = [e]"
       "t' = t + ii_total_line_amount e" "m' = Map_delete (item_id l) m"
       "invoice_items d' =
             (if Map_has m (item_id l)
              then map (\<lambda>x. if ii_invoice_id x = iv \<and> ii_item_id x = iid then e else x)
                     (invoice_items d)
              else invoice_items d @ [e])"
       "items d' = map (adjust_stock_unscoped iid (quantity l - held_for m l)) (items d)"
       "parties d' = parties d" "invoices d' = invoices d"
    by blast
  from expected_line_single[OF f(2) f(1)] have e: "ii_invoice_id e = iv" "ii_item_id e = iid"
    by simp_all
  have 1: "select_lines iv d' =
             (if Map_has m (item_id l)
              then map (\<lambda>x. if ii_item_id x = iid then e else x) (select_lines iv d)
              else select_lines iv d @ [e])"
    unfolding select_lines_def f(5)
    using filter_map_if_const[where P = "\<lambda>x. ii_invoice_id x = iv" and Q = "\<lambda>x. ii_item_id x = iid"
        and e = e and xs = "invoice_items d"] e
    by simp
  have 2: "filter (\<lambda>x. ii_invoice_id x \<noteq> iv) (invoice_items d') =
             filter (\<lambda>x. ii_invoice_id x \<noteq> iv) (invoice_items d)"
    unfolding f(5)
    using filter_not_map_if_const[where P = "\<lambda>x. ii_invoice_id x = iv" and Q = "\<lambda>x. ii_item_id x = iid"
        and e = e and xs = "invoice_items d"] e
    by simp
  show ?thesis using f 1 2 by blast
qed

lemma update_line_unscoped_keyed:
  assumes "update_line_unscoped cid iv l (d, m, t) = Inr (d', m', t')"
  shows "\<exists>iid e. item_of l = Some iid \<and> expected_line cid iv d l = [e] \<and>
           t' = t + ii_total_line_amount e \<and>
           filter (\<lambda>x. ii_invoice_id x \<noteq> iv) (invoice_items d') =
             filter (\<lambda>x. ii_invoice_id x \<noteq> iv) (invoice_items d) \<and>
           parties d' = parties d \<and> invoices d' = invoices d \<and>
           ((key_of l = Some iid \<and> m' = AList.delete iid m \<and>
             select_lines iv d' =
               (if map_of m iid \<noteq> None
                then map (\<lambda>x. if ii_item_id x = iid then e else x) (select_lines iv d)
                else select_lines iv d @ [e]) \<and>
             items d' = map (adjust_stock_unscoped iid (quantity l - held m iid)) (items d)) \<or>
            (key_of l = None \<and> m' = m \<and> select_lines iv d' = select_lines iv d @ [e] \<and>
             items d' = map (adjust_stock_unscoped iid (quantity l)) (items d)))"
proof -
  from update_line_unscoped_lines[OF assms] obtain iid e where
    f: "item_of l = Some iid" "expected_line cid iv d l = [e]"
       "m' = Map_delete (item_id l) m" "t' = t + ii_total_line_amount e"
       "select_lines iv d' =
             (if Map_has m (item_id l)
              then map (\<lambda>x. if ii_item_id x = iid then e else x) (select_lines iv d)
              else select_lines iv d @ [e])"
       "filter (\<lambda>x. ii_invoice_id x \<noteq> iv) (invoice_items d') =
             filter (\<lambda>x. ii_invoice_id x \<noteq> iv) (invoice_items d)"
       "items d' = map (adjust_stock_unscoped iid (quantity l - held_for m l)) (items d)"
       "parties d' = parties d" "invoices d' = invoices d"
    by blast
  from key_of_cases[OF f(1)] show ?thesis
  proof
    assume k: "key_of l = Some iid"
    show ?thesis
      using f k by (simp add: Map_has_key held_for_key Map_delete_key)
  next
    assume k: "key_of l = None"
    show ?thesis
      using f k by (simp add: Map_has_key held_for_key Map_delete_key)
  qed
qed

lemma adjust_stock_unscoped_fields [simp]:
  "it_id (adjust_stock_unscoped i n r) = it_id r"
  "it_company_id (adjust_stock_unscoped i n r) = it_company_id r"
  "it_price (adjust_stock_unscoped i n r) = it_price r"
  by (simp_all add: adjust_stock_unscoped_def)

lemma update_lines_unscoped_Inr:
  assumes "update_lines_unscoped cid iv ls (d, m, t) = Inr (d', m', t')"
    and "one_line_each m (select_lines iv d)"
    and "list_all (\<lambda>l. key_of l = item_of l) ls"
  shows "mset (select_lines iv d') =
           filter_mset (\<lambda>x. ii_item_id x \<notin> fst ` set m \<or> Some (ii_item_id x) \<notin> key_of ` set ls)
             (mset (select_lines iv d)) +
           mset (concat (map (expected_line cid iv d) ls)) \<and>
         m' = filter (\<lambda>kv. Some (fst kv) \<notin> key_of ` set ls) m \<and>
         t' = t + sum_list (map ii_total_line_amount (concat (map (expected_line cid iv d) ls))) \<and>
         filter (\<lambda>x. ii_invoice_id x \<noteq> iv) (invoice_items d') =
           filter (\<lambda>x. ii_invoice_id x \<noteq> iv) (invoice_items d) \<and>
         catalog_price cid d' = catalog_price cid d \<and>
         parties d' = parties d \<and> invoices d' = invoices d"
  using assms
proof (induction ls arbitrary: d m t)
  case Nil
  then show ?case by (auto intro: filter_mset_cong simp: filter_id_conv)
next
  case (Cons l ls)
  from Cons.prems(1) obtain d1 m1 t1 where
    s1: "update_line_unscoped cid iv l (d, m, t) = Inr (d1, m1, t1)"
    and s2: "update_lines_unscoped cid iv ls (d1, m1, t1) = Inr (d', m', t')"
    by (auto split: sum.splits)
  from Cons.prems(3) have std: "key_of l = item_of l" "list_all (\<lambda>l. key_of l = item_of l) ls"
    by simp_all
  from update_line_unscoped_keyed[OF s1] std(1) obtain iid e where
    f: "item_of l = Some iid" "expected_line cid iv d l = [e]"
       "m1 = AList.delete iid m" "t1 = t + ii_total_line_amount e"
       "select_lines iv d1 =
             (if map_of m iid \<noteq> None
              then map (\<lambda>x. if ii_item_id x = iid then e else x) (select_lines iv d)
              else select_lines iv d @ [e])"
       "filter (\<lambda>x. ii_invoice_id x \<noteq> iv) (invoice_items d1) =
             filter (\<lambda>x. ii_invoice_id x \<noteq> iv) (invoice_items d)"
       "items d1 = map (adjust_stock_unscoped iid (quantity l - held m iid)) (items d)"
       "parties d1 = parties d" "invoices d1 = invoices d"
    and k: "key_of l = Some iid"
    by auto
  from expected_line_single[OF f(2) f(1)] have e: "ii_invoice_id e = iv" "ii_item_id e = iid"
    by simp_all
  have keys1: "fst ` set m1 = fst ` set m - {iid}"
    by (auto simp: f(3) AList.delete_eq)
  have has: "map_of m iid = None \<longleftrightarrow> iid \<notin> fst ` set m"
    by (simp add: map_of_eq_None_iff)
  have cp: "catalog_price cid d1 = catalog_price cid d"
    by (rule catalog_price_map[where g = "adjust_stock_unscoped iid (quantity l - held m iid)"])
       (simp_all add: f(7))
  note el = expected_line_cong[OF cp]
  have L1: "mset (select_lines iv d1) =
      filter_mset (\<lambda>x. ii_item_id x \<noteq> iid \<or> iid \<notin> fst ` set m) (mset (select_lines iv d)) + {#e#}"
  proof (cases "iid \<in> fst ` set m")
    case True
    with Cons.prems(2) have "length (filter (\<lambda>x. ii_item_id x = iid) (select_lines iv d)) = 1"
      unfolding one_line_each_def by blast
    from mset_map_if_one[OF this] True show ?thesis
      by (simp add: f(5) has)
  next
    case False
    then show ?thesis by (simp add: f(5) has)
  qed
  have H1: "one_line_each m1 (select_lines iv d1)"
    unfolding one_line_each_def
  proof
    fix k assume k: "k \<in> fst ` set m1"
    then have kk: "k \<in> fst ` set m" "k \<noteq> iid" by (auto simp: keys1)
    have "filter (\<lambda>x. ii_item_id x = k) (select_lines iv d1) =
          filter (\<lambda>x. ii_item_id x = k) (select_lines iv d)"
      using kk e by (simp add: f(5) filter_other_map_if)
    then show "length (filter (\<lambda>x. ii_item_id x = k) (select_lines iv d1)) = 1"
      using Cons.prems(2) kk unfolding one_line_each_def by auto
  qed
  note IH = Cons.IH[OF s2 H1 std(2), unfolded el cp]
  have M: "m' = filter (\<lambda>kv. Some (fst kv) \<notin> key_of ` set (l # ls)) m"
    using IH k by (auto simp: f(3) AList.delete_eq intro!: filter_cong)
  have Lm: "mset (select_lines iv d') =
           filter_mset (\<lambda>x. ii_item_id x \<notin> fst ` set m \<or> Some (ii_item_id x) \<notin> key_of ` set (l # ls))
             (mset (select_lines iv d)) +
           mset (concat (map (expected_line cid iv d) (l # ls)))"
  proof -
    have "mset (select_lines iv d') =
       filter_mset (\<lambda>x. ii_item_id x \<notin> fst ` set m1 \<or> Some (ii_item_id x) \<notin> key_of ` set ls)
         (mset (select_lines iv d1)) + mset (concat (map (expected_line cid iv d) ls))"
      using IH by simp
    also have "filter_mset (\<lambda>x. ii_item_id x \<notin> fst ` set m1 \<or> Some (ii_item_id x) \<notin> key_of ` set ls)
         (mset (select_lines iv d1)) =
       filter_mset (\<lambda>x. ii_item_id x \<notin> fst ` set m \<or> Some (ii_item_id x) \<notin> key_of ` set (l # ls))
             (mset (select_lines iv d)) + {#e#}"
    proof -
      have Qe: "ii_item_id e \<notin> fst ` set m1" using e by (simp add: keys1)
      have "filter_mset (\<lambda>x. ii_item_id x \<notin> fst ` set m1 \<or> Some (ii_item_id x) \<notin> key_of ` set ls)
              (filter_mset (\<lambda>x. ii_item_id x \<noteq> iid \<or> iid \<notin> fst ` set m) (mset (select_lines iv d))) =
            filter_mset (\<lambda>x. ii_item_id x \<notin> fst ` set m \<or> Some (ii_item_id x) \<notin> key_of ` set (l # ls))
              (mset (select_lines iv d))"
        unfolding filter_filter_mset
        by (rule filter_mset_cong[OF refl]) (auto simp: keys1 k)
      then show ?thesis unfolding L1 using Qe by simp
    qed
    finally show ?thesis by (simp add: f(2))
  qed
  show ?case using IH M Lm f by (simp add: cp)
qed

lemma settle_unscoped_step_key:
  assumes "key_of l = Some iid"
  shows "settle_unscoped ls (AList.delete iid m) (adjust_stock_unscoped iid (quantity l - held m iid) r) =
         settle_unscoped (l # ls) m r"
  using assms key_of_item_of[OF assms]
  by (auto simp: settle_unscoped_def adjust_stock_unscoped_def requested_Cons held_delete)

lemma settle_unscoped_step_nokey:
  assumes "key_of l = None" "item_of l = Some iid"
  shows "settle_unscoped ls m (adjust_stock_unscoped iid (quantity l) r) = settle_unscoped (l # ls) m r"
  using assms
  by (auto simp: settle_unscoped_def adjust_stock_unscoped_def requested_Cons)

lemma update_lines_unscoped_items:
  "update_lines_unscoped cid iv ls (d, m, t) = Inr (d', m', t') \<Longrightarrow>
     items d' = map (settle_unscoped ls m) (items d)"
proof (induction ls arbitrary: d m t)
  case Nil
  then show ?case by (simp add: settle_unscoped_def requested_def map_idI)
next
  case (Cons l ls)
  from Cons.prems(1) obtain d1 m1 t1 where
    s1: "update_line_unscoped cid iv l (d, m, t) = Inr (d1, m1, t1)"
    and s2: "update_lines_unscoped cid iv ls (d1, m1, t1) = Inr (d', m', t')"
    by (auto split: sum.splits)
  from update_line_unscoped_keyed[OF s1] obtain iid where
    f: "item_of l = Some iid"
    and c: "(key_of l = Some iid \<and> m1 = AList.delete iid m \<and>
             items d1 = map (adjust_stock_unscoped iid (quantity l - held m iid)) (items d)) \<or>
            (key_of l = None \<and> m1 = m \<and>
             items d1 = map (adjust_stock_unscoped iid (quantity l)) (items d))"
    by blast
  from c show ?case
  proof
    assume a: "key_of l = Some iid \<and> m1 = AList.delete iid m \<and>
             items d1 = map (adjust_stock_unscoped iid (quantity l - held m iid)) (items d)"
    from Cons.IH[OF s2] show ?case
      using a by (simp add: o_def settle_unscoped_step_key)
  next
    assume a: "key_of l = None \<and> m1 = m \<and>
             items d1 = map (adjust_stock_unscoped iid (quantity l)) (items d)"
    from Cons.IH[OF s2] show ?case
      using a f by (simp add: o_def settle_unscoped_step_nokey)
  qed
qed

lemma return_removed_unscoped_Inr:
  "return_removed_unscoped iv m d = Inr d' \<Longrightarrow>
     invoice_items d' =
       filter (\<lambda>x. \<not> (ii_invoice_id x = iv \<and> ii_item_id x \<in> fst ` set m)) (invoice_items d) \<and>
     items d' = map (give_back_map_unscoped m) (items d) \<and>
     parties d' = parties d \<and> invoices d' = invoices d"
proof (induction m arbitrary: d)
  case Nil
  then show ?case by (simp add: give_back_map_unscoped_def returned_def map_idI)
next
  case (Cons kv m)
  obtain k v where kv: "kv = (k, v)" by (cases kv)
  from Cons.prems obtain d2 where
    u: "update_items_quantity (\<lambda>x. it_id x = k) (\<lambda>q. q + v)
          (delete_invoice_item iv k d) = Inr d2"
    and r: "return_removed_unscoped iv m d2 = Inr d'"
    by (auto simp: kv split: sum.splits)
  note U = update_items_quantity_Inr[OF u]
  have g: "give_back_map_unscoped m (if it_id r = k
             then r\<lparr>it_quantity := it_quantity r + v\<rparr> else r) = give_back_map_unscoped (kv # m) r" for r
    by (auto simp: give_back_map_unscoped_def returned_def kv)
  from Cons.IH[OF r] show ?case
    by (auto simp: U delete_invoice_item_def kv o_def g[unfolded kv] intro!: filter_cong)
qed

lemma update_lines_unscoped_ids:
  "update_lines_unscoped cid iv ls (d, m, t) = Inr (d', m', t') \<Longrightarrow> list_all (\<lambda>l. item_of l \<noteq> None) ls"
proof (induction ls arbitrary: d m t)
  case Nil then show ?case by simp
next
  case (Cons l ls)
  from Cons.prems(1) obtain d1 m1 t1 where
    s1: "update_line_unscoped cid iv l (d, m, t) = Inr (d1, m1, t1)"
    and s2: "update_lines_unscoped cid iv ls (d1, m1, t1) = Inr (d', m', t')"
    by (auto split: sum.splits)
  from update_line_unscoped_lines[OF s1] Cons.IH[OF s2] show ?case by auto
qed

lemma updateInvoice_unscoped_tx_steps:
  assumes "updateInvoice_unscoped_tx now iv cid req d = Inr d'" "u_items req = Some ls"
  shows "\<exists>d1 d2 m2 t2 d3.
           select_invoice iv cid d \<noteq> [] \<and>
           update_invoice_meta (u_due_date req) (u_party_id req) (u_status req)
             now iv cid d = Inr d1 \<and>
           update_lines_unscoped cid iv ls (d1, new_Map (select_lines iv d1), 0) = Inr (d2, m2, t2) \<and>
           return_removed_unscoped iv m2 d2 = Inr d3 \<and>
           update_invoice_total (\<lambda>i. inv_id i = iv) t2 now d3 = Inr d'"
  using assms
  by (auto simp: updateInvoice_unscoped_tx_def Let_def split: if_splits sum.splits option.splits)

lemma updateInvoice_unscoped_tx_Inr:
  assumes tx: "updateInvoice_unscoped_tx now iv cid req d = Inr d'" and ls: "u_items req = Some ls"
    and dist: "distinct (map ii_item_id (select_lines iv d))"
    and std: "list_all (\<lambda>l. key_of l = item_of l) ls"
  shows "mset (select_lines iv d') = mset (concat (map (expected_line cid iv d) ls)) \<and>
         list_all (\<lambda>l. item_of l \<noteq> None) ls \<and>
         items d' = map (\<lambda>r. give_back_unscoped (select_lines iv d) (take_stock_unscoped ls r)) (items d) \<and>
         select_invoice iv cid d' \<noteq> [] \<and>
         (\<forall>i \<in> set (select_invoice iv cid d').
            inv_total_amount i = sum_list (map ii_total_line_amount (select_lines iv d')))"
proof -
  from updateInvoice_unscoped_tx_steps[OF tx ls] obtain d1 d2 m2 t2 d3 where
    ex: "select_invoice iv cid d \<noteq> []"
    and meta: "update_invoice_meta (u_due_date req) (u_party_id req) (u_status req)
             now iv cid d = Inr d1"
    and loop: "update_lines_unscoped cid iv ls (d1, new_Map (select_lines iv d1), 0) = Inr (d2, m2, t2)"
    and rem: "return_removed_unscoped iv m2 d2 = Inr d3"
    and tot: "update_invoice_total (\<lambda>i. inv_id i = iv) t2 now d3 = Inr d'"
    by blast
  let ?L = "select_lines iv d"
  let ?m0 = "map (\<lambda>x. (ii_item_id x, ii_quantity x)) ?L"
  let ?E = "concat (map (expected_line cid iv d) ls)"
  note M = update_invoice_meta_Inr[OF meta]
  have L1: "select_lines iv d1 = ?L" using M by (simp add: select_lines_def)
  have m0: "new_Map (select_lines iv d1) = ?m0"
    unfolding L1 using dist by (rule new_Map_distinct_rows)
  have cp1: "catalog_price cid d1 = catalog_price cid d"
    using M by (intro ext) (simp add: catalog_price_def select_item_def)
  note el1 = expected_line_cong[OF cp1]
  have keys0: "fst ` set ?m0 = ii_item_id ` set ?L" by (simp add: image_image)
  have H: "one_line_each ?m0 (select_lines iv d1)"
    unfolding one_line_each_def L1 keys0
    using distinct_map_filter_one[OF dist] by blast
  have ki: "key_of ` set ls = item_of ` set ls"
    using std by (auto simp: list_all_iff image_iff)
  note A = update_lines_unscoped_Inr[OF loop[unfolded m0] H std, unfolded el1 cp1 L1 ki]
  note I = update_lines_unscoped_items[OF loop[unfolded m0]]
  note R = return_removed_unscoped_Inr[OF rem]
  note T = update_invoice_total_select_unscoped[OF tot]
  have m2: "m2 = filter (\<lambda>kv. Some (fst kv) \<notin> item_of ` set ls) ?m0" using A by blast
  have inv2: "invoices d2 = invoices d1" using A by blast
  have R1: "invoice_items d3 =
       filter (\<lambda>x. \<not> (ii_invoice_id x = iv \<and> ii_item_id x \<in> fst ` set m2)) (invoice_items d2)"
    and R2: "items d3 = map (give_back_map_unscoped m2) (items d2)"
    and R3: "invoices d3 = invoices d2"
    using R by blast+
  have T1: "invoice_items d' = invoice_items d3" and T2: "items d' = items d3"
    and T3: "select_invoice iv cid d' = [] \<longleftrightarrow> select_invoice iv cid d3 = []"
    and T4: "\<forall>i \<in> set (select_invoice iv cid d'). inv_total_amount i = t2"
    using T by blast+
  have M1: "invoice_items d1 = invoice_items d" and M2: "items d1 = items d"
    and M3: "map (\<lambda>i. (inv_id i, inv_company_id i)) (invoices d1) =
       map (\<lambda>i. (inv_id i, inv_company_id i)) (invoices d)"
    using M by blast+
  have keys2: "fst ` set m2 = {k \<in> ii_item_id ` set ?L. Some k \<notin> item_of ` set ls}"
    unfolding m2 by force
  have L3: "select_lines iv d3 = filter (\<lambda>x. ii_item_id x \<notin> fst ` set m2) (select_lines iv d2)"
    unfolding select_lines_def R1 filter_filter by (rule filter_cong) auto
  have part1: "filter_mset (\<lambda>x. ii_item_id x \<notin> fst ` set m2)
          (filter_mset (\<lambda>x. ii_item_id x \<notin> fst ` set ?m0 \<or> Some (ii_item_id x) \<notin> item_of ` set ls)
             (mset ?L)) = {#}"
    unfolding filter_filter_mset
  proof (rule filter_mset_none)
    fix x assume "x \<in># mset ?L"
    then have x: "ii_item_id x \<in> ii_item_id ` set ?L" by simp
    show "\<not> ((ii_item_id x \<notin> fst ` set ?m0 \<or> Some (ii_item_id x) \<notin> item_of ` set ls) \<and>
              ii_item_id x \<notin> fst ` set m2)"
      unfolding keys2 keys0 using x by blast
  qed
  have part2: "filter_mset (\<lambda>x. ii_item_id x \<notin> fst ` set m2) (mset ?E) = mset ?E"
  proof (rule filter_mset_all)
    fix x assume "x \<in># mset ?E"
    then have "Some (ii_item_id x) \<in> item_of ` set ls"
      using expected_line_item[of x cid iv d ls] by simp
    then show "ii_item_id x \<notin> fst ` set m2" unfolding keys2 by blast
  qed
  have Ld: "select_lines iv d' = select_lines iv d3" by (simp add: select_lines_def T1)
  have A1: "mset (select_lines iv d2) =
      filter_mset (\<lambda>x. ii_item_id x \<notin> fst ` set ?m0 \<or> Some (ii_item_id x) \<notin> item_of ` set ls)
             (mset ?L) + mset ?E"
    using A by blast
  have "mset (select_lines iv d3) =
      filter_mset (\<lambda>x. ii_item_id x \<notin> fst ` set m2) (mset (select_lines iv d2))"
    unfolding L3 by (rule mset_filter)
  also have "\<dots> = mset ?E"
    unfolding A1 filter_union_mset part1 part2 by simp
  finally have lines: "mset (select_lines iv d') = mset ?E" unfolding Ld .
  have ids: "list_all (\<lambda>l. item_of l \<noteq> None) ls"
    using loop by (rule update_lines_unscoped_ids)
  have dk: "distinct (map fst ?m0)" using dist by (simp add: o_def)
  have row: "give_back_map_unscoped m2 (settle_unscoped ls ?m0 r) =
             give_back_unscoped ?L (take_stock_unscoped ls r)" for r
    unfolding m2
    by (simp add: ki give_back_map_unscoped_def settle_unscoped_def give_back_unscoped_def take_stock_unscoped_def returned_filter
        distinct_returned_held[OF dk, symmetric] returned_rows)
  have items: "items d' = map (\<lambda>r. give_back_unscoped ?L (take_stock_unscoped ls r)) (items d)"
    unfolding T2 R2 I M2 by (simp add: o_def row)
  have "select_invoice iv cid d1 \<noteq> []"
    using ex select_invoice_preserved[OF M3, of iv cid] by simp
  then have inv3: "select_invoice iv cid d3 \<noteq> []"
    by (simp add: select_invoice_def R3 inv2)
  have "t2 = 0 + sum_list (map ii_total_line_amount ?E)" using A by blast
  also have "\<dots> = sum_list (map ii_total_line_amount (select_lines iv d'))"
    using mset_eq_sum_list_map[OF lines, of ii_total_line_amount] by simp
  finally have total: "\<forall>i \<in> set (select_invoice iv cid d').
            inv_total_amount i = sum_list (map ii_total_line_amount (select_lines iv d'))"
    using T4 by simp
  have "select_invoice iv cid d' \<noteq> []" using inv3 T3 by simp
  with lines ids items total show ?thesis by simp
qed

lemma update_lines_unscoped_subset:
  "update_lines_unscoped cid iv ls (d, m, t) = Inr (d', m', t') \<Longrightarrow>
     fst ` set m' \<subseteq> fst ` set m \<and>
     (\<forall>x \<in> set (select_lines iv d').
        x \<in> set (concat (map (expected_line cid iv d) ls)) \<or>
        (x \<in> set (select_lines iv d) \<and>
         (ii_item_id x \<in> fst ` set m \<longrightarrow> ii_item_id x \<in> fst ` set m')))"
proof (induction ls arbitrary: d m t)
  case Nil
  then show ?case by simp
next
  case (Cons l ls)
  from Cons.prems(1) obtain d1 m1 t1 where
    s1: "update_line_unscoped cid iv l (d, m, t) = Inr (d1, m1, t1)"
    and s2: "update_lines_unscoped cid iv ls (d1, m1, t1) = Inr (d', m', t')"
    by (auto split: sum.splits)
  from update_line_unscoped_keyed[OF s1] obtain iid e where
    f: "item_of l = Some iid" "expected_line cid iv d l = [e]"
    and c: "(key_of l = Some iid \<and> m1 = AList.delete iid m \<and>
             select_lines iv d1 =
               (if map_of m iid \<noteq> None
                then map (\<lambda>x. if ii_item_id x = iid then e else x) (select_lines iv d)
                else select_lines iv d @ [e]) \<and>
             items d1 = map (adjust_stock_unscoped iid (quantity l - held m iid)) (items d)) \<or>
            (key_of l = None \<and> m1 = m \<and> select_lines iv d1 = select_lines iv d @ [e] \<and>
             items d1 = map (adjust_stock_unscoped iid (quantity l)) (items d))"
    by blast
  from c obtain n where i1: "items d1 = map (adjust_stock_unscoped iid n) (items d)" by blast
  have cp: "catalog_price cid d1 = catalog_price cid d"
    by (rule catalog_price_map[where g = "adjust_stock_unscoped iid n"]) (simp_all add: i1)
  note el = expected_line_cong[OF cp]
  note IH = Cons.IH[OF s2, unfolded el]
  have sub1: "fst ` set m' \<subseteq> fst ` set m1" using IH by (rule conjunct1)
  have IH2: "\<forall>x \<in> set (select_lines iv d').
        x \<in> set (concat (map (expected_line cid iv d) ls)) \<or>
        (x \<in> set (select_lines iv d1) \<and>
         (ii_item_id x \<in> fst ` set m1 \<longrightarrow> ii_item_id x \<in> fst ` set m'))"
    using IH by (rule conjunct2)
  have keys1: "fst ` set m1 \<subseteq> fst ` set m"
    using c by (auto simp: AList.delete_eq)
  have sub: "fst ` set m' \<subseteq> fst ` set m" using sub1 keys1 by blast
  have step: "x = e \<or> (x \<in> set (select_lines iv d) \<and>
                (ii_item_id x \<in> fst ` set m \<longrightarrow> ii_item_id x \<in> fst ` set m1))"
    if x: "x \<in> set (select_lines iv d1)" for x
    using c
  proof
    assume a: "key_of l = Some iid \<and> m1 = AList.delete iid m \<and>
             select_lines iv d1 =
               (if map_of m iid \<noteq> None
                then map (\<lambda>x. if ii_item_id x = iid then e else x) (select_lines iv d)
                else select_lines iv d @ [e]) \<and>
             items d1 = map (adjust_stock_unscoped iid (quantity l - held m iid)) (items d)"
    then have k1: "fst ` set m1 = fst ` set m - {iid}" by (auto simp: AList.delete_eq)
    have has: "map_of m iid = None \<longleftrightarrow> iid \<notin> fst ` set m"
      by (simp add: map_of_eq_None_iff)
    show ?thesis
    proof (cases "iid \<in> fst ` set m")
      case True
      then have "select_lines iv d1 = map (\<lambda>x. if ii_item_id x = iid then e else x) (select_lines iv d)"
        using a by (simp add: has)
      with x obtain y where y: "y \<in> set (select_lines iv d)" "x = (if ii_item_id y = iid then e else y)"
        by auto
      show ?thesis
      proof (cases "ii_item_id y = iid")
        case True
        with y show ?thesis by simp
      next
        case False
        with y have "x = y" by simp
        with y False show ?thesis by (simp add: k1)
      qed
    next
      case False
      then have "select_lines iv d1 = select_lines iv d @ [e]" using a by (simp add: has)
      with x have "x = e \<or> x \<in> set (select_lines iv d)" by auto
      then show ?thesis
      proof
        assume "x = e" then show ?thesis by simp
      next
        assume xd: "x \<in> set (select_lines iv d)"
        have "ii_item_id x \<in> fst ` set m \<longrightarrow> ii_item_id x \<in> fst ` set m1"
          using False by (auto simp: k1)
        with xd show ?thesis by simp
      qed
    qed
  next
    assume a: "key_of l = None \<and> m1 = m \<and> select_lines iv d1 = select_lines iv d @ [e] \<and>
             items d1 = map (adjust_stock_unscoped iid (quantity l)) (items d)"
    with x have "x = e \<or> x \<in> set (select_lines iv d)" by auto
    then show ?thesis using a by auto
  qed
  have "x \<in> set (concat (map (expected_line cid iv d) (l # ls))) \<or>
        (x \<in> set (select_lines iv d) \<and>
         (ii_item_id x \<in> fst ` set m \<longrightarrow> ii_item_id x \<in> fst ` set m'))"
    if x: "x \<in> set (select_lines iv d')" for x
  proof -
    from IH2 x have "x \<in> set (concat (map (expected_line cid iv d) ls)) \<or>
        (x \<in> set (select_lines iv d1) \<and>
         (ii_item_id x \<in> fst ` set m1 \<longrightarrow> ii_item_id x \<in> fst ` set m'))"
      by blast
    then show ?thesis
    proof
      assume "x \<in> set (concat (map (expected_line cid iv d) ls))"
      then show ?thesis by simp
    next
      assume a: "x \<in> set (select_lines iv d1) \<and>
         (ii_item_id x \<in> fst ` set m1 \<longrightarrow> ii_item_id x \<in> fst ` set m')"
      from step[of x] a consider "x = e"
        | "x \<in> set (select_lines iv d)"
          "ii_item_id x \<in> fst ` set m \<longrightarrow> ii_item_id x \<in> fst ` set m1"
        by blast
      then show ?thesis
      proof cases
        case 1
        then show ?thesis by (simp add: f(2))
      next
        case 2
        have "ii_item_id x \<in> fst ` set m \<longrightarrow> ii_item_id x \<in> fst ` set m'"
          using 2(2) a by blast
        with 2(1) show ?thesis by simp
      qed
    qed
  qed
  then have "\<forall>x \<in> set (select_lines iv d').
        x \<in> set (concat (map (expected_line cid iv d) (l # ls))) \<or>
        (x \<in> set (select_lines iv d) \<and>
         (ii_item_id x \<in> fst ` set m \<longrightarrow> ii_item_id x \<in> fst ` set m'))" ..
  with sub show ?case by (rule conjI)
qed

lemma updateInvoice_unscoped_tx_lines_subset:
  assumes tx: "updateInvoice_unscoped_tx now iv cid req d = Inr d'" and ls: "u_items req = Some ls"
  shows "set (select_lines iv d') \<subseteq> set (concat (map (expected_line cid iv d) ls))"
proof -
  from updateInvoice_unscoped_tx_steps[OF tx ls] obtain d1 d2 m2 t2 d3 where
    meta: "update_invoice_meta (u_due_date req) (u_party_id req) (u_status req)
             now iv cid d = Inr d1"
    and loop: "update_lines_unscoped cid iv ls (d1, new_Map (select_lines iv d1), 0) = Inr (d2, m2, t2)"
    and rem: "return_removed_unscoped iv m2 d2 = Inr d3"
    and tot: "update_invoice_total (\<lambda>i. inv_id i = iv) t2 now d3 = Inr d'"
    by blast
  note M = update_invoice_meta_Inr[OF meta]
  have cp1: "catalog_price cid d1 = catalog_price cid d"
    using M by (intro ext) (simp add: catalog_price_def select_item_def)
  note S = update_lines_unscoped_subset[OF loop, unfolded expected_line_cong[OF cp1] new_Map_keys]
  have R1: "invoice_items d3 =
       filter (\<lambda>x. \<not> (ii_invoice_id x = iv \<and> ii_item_id x \<in> fst ` set m2)) (invoice_items d2)"
    using return_removed_unscoped_Inr[OF rem] by blast
  have T1: "invoice_items d' = invoice_items d3"
    using update_invoice_total_select_unscoped[OF tot] by blast
  show ?thesis
  proof
    fix x assume "x \<in> set (select_lines iv d')"
    then have x: "x \<in> set (select_lines iv d2)" "ii_item_id x \<notin> fst ` set m2"
      by (auto simp: select_lines_def T1 R1)
    with S show "x \<in> set (concat (map (expected_line cid iv d) ls))" by blast
  qed
qed


section \<open>Updating a line: the price\<close>

text \<open>
  Claim C4, as stated, fails. The catalog price of \<open>A\<close> has gone from 100 to 120 since the
  invoice was created; an \<open>updateInvoice\<close> that changes the quantity of the line for \<open>A\<close>
  from 4 to 2 also rewrites its \<open>price_at_purchase\<close> from 100 to 120, in both controllers.
\<close>

theorem updateInvoice_reprices_existing_line:
  "map ii_price_at_purchase (select_lines ''I'' ex_db1_repriced) = [100, 250] \<and>
   map ii_quantity (select_lines ''I'' ex_db1_repriced) = [4, 1] \<and>
   updateInvoice 2 (Standard ''I'') ''C'' (ex_update ex_requantified) ex_db1_repriced = (ex_db2_repriced, Inr ()) \<and>
   updateInvoice_unscoped 2 (Standard ''I'') ''C'' (ex_update ex_requantified) ex_db1_repriced
     = (ex_db2_repriced, Inr ()) \<and>
   map ii_quantity (select_lines ''I'' ex_db2_repriced) = [2, 1] \<and>
   map ii_price_at_purchase (select_lines ''I'' ex_db2_repriced) = [120, 250] \<and>
   map ii_price_at_purchase (select_lines ''I'' ex_db2_repriced)
     \<noteq> map ii_price_at_purchase (select_lines ''I'' ex_db1_repriced)"
  by code_simp

text \<open>
  Claim C4, amended. After every successful \<open>updateInvoice\<close> with a lines payload (on
  the invoice that the store reads from the route parameter), every line stored for the
  invoice, the lines that existed before included, has
  \<open>price_at_purchase\<close> equal to the item's current catalog price and
  \<open>total_line_amount\<close> equal to that price times its quantity.
\<close>

theorem updateInvoice_lines_at_catalog_price:
  assumes "u_items req = Some ls" and "read_text id_text = Some invoice_id"
  shows "(updateInvoice now id_text company_id req d = (d', Inr r) \<longrightarrow>
            list_all (priced company_id d) (select_lines invoice_id d')) \<and>
         (updateInvoice_unscoped now id_text company_id req d = (d', Inr r) \<longrightarrow>
            list_all (priced company_id d) (select_lines invoice_id d'))"
proof (intro conjI impI)
  assume "updateInvoice now id_text company_id req d = (d', Inr r)"
  then have "updateInvoice_tx now invoice_id company_id req d = Inr d'"
    using assms(2) by (simp add: updateInvoice_def split: sum.splits)
  from updateInvoice_tx_lines_subset[OF this assms(1)]
  show "list_all (priced company_id d) (select_lines invoice_id d')"
    unfolding list_all_iff priced_def using expected_line_priced by blast
next
  assume "updateInvoice_unscoped now id_text company_id req d = (d', Inr r)"
  then have "updateInvoice_unscoped_tx now invoice_id company_id req d = Inr d'"
    using assms(2) by (simp add: updateInvoice_unscoped_def split: sum.splits)
  from updateInvoice_unscoped_tx_lines_subset[OF this assms(1)]
  show "list_all (priced company_id d) (select_lines invoice_id d')"
    unfolding list_all_iff priced_def using expected_line_priced by blast
qed

lemma ex_update_repriced_scoped:
  "updateInvoice 2 (Standard ''I'') ''C'' (ex_update ex_requantified) ex_db1_repriced = (ex_db2_repriced, Inr ())"
  by code_simp

lemma ex_update_repriced_unscoped:
  "updateInvoice_unscoped 2 (Standard ''I'') ''C'' (ex_update ex_requantified) ex_db1_repriced
     = (ex_db2_repriced, Inr ())"
  by code_simp

theorem updateInvoice_lines_at_catalog_price_witness:
  "u_items (ex_update ex_requantified) = Some ex_requantified \<and>
   read_text (Standard ''I'') = Some ''I'' \<and>
   updateInvoice 2 (Standard ''I'') ''C'' (ex_update ex_requantified) ex_db1_repriced = (ex_db2_repriced, Inr ()) \<and>
   updateInvoice_unscoped 2 (Standard ''I'') ''C'' (ex_update ex_requantified) ex_db1_repriced
     = (ex_db2_repriced, Inr ()) \<and>
   list_all (priced ''C'' ex_db1_repriced) (select_lines ''I'' ex_db2_repriced)"
proof -
  have h: "u_items (ex_update ex_requantified) = Some ex_requantified"
    by (simp add: ex_update_def)
  have i: "read_text (Standard ''I'') = Some ''I''" by (simp add: read_text_def)
  show ?thesis
    using updateInvoice_lines_at_catalog_price[OF h i, of 2 "''C''" ex_db1_repriced
        ex_db2_repriced "()"]
      h i ex_update_repriced_scoped ex_update_repriced_unscoped
    by blast
qed


section \<open>Updating the lines: the stored set, the stock, the total\<close>

text \<open>
  Claim C5. An invoice created from two entries for \<open>A\<close> holds two lines for \<open>A\<close>; an
  \<open>updateInvoice\<close> with the single desired line (\<open>A\<close>, 2) succeeds and sets both to
  quantity 2, so two lines are stored where one is desired, and stock goes down by 1 while
  the stored quantities go up by 2: the stored lines do not match the desired ones, and the
  stock is not adjusted by the change of the stored quantities. In the earlier controller
  the stored total, summed in memory over the desired lines, then differs from the sum of
  the stored lines.
\<close>

theorem updateInvoice_duplicate_lines_mismatch:
  "createInvoice 1 ''I'' ''C'' (ex_create ex_dup_lines) ex_db = (ex_db_dup, Inr ''I'') \<and>
   updateInvoice 2 (Standard ''I'') ''C'' (ex_update ex_one_line) ex_db_dup = (ex_db_dup2, Inr ()) \<and>
   map quantity ex_one_line = [2] \<and>
   map ii_quantity (select_lines ''I'' ex_db_dup2) = [2, 2] \<and>
   map it_quantity (items ex_db_dup) = [8, 3] \<and>
   map it_quantity (items ex_db_dup2) = [7, 3] \<and>
   mset (stored_pairs ''I'' ex_db_dup2) \<noteq> mset (desired_pairs ex_one_line) \<and>
   \<not> total_matches_lines ''I'' ''C''
        (fst (updateInvoice_unscoped 2 (Standard ''I'') ''C'' (ex_update ex_one_line) ex_db_dup))"
  by code_simp

text \<open>
  The same happens on an invoice with one line per item when a desired entry spells its
  \<open>item_id\<close> in another way than the store prints it (in upper case, say):
  \<^verbatim>\<open>existingMap.has\<close> does not find the entry, a second line for \<open>A\<close> is inserted, and the
  loop over what is left of the map then deletes every line for \<open>A\<close>. The update
  succeeds and no line for \<open>A\<close> is stored; in the earlier controller the stored total still
  counts it.
\<close>

lemma updateInvoice_other_spelling_drops_line:
  "updateInvoice 2 (Standard ''I'') ''C'' (ex_update ex_respelled) ex_db1 = (ex_db1_respelled 250, Inr ()) \<and>
   updateInvoice_unscoped 2 (Standard ''I'') ''C'' (ex_update ex_respelled) ex_db1
     = (ex_db1_respelled 450, Inr ()) \<and>
   desired_pairs ex_respelled = [(Some ''A'', 2), (Some ''B'', 1)] \<and>
   stored_pairs ''I'' (ex_db1_respelled 250) = [(Some ''B'', 1)] \<and>
   stored_pairs ''I'' (ex_db1_respelled 450) = [(Some ''B'', 1)] \<and>
   map it_quantity (items ex_db1) = [6, 2] \<and>
   map it_quantity (items (ex_db1_respelled 250)) = [8, 2] \<and>
   total_matches_lines ''I'' ''C'' (ex_db1_respelled 250) \<and>
   \<not> total_matches_lines ''I'' ''C'' (ex_db1_respelled 450)"
  by code_simp

lemma stored_pairs_mset:
  assumes "mset (select_lines iv d') = mset (concat (map (expected_line cid iv d) ls))"
    and "list_all (\<lambda>l. item_of l \<noteq> None) ls"
  shows "mset (stored_pairs iv d') = mset (desired_pairs ls)"
proof -
  have "mset (stored_pairs iv d') =
        image_mset (\<lambda>x. (Some (ii_item_id x), ii_quantity x)) (mset (select_lines iv d'))"
    by (simp add: stored_pairs_def)
  also have "\<dots> = mset (map (\<lambda>x. (Some (ii_item_id x), ii_quantity x))
                        (concat (map (expected_line cid iv d) ls)))"
    unfolding assms(1) by (rule mset_map[symmetric])
  also have "\<dots> = mset (desired_pairs ls)"
    unfolding expected_lines_projection[OF assms(2)] desired_pairs_def ..
  finally show ?thesis .
qed

text \<open>
  Where the stored lines of the invoice name each item once and every desired entry spells
  its \<open>item_id\<close> as the store prints it, a successful \<open>updateInvoice\<close> with a lines
  payload does what the claim says: after commit the stored lines are exactly the desired
  ones by item and quantity, every item row has lost the units desired for it and got back
  the units the invoice held for it before (so the stock of an item left out of the desired
  list is returned in full), and the stored \<open>total_amount\<close> is the sum of the stored
  lines' \<open>total_line_amount\<close>.
\<close>

lemma updateInvoice_matches_desired_lines:
  assumes "u_items req = Some ls"
    and "distinct (map ii_item_id (select_lines invoice_id d))"
    and "list_all (\<lambda>l. key_of l = item_of l) ls"
    and "read_text id_text = Some invoice_id"
  shows "(updateInvoice now id_text company_id req d = (d', Inr r) \<longrightarrow>
            mset (stored_pairs invoice_id d') = mset (desired_pairs ls) \<and>
            items d' = map (\<lambda>x. give_back company_id (select_lines invoice_id d)
                                   (take_stock company_id ls x)) (items d) \<and>
            total_matches_lines invoice_id company_id d') \<and>
         (updateInvoice_unscoped now id_text company_id req d = (d', Inr r) \<longrightarrow>
            mset (stored_pairs invoice_id d') = mset (desired_pairs ls) \<and>
            items d' = map (\<lambda>x. give_back_unscoped (select_lines invoice_id d)
                                   (take_stock_unscoped ls x)) (items d) \<and>
            total_matches_lines invoice_id company_id d')"
proof (intro conjI impI)
  assume "updateInvoice now id_text company_id req d = (d', Inr r)"
  then have tx: "updateInvoice_tx now invoice_id company_id req d = Inr d'"
    using assms(4) by (simp add: updateInvoice_def split: sum.splits)
  note R = updateInvoice_tx_Inr[OF tx assms(1,2,3)]
  from R show "mset (stored_pairs invoice_id d') = mset (desired_pairs ls)"
    using stored_pairs_mset by blast
  from R show "items d' = map (\<lambda>x. give_back company_id (select_lines invoice_id d)
                                   (take_stock company_id ls x)) (items d)"
    by blast
  from R show "total_matches_lines invoice_id company_id d'"
    unfolding total_matches_lines_def list_all_iff by blast
next
  assume "updateInvoice_unscoped now id_text company_id req d = (d', Inr r)"
  then have tx: "updateInvoice_unscoped_tx now invoice_id company_id req d = Inr d'"
    using assms(4) by (simp add: updateInvoice_unscoped_def split: sum.splits)
  note R = updateInvoice_unscoped_tx_Inr[OF tx assms(1,2,3)]
  from R show "mset (stored_pairs invoice_id d') = mset (desired_pairs ls)"
    using stored_pairs_mset by blast
  from R show "items d' = map (\<lambda>x. give_back_unscoped (select_lines invoice_id d)
                                   (take_stock_unscoped ls x)) (items d)"
    by blast
  from R show "total_matches_lines invoice_id company_id d'"
    unfolding total_matches_lines_def list_all_iff by blast
qed

lemma ex_update_scoped:
  "updateInvoice 2 (Standard ''I'') ''C'' (ex_update ex_replaced) ex_db1 = (ex_db2, Inr ())"
  by code_simp

lemma ex_update_unscoped:
  "updateInvoice_unscoped 2 (Standard ''I'') ''C'' (ex_update ex_replaced) ex_db1 = (ex_db2, Inr ())"
  by code_simp

lemma updateInvoice_matches_desired_lines_example:
  "distinct (map ii_item_id (select_lines ''I'' ex_db1)) \<and>
   list_all (\<lambda>l. key_of l = item_of l) ex_replaced \<and>
   updateInvoice 2 (Standard ''I'') ''C'' (ex_update ex_replaced) ex_db1 = (ex_db2, Inr ()) \<and>
   updateInvoice_unscoped 2 (Standard ''I'') ''C'' (ex_update ex_replaced) ex_db1 = (ex_db2, Inr ()) \<and>
   mset (stored_pairs ''I'' ex_db2) = mset (desired_pairs ex_replaced) \<and>
   map it_quantity (items ex_db2) = [8, 3] \<and>
   total_matches_lines ''I'' ''C'' ex_db2"
proof -
  have h1: "u_items (ex_update ex_replaced) = Some ex_replaced" by (simp add: ex_update_def)
  have h2: "distinct (map ii_item_id (select_lines ''I'' ex_db1))"
    by (simp add: select_lines_def ex_db1_def)
  have h3: "list_all (\<lambda>l. key_of l = item_of l) ex_replaced"
    by (simp add: ex_replaced_def key_of_def item_of_def Map_key_def read_text_def)
  have h4: "read_text (Standard ''I'') = Some ''I''" by (simp add: read_text_def)
  have s: "map it_quantity (items ex_db2) = [8, 3]" by (simp add: ex_db2_def)
  show ?thesis
    using updateInvoice_matches_desired_lines[OF h1 h2 h3 h4, of 2 "''C''" ex_db2 "()"]
      h2 h3 ex_update_scoped ex_update_unscoped s
    by blast
qed


section \<open>Desired lines that name an item twice\<close>

text \<open>
  Claim C8, as stated, fails. A \<open>createInvoice\<close> whose list names \<open>A\<close> twice is accepted
  by both controllers and leaves two lines for \<open>A\<close>.
\<close>

theorem createInvoice_accepts_duplicate_items:
  "map item_id ex_dup_lines = [Some (Standard ''A''), Some (Standard ''A'')] \<and>
   \<not> distinct (map item_id ex_dup_lines) \<and>
   createInvoice 1 ''I'' ''C'' (ex_create ex_dup_lines) ex_db = (ex_db_dup, Inr ''I'') \<and>
   createInvoice_unscoped 1 ''I'' ''C'' (ex_create ex_dup_lines) ex_db = (ex_db_dup, Inr ''I'') \<and>
   map ii_item_id (select_lines ''I'' ex_db_dup) = [''A'', ''A''] \<and>
   map ii_quantity (select_lines ''I'' ex_db_dup) = [1, 1]"
  by code_simp

lemma create_lines_ids:
  "create_lines cid nid ls st = Inr st' \<Longrightarrow> list_all (\<lambda>l. item_of l \<noteq> None) ls"
proof (induction ls arbitrary: st)
  case Nil then show ?case by simp
next
  case (Cons l ls)
  then obtain s1 where a: "create_line cid nid l st = Inr s1" and b: "create_lines cid nid ls s1 = Inr st'"
    by (auto split: sum.splits)
  obtain d t where st: "st = (d, t)" by (cases st)
  obtain d1 t1 where s1: "s1 = (d1, t1)" by (cases s1)
  from create_line_Inr[OF a[unfolded st s1]] have "item_of l \<noteq> None" by auto
  with Cons.IH[OF b] show ?case by simp
qed

lemma create_lines_unscoped_ids:
  "create_lines_unscoped cid nid ls st = Inr st' \<Longrightarrow> list_all (\<lambda>l. item_of l \<noteq> None) ls"
proof (induction ls arbitrary: st)
  case Nil then show ?case by simp
next
  case (Cons l ls)
  then obtain s1 where a: "create_line_unscoped cid nid l st = Inr s1"
    and b: "create_lines_unscoped cid nid ls s1 = Inr st'"
    by (auto split: sum.splits)
  obtain d t where st: "st = (d, t)" by (cases st)
  obtain d1 t1 where s1: "s1 = (d1, t1)" by (cases s1)
  from create_line_unscoped_Inr[OF a[unfolded st s1]] have "item_of l \<noteq> None" by auto
  with Cons.IH[OF b] show ?case by simp
qed

lemma createInvoice_tx_ids:
  "createInvoice_tx now nid cid req d = Inr d' \<Longrightarrow> list_all (\<lambda>l. item_of l \<noteq> None) (req_lines req)"
  by (auto simp: createInvoice_tx_def req_lines_def split: if_splits option.splits sum.splits
      dest: create_lines_ids)

lemma createInvoice_unscoped_tx_ids:
  "createInvoice_unscoped_tx now nid cid req d = Inr d' \<Longrightarrow>
     list_all (\<lambda>l. item_of l \<noteq> None) (req_lines req)"
  by (auto simp: createInvoice_unscoped_tx_def req_lines_def split: if_splits option.splits sum.splits
      dest: create_lines_unscoped_ids)

text \<open>
  Claim C8, amended. A list that names an item more than once is not rejected for that
  reason. Every successful \<open>createInvoice\<close> stores one line per entry of the list, in the
  order of the list, with the entry's item and quantity: entries for the same item are never
  merged, and each is applied as a line of its own.
\<close>

theorem duplicate_entries_become_separate_lines:
  assumes "lines_have_invoice d"
  shows "(createInvoice now new_id company_id req d = (d', Inr r) \<longrightarrow>
            stored_pairs new_id d' = desired_pairs (req_lines req)) \<and>
         (createInvoice_unscoped now new_id company_id req d = (d', Inr r) \<longrightarrow>
            stored_pairs new_id d' = desired_pairs (req_lines req))"
proof (intro conjI impI)
  assume "createInvoice now new_id company_id req d = (d', Inr r)"
  then have tx: "createInvoice_tx now new_id company_id req d = Inr d'"
    by (simp add: createInvoice_def split: sum.splits)
  from createInvoice_tx_Inr[OF tx assms]
  have "select_lines new_id d' = concat (map (expected_line company_id new_id d) (req_lines req))"
    by blast
  then show "stored_pairs new_id d' = desired_pairs (req_lines req)"
    unfolding stored_pairs_def desired_pairs_def
    using expected_lines_projection[OF createInvoice_tx_ids[OF tx]] by simp
next
  assume "createInvoice_unscoped now new_id company_id req d = (d', Inr r)"
  then have tx: "createInvoice_unscoped_tx now new_id company_id req d = Inr d'"
    by (simp add: createInvoice_unscoped_def split: sum.splits)
  from createInvoice_unscoped_tx_Inr[OF tx assms]
  have "select_lines new_id d' = concat (map (expected_line company_id new_id d) (req_lines req))"
    by blast
  then show "stored_pairs new_id d' = desired_pairs (req_lines req)"
    unfolding stored_pairs_def desired_pairs_def
    using expected_lines_projection[OF createInvoice_unscoped_tx_ids[OF tx]] by simp
qed

lemma ex_create_dup_scoped:
  "createInvoice 1 ''I'' ''C'' (ex_create ex_dup_lines) ex_db = (ex_db_dup, Inr ''I'')"
  by code_simp

lemma ex_create_dup_unscoped:
  "createInvoice_unscoped 1 ''I'' ''C'' (ex_create ex_dup_lines) ex_db = (ex_db_dup, Inr ''I'')"
  by code_simp

theorem duplicate_entries_become_separate_lines_witness:
  "lines_have_invoice ex_db \<and>
   createInvoice 1 ''I'' ''C'' (ex_create ex_dup_lines) ex_db = (ex_db_dup, Inr ''I'') \<and>
   createInvoice_unscoped 1 ''I'' ''C'' (ex_create ex_dup_lines) ex_db = (ex_db_dup, Inr ''I'') \<and>
   stored_pairs ''I'' ex_db_dup = desired_pairs ex_dup_lines"
proof -
  have h: "lines_have_invoice ex_db" by (simp add: lines_have_invoice_def ex_db_def)
  have r: "req_lines (ex_create ex_dup_lines) = ex_dup_lines"
    by (simp add: req_lines_def ex_create_def)
  show ?thesis
    using duplicate_entries_become_separate_lines[OF h, of 1 "''I''" "''C''"
        "ex_create ex_dup_lines" ex_db_dup "''I''", unfolded r]
      h ex_create_dup_scoped ex_create_dup_unscoped
    by blast
qed


section \<open>Stock never goes below zero\<close>

lemma stock_nonneg_items: "items d' = items d \<Longrightarrow> stock_nonneg d' = stock_nonneg d"
  by (simp add: stock_nonneg_def)

lemma update_items_quantity_nonneg:
  assumes "update_items_quantity w f d = Inr d'" "stock_nonneg d"
  shows "stock_nonneg d'"
proof -
  from assms(1) have chk: "filter (\<lambda>r. w r \<and> f (it_quantity r) < 0) (items d) = []"
    and d': "items d' = map (\<lambda>r. if w r then r\<lparr>it_quantity := f (it_quantity r)\<rparr> else r) (items d)"
    by (auto simp: update_items_quantity_def split: if_splits)
  show ?thesis
    using chk assms(2) unfolding stock_nonneg_def d' list_all_iff filter_empty_conv
    by auto
qed

lemma insert_invoice_item_items: "insert_invoice_item a b q p t d = Inr d' \<Longrightarrow> items d' = items d"
  by (auto dest: insert_invoice_item_Inr)

lemma update_invoice_item_items: "update_invoice_item a b q p t d = Inr d' \<Longrightarrow> items d' = items d"
  by (auto simp: update_invoice_item_def split: if_splits)

lemma create_line_nonneg:
  assumes "create_line cid nid l (d, t) = Inr (d', t')" "stock_nonneg d"
  shows "stock_nonneg d'"
proof -
  from assms(1) obtain a1 a2 a3 a4 a5 d1 w f where
    a: "insert_invoice_item a1 a2 a3 a4 a5 d = Inr d1" and b: "update_items_quantity w f d1 = Inr d'"
    by (auto simp: create_line_def Let_def split: option.splits if_splits list.splits sum.splits)
  from a assms(2) have "stock_nonneg d1" using stock_nonneg_items insert_invoice_item_items by blast
  with b show ?thesis by (rule update_items_quantity_nonneg)
qed

lemma create_lines_nonneg:
  "create_lines cid nid ls (d, t) = Inr (d', t') \<Longrightarrow> stock_nonneg d \<Longrightarrow> stock_nonneg d'"
proof (induction ls arbitrary: d t)
  case Nil then show ?case by simp
next
  case (Cons l ls)
  then obtain d1 t1 where a: "create_line cid nid l (d, t) = Inr (d1, t1)"
    and b: "create_lines cid nid ls (d1, t1) = Inr (d', t')"
    by (auto split: sum.splits)
  from create_line_nonneg[OF a Cons.prems(2)] Cons.IH[OF b] show ?case by blast
qed

lemma create_line_unscoped_nonneg:
  assumes "create_line_unscoped cid nid l (d, t) = Inr (d', t')" "stock_nonneg d"
  shows "stock_nonneg d'"
proof -
  from assms(1) obtain a1 a2 a3 a4 a5 d1 w f where
    a: "insert_invoice_item a1 a2 a3 a4 a5 d = Inr d1" and b: "update_items_quantity w f d1 = Inr d'"
    by (auto simp: create_line_unscoped_def Let_def split: option.splits if_splits list.splits sum.splits)
  from a assms(2) have "stock_nonneg d1" using stock_nonneg_items insert_invoice_item_items by blast
  with b show ?thesis by (rule update_items_quantity_nonneg)
qed

lemma create_lines_unscoped_nonneg:
  "create_lines_unscoped cid nid ls (d, t) = Inr (d', t') \<Longrightarrow> stock_nonneg d \<Longrightarrow> stock_nonneg d'"
proof (induction ls arbitrary: d t)
  case Nil then show ?case by simp
next
  case (Cons l ls)
  then obtain d1 t1 where a: "create_line_unscoped cid nid l (d, t) = Inr (d1, t1)"
    and b: "create_lines_unscoped cid nid ls (d1, t1) = Inr (d', t')"
    by (auto split: sum.splits)
  from create_line_unscoped_nonneg[OF a Cons.prems(2)] Cons.IH[OF b] show ?case by blast
qed

lemma update_line_nonneg:
  assumes "update_line cid iv l (d, m, t) = Inr (d', m', t')" "stock_nonneg d"
  shows "stock_nonneg d'"
proof -
  from assms(1) obtain d1 w f where
    a: "items d1 = items d" and b: "update_items_quantity w f d1 = Inr d'"
    by (auto simp: update_line_def Let_def split: option.splits if_splits list.splits sum.splits
        dest: insert_invoice_item_items update_invoice_item_items)
  from a assms(2) have "stock_nonneg d1" using stock_nonneg_items by blast
  with b show ?thesis by (rule update_items_quantity_nonneg)
qed

lemma update_lines_nonneg:
  "update_lines cid iv ls (d, m, t) = Inr (d', m', t') \<Longrightarrow> stock_nonneg d \<Longrightarrow> stock_nonneg d'"
proof (induction ls arbitrary: d m t)
  case Nil then show ?case by simp
next
  case (Cons l ls)
  then obtain d1 m1 t1 where a: "update_line cid iv l (d, m, t) = Inr (d1, m1, t1)"
    and b: "update_lines cid iv ls (d1, m1, t1) = Inr (d', m', t')"
    by (auto split: sum.splits)
  from update_line_nonneg[OF a Cons.prems(2)] Cons.IH[OF b] show ?case by blast
qed

lemma update_line_unscoped_nonneg:
  assumes "update_line_unscoped cid iv l (d, m, t) = Inr (d', m', t')" "stock_nonneg d"
  shows "stock_nonneg d'"
proof -
  from assms(1) obtain d1 w f where
    a: "items d1 = items d" and b: "update_items_quantity w f d1 = Inr d'"
    by (auto simp: update_line_unscoped_def Let_def split: option.splits if_splits list.splits sum.splits
        dest: insert_invoice_item_items update_invoice_item_items)
  from a assms(2) have "stock_nonneg d1" using stock_nonneg_items by blast
  with b show ?thesis by (rule update_items_quantity_nonneg)
qed

lemma update_lines_unscoped_nonneg:
  "update_lines_unscoped cid iv ls (d, m, t) = Inr (d', m', t') \<Longrightarrow> stock_nonneg d \<Longrightarrow> stock_nonneg d'"
proof (induction ls arbitrary: d m t)
  case Nil then show ?case by simp
next
  case (Cons l ls)
  then obtain d1 m1 t1 where a: "update_line_unscoped cid iv l (d, m, t) = Inr (d1, m1, t1)"
    and b: "update_lines_unscoped cid iv ls (d1, m1, t1) = Inr (d', m', t')"
    by (auto split: sum.splits)
  from update_line_unscoped_nonneg[OF a Cons.prems(2)] Cons.IH[OF b] show ?case by blast
qed

lemma return_removed_nonneg:
  "return_removed cid iv m d = Inr d' \<Longrightarrow> stock_nonneg d \<Longrightarrow> stock_nonneg d'"
proof (induction m arbitrary: d)
  case Nil then show ?case by simp
next
  case (Cons kv m)
  obtain k v where kv: "kv = (k, v)" by (cases kv)
  from Cons.prems(1) obtain d2 w f where
    u: "update_items_quantity w f (delete_invoice_item iv k d) = Inr d2"
    and r: "return_removed cid iv m d2 = Inr d'"
    by (auto simp: kv split: sum.splits)
  have "stock_nonneg (delete_invoice_item iv k d)"
    using Cons.prems(2) by (simp add: stock_nonneg_def delete_invoice_item_def)
  from Cons.IH[OF r update_items_quantity_nonneg[OF u this]] show ?case .
qed

lemma return_removed_unscoped_nonneg:
  "return_removed_unscoped iv m d = Inr d' \<Longrightarrow> stock_nonneg d \<Longrightarrow> stock_nonneg d'"
proof (induction m arbitrary: d)
  case Nil then show ?case by simp
next
  case (Cons kv m)
  obtain k v where kv: "kv = (k, v)" by (cases kv)
  from Cons.prems(1) obtain d2 w f where
    u: "update_items_quantity w f (delete_invoice_item iv k d) = Inr d2"
    and r: "return_removed_unscoped iv m d2 = Inr d'"
    by (auto simp: kv split: sum.splits)
  have "stock_nonneg (delete_invoice_item iv k d)"
    using Cons.prems(2) by (simp add: stock_nonneg_def delete_invoice_item_def)
  from Cons.IH[OF r update_items_quantity_nonneg[OF u this]] show ?case .
qed

lemma return_stock_nonneg:
  "return_stock cid ls d = Inr d' \<Longrightarrow> stock_nonneg d \<Longrightarrow> stock_nonneg d'"
proof (induction ls arbitrary: d)
  case Nil then show ?case by simp
next
  case (Cons l ls)
  from Cons.prems(1) obtain d1 w f where
    u: "update_items_quantity w f d = Inr d1" and r: "return_stock cid ls d1 = Inr d'"
    by (auto split: sum.splits)
  from Cons.IH[OF r update_items_quantity_nonneg[OF u Cons.prems(2)]] show ?case .
qed

lemma createInvoice_nonneg:
  assumes "stock_nonneg d"
  shows "stock_nonneg (fst (createInvoice now nid cid req d))"
proof (cases "createInvoice_tx now nid cid req d")
  case (Inl e)
  then show ?thesis using assms by (simp add: createInvoice_def)
next
  case (Inr d')
  then obtain a1 a2 a3 a4 d1 d2 t w where
    ins: "insert_invoice nid now cid a1 a2 a3 a4 d = Inr d1"
    and loop: "create_lines cid nid (req_lines req) (d1, 0) = Inr (d2, t)"
    and upd: "update_invoice_total w t now d2 = Inr d'"
    by (auto simp: createInvoice_tx_def req_lines_def split: if_splits option.splits sum.splits)
  have "stock_nonneg d1" using insert_invoice_Inr[OF ins] assms by (auto simp: stock_nonneg_def)
  from create_lines_nonneg[OF loop this] have "stock_nonneg d2" .
  then have "stock_nonneg d'" using update_invoice_total_Inr[OF upd] by (simp add: stock_nonneg_def)
  then show ?thesis using Inr by (simp add: createInvoice_def)
qed

lemma createInvoice_unscoped_nonneg:
  assumes "stock_nonneg d"
  shows "stock_nonneg (fst (createInvoice_unscoped now nid cid req d))"
proof (cases "createInvoice_unscoped_tx now nid cid req d")
  case (Inl e)
  then show ?thesis using assms by (simp add: createInvoice_unscoped_def)
next
  case (Inr d')
  then obtain a1 a2 a3 a4 d1 d2 t w where
    ins: "insert_invoice nid now cid a1 a2 a3 a4 d = Inr d1"
    and loop: "create_lines_unscoped cid nid (req_lines req) (d1, 0) = Inr (d2, t)"
    and upd: "update_invoice_total w t now d2 = Inr d'"
    by (auto simp: createInvoice_unscoped_tx_def req_lines_def split: if_splits option.splits sum.splits)
  have "stock_nonneg d1" using insert_invoice_Inr[OF ins] assms by (auto simp: stock_nonneg_def)
  from create_lines_unscoped_nonneg[OF loop this] have "stock_nonneg d2" .
  then have "stock_nonneg d'" using update_invoice_total_Inr[OF upd] by (simp add: stock_nonneg_def)
  then show ?thesis using Inr by (simp add: createInvoice_unscoped_def)
qed

lemma updateInvoice_tx_nonneg:
  assumes "stock_nonneg d" "updateInvoice_tx now iv cid req d = Inr d'"
  shows "stock_nonneg d'"
proof -
  note Inr = assms(2)
  show ?thesis
  proof (cases "u_items req")
    case None
    with Inr obtain due pty sts where "update_invoice_meta due pty sts now iv cid d = Inr d'"
      by (auto simp: updateInvoice_tx_def split: if_splits sum.splits)
    from update_invoice_meta_Inr[OF this] assms(1) show ?thesis by (simp add: stock_nonneg_def)
  next
    case (Some ls)
    from updateInvoice_tx_steps[OF Inr Some] obtain d1 d2 m2 t2 d3 due pty sts t w where
      meta: "update_invoice_meta due pty sts now iv cid d = Inr d1"
      and loop: "update_lines cid iv ls (d1, new_Map (select_lines iv d1), 0) = Inr (d2, m2, t2)"
      and rem: "return_removed cid iv m2 d2 = Inr d3"
      and tot: "update_invoice_total w t now d3 = Inr d'"
      by blast
    have "stock_nonneg d1" using update_invoice_meta_Inr[OF meta] assms(1) by (simp add: stock_nonneg_def)
    from update_lines_nonneg[OF loop this] have "stock_nonneg d2" .
    from return_removed_nonneg[OF rem this] have "stock_nonneg d3" .
    then show ?thesis using update_invoice_total_Inr[OF tot] by (simp add: stock_nonneg_def)
  qed
qed

lemma updateInvoice_nonneg:
  assumes "stock_nonneg d"
  shows "stock_nonneg (fst (updateInvoice now id_text cid req d))"
  using assms updateInvoice_tx_nonneg[OF assms]
  by (auto simp: updateInvoice_def split: option.splits sum.splits)

lemma updateInvoice_unscoped_tx_nonneg:
  assumes "stock_nonneg d" "updateInvoice_unscoped_tx now iv cid req d = Inr d'"
  shows "stock_nonneg d'"
proof -
  note Inr = assms(2)
  show ?thesis
  proof (cases "u_items req")
    case None
    with Inr obtain due pty sts where "update_invoice_meta due pty sts now iv cid d = Inr d'"
      by (auto simp: updateInvoice_unscoped_tx_def split: if_splits sum.splits)
    from update_invoice_meta_Inr[OF this] assms(1) show ?thesis by (simp add: stock_nonneg_def)
  next
    case (Some ls)
    from updateInvoice_unscoped_tx_steps[OF Inr Some] obtain d1 d2 m2 t2 d3 due pty sts t w where
      meta: "update_invoice_meta due pty sts now iv cid d = Inr d1"
      and loop: "update_lines_unscoped cid iv ls (d1, new_Map (select_lines iv d1), 0) = Inr (d2, m2, t2)"
      and rem: "return_removed_unscoped iv m2 d2 = Inr d3"
      and tot: "update_invoice_total w t now d3 = Inr d'"
      by blast
    have "stock_nonneg d1" using update_invoice_meta_Inr[OF meta] assms(1) by (simp add: stock_nonneg_def)
    from update_lines_unscoped_nonneg[OF loop this] have "stock_nonneg d2" .
    from return_removed_unscoped_nonneg[OF rem this] have "stock_nonneg d3" .
    then show ?thesis using update_invoice_total_Inr[OF tot] by (simp add: stock_nonneg_def)
  qed
qed

lemma updateInvoice_unscoped_nonneg:
  assumes "stock_nonneg d"
  shows "stock_nonneg (fst (updateInvoice_unscoped now id_text cid req d))"
  using assms updateInvoice_unscoped_tx_nonneg[OF assms]
  by (auto simp: updateInvoice_unscoped_def split: option.splits sum.splits)

lemma deleteInvoice_tx_nonneg:
  assumes "stock_nonneg d" "deleteInvoice_tx iv cid d = Inr d'"
  shows "stock_nonneg d'"
proof -
  from assms(2) obtain d1 where rs: "return_stock cid (select_lines iv d) d = Inr d1"
    and d': "d' = delete_invoices (\<lambda>i. inv_id i = iv \<and> inv_company_id i = cid)
                    (delete_lines_using iv cid d1)"
    by (auto simp: deleteInvoice_tx_def split: sum.splits if_splits)
  from return_stock_nonneg[OF rs assms(1)] have "stock_nonneg d1" .
  then show "stock_nonneg d'"
    by (simp add: d' stock_nonneg_def delete_invoices_def delete_lines_using_def)
qed

lemma deleteInvoice_nonneg:
  assumes "stock_nonneg d"
  shows "stock_nonneg (fst (deleteInvoice id_text cid d))"
  using assms deleteInvoice_tx_nonneg[OF assms]
  by (auto simp: deleteInvoice_def split: option.splits sum.splits)

lemma deleteInvoice_unscoped_nonneg:
  assumes "stock_nonneg d"
  shows "stock_nonneg (fst (deleteInvoice_unscoped id_text cid d))"
  using assms
  by (auto simp: deleteInvoice_unscoped_def stock_nonneg_def delete_invoices_def split: option.splits)

lemma requested_append: "requested (xs @ ys) i = requested xs i + requested ys i"
  by (simp add: requested_def)

lemma requested_single: "requested [l] i = (if item_of l = Some i then quantity l else 0)"
  by (simp add: requested_def)

lemma select_item_member:
  "select_item (Some iid) cid d = r # rs \<Longrightarrow> it_id r = iid \<and> it_company_id r = cid \<and> r \<in> set (items d)"
proof -
  assume a: "select_item (Some iid) cid d = r # rs"
  then have "r \<in> set (select_item (Some iid) cid d)" by simp
  then show ?thesis by (auto simp: select_item_def)
qed

lemma createInvoice_insufficient:
  assumes items: "c_items req = Some (pre @ l # post)" and id: "item_of l = Some iid"
    and q: "0 < quantity l"
    and pre: "createInvoice now nid cid (req\<lparr>c_items := Some pre\<rparr>) d = (d1, Inr nid)"
    and sel: "select_item (Some iid) cid d = r # rs"
    and over: "it_quantity r < requested (pre @ [l]) iid"
  shows "createInvoice now nid cid req d = (d, Inl (InsufficientStock (item_id l)))"
proof -
  from pre obtain pty da d2 t where
    p0: "uuid_param (c_party_id req) = Inr pty"
    and p1: "select_party pty cid d \<noteq> []"
    and p2: "select_invoice_number cid (c_invoice_number req) d = []"
    and ins: "insert_invoice nid now cid (c_party_id req) (c_invoice_number req)
                (or_null_text (c_due_date req)) (c_status req) d = Inr da"
    and loop: "create_lines cid nid pre (da, 0) = Inr (d2, t)"
    by (auto simp: createInvoice_def createInvoice_tx_def split: if_splits option.splits sum.splits)
  have ia: "items da = items d" using insert_invoice_Inr[OF ins] by auto
  from create_lines_Inr[OF loop] have i2: "items d2 = map (take_stock cid pre) (items d)"
    by (simp add: ia)
  have s2: "select_item (Some iid) cid d2 = map (take_stock cid pre) (select_item (Some iid) cid d)"
    by (rule select_item_map[where g = "take_stock cid pre"]) (simp_all add: i2)
  note rm = select_item_member[OF sel]
  have q2: "it_quantity (take_stock cid pre r) < quantity l"
    using over rm id by (simp add: take_stock_def requested_append requested_single)
  have step: "create_line cid nid l (d2, t) = Inl (InsufficientStock (item_id l))"
    using id q q2 by (simp add: create_line_def s2 sel uuid_param_item_of item_of_truthy)
  have "create_lines cid nid (pre @ l # post) (da, 0) = Inl (InsufficientStock (item_id l))"
    by (simp add: create_lines_append loop step)
  then show ?thesis
    using p0 p1 p2 ins items by (simp add: createInvoice_def createInvoice_tx_def)
qed

lemma createInvoice_unscoped_insufficient:
  assumes items: "c_items req = Some (pre @ l # post)" and id: "item_of l = Some iid"
    and q: "0 < quantity l"
    and pre: "createInvoice_unscoped now nid cid (req\<lparr>c_items := Some pre\<rparr>) d = (d1, Inr nid)"
    and sel: "select_item (Some iid) cid d = r # rs"
    and over: "it_quantity r < requested (pre @ [l]) iid"
  shows "createInvoice_unscoped now nid cid req d = (d, Inl (InsufficientStock (item_id l)))"
proof -
  from pre obtain da d2 t where
    ins: "insert_invoice nid now cid (c_party_id req) (c_invoice_number req)
                (c_due_date req) (c_status req) d = Inr da"
    and loop: "create_lines_unscoped cid nid pre (da, 0) = Inr (d2, t)"
    by (auto simp: createInvoice_unscoped_def createInvoice_unscoped_tx_def
        split: if_splits option.splits sum.splits)
  have ia: "items da = items d" using insert_invoice_Inr[OF ins] by auto
  from create_lines_unscoped_Inr[OF loop] have i2: "items d2 = map (take_stock_unscoped pre) (items d)"
    by (simp add: ia)
  have s2: "select_item (Some iid) cid d2 =
              map (take_stock_unscoped pre) (select_item (Some iid) cid d)"
    by (rule select_item_map[where g = "take_stock_unscoped pre"]) (simp_all add: i2)
  note rm = select_item_member[OF sel]
  have q2: "it_quantity (take_stock_unscoped pre r) < quantity l"
    using over rm id by (simp add: take_stock_unscoped_def requested_append requested_single)
  have step: "create_line_unscoped cid nid l (d2, t) = Inl (InsufficientStock (item_id l))"
    using id q q2 by (simp add: create_line_unscoped_def s2 sel uuid_param_item_of)
  have "create_lines_unscoped cid nid (pre @ l # post) (da, 0) = Inl (InsufficientStock (item_id l))"
    by (simp add: create_lines_unscoped_append loop step)
  then show ?thesis
    using ins items by (simp add: createInvoice_unscoped_def createInvoice_unscoped_tx_def)
qed

lemma update_lines_append:
  "update_lines cid iv (xs @ ys) st =
     (case update_lines cid iv xs st of Inl e \<Rightarrow> Inl e | Inr st' \<Rightarrow> update_lines cid iv ys st')"
  by (induction xs arbitrary: st) (auto split: sum.splits)

lemma update_lines_unscoped_append:
  "update_lines_unscoped cid iv (xs @ ys) st =
     (case update_lines_unscoped cid iv xs st of Inl e \<Rightarrow> Inl e
      | Inr st' \<Rightarrow> update_lines_unscoped cid iv ys st')"
  by (induction xs arbitrary: st) (auto split: sum.splits)

lemma update_lines_map:
  "update_lines cid iv ls (d, m, t) = Inr (d', m', t') \<Longrightarrow>
     m' = filter (\<lambda>kv. Some (fst kv) \<notin> key_of ` set ls) m"
proof (induction ls arbitrary: d m t)
  case Nil then show ?case by simp
next
  case (Cons l ls)
  then obtain d1 m1 t1 where a: "update_line cid iv l (d, m, t) = Inr (d1, m1, t1)"
    and b: "update_lines cid iv ls (d1, m1, t1) = Inr (d', m', t')"
    by (auto split: sum.splits)
  from update_line_keyed[OF a] obtain iid where
    c: "(key_of l = Some iid \<and> m1 = AList.delete iid m) \<or> (key_of l = None \<and> m1 = m)"
    by blast
  from c show ?case
  proof
    assume f: "key_of l = Some iid \<and> m1 = AList.delete iid m"
    from Cons.IH[OF b] show ?case
      using f by (auto simp: AList.delete_eq intro!: filter_cong)
  next
    assume f: "key_of l = None \<and> m1 = m"
    from Cons.IH[OF b] show ?case
      using f by (auto intro!: filter_cong)
  qed
qed

lemma update_lines_unscoped_map:
  "update_lines_unscoped cid iv ls (d, m, t) = Inr (d', m', t') \<Longrightarrow>
     m' = filter (\<lambda>kv. Some (fst kv) \<notin> key_of ` set ls) m"
proof (induction ls arbitrary: d m t)
  case Nil then show ?case by simp
next
  case (Cons l ls)
  then obtain d1 m1 t1 where a: "update_line_unscoped cid iv l (d, m, t) = Inr (d1, m1, t1)"
    and b: "update_lines_unscoped cid iv ls (d1, m1, t1) = Inr (d', m', t')"
    by (auto split: sum.splits)
  from update_line_unscoped_keyed[OF a] obtain iid where
    c: "(key_of l = Some iid \<and> m1 = AList.delete iid m) \<or> (key_of l = None \<and> m1 = m)"
    by blast
  from c show ?case
  proof
    assume f: "key_of l = Some iid \<and> m1 = AList.delete iid m"
    from Cons.IH[OF b] show ?case
      using f by (auto simp: AList.delete_eq intro!: filter_cong)
  next
    assume f: "key_of l = None \<and> m1 = m"
    from Cons.IH[OF b] show ?case
      using f by (auto intro!: filter_cong)
  qed
qed

lemma held_filter:
  "held (filter (\<lambda>kv. Some (fst kv) \<notin> S) m) i = (if Some i \<in> S then 0 else held m i)"
proof (induction m)
  case Nil then show ?case by (simp add: held_def)
next
  case (Cons kv m)
  obtain k v where kv: "kv = (k, v)" by (cases kv)
  from Cons show ?case by (auto simp: held_def kv)
qed

lemma updateInvoice_insufficient:
  assumes items: "u_items req = Some (pre @ l # post)" and id: "item_of l = Some iid"
    and q: "0 < quantity l"
    and idt: "read_text id_text = Some iv"
    and pre: "updateInvoice now id_text cid (req\<lparr>u_items := Some pre\<rparr>) d = (d1, Inr ())"
    and sel: "select_item (Some iid) cid d = r # rs"
    and nn: "stock_nonneg d"
    and hn: "key_of l = Some iid \<or> 0 \<le> held_by_invoice iv d iid"
    and over: "it_quantity r < requested (pre @ [l]) iid - held_by_invoice iv d iid"
  shows "updateInvoice now id_text cid req d = (d, Inl (InsufficientStock (item_id l)))"
proof -
  from pre idt have tx: "updateInvoice_tx now iv cid (req\<lparr>u_items := Some pre\<rparr>) d = Inr d1"
    by (simp add: updateInvoice_def split: sum.splits)
  have "u_items (req\<lparr>u_items := Some pre\<rparr>) = Some pre" by simp
  from updateInvoice_tx_steps[OF tx this] obtain dm d2 m2 t2 where
    ex: "select_invoice iv cid d \<noteq> []"
    and meta: "update_invoice_meta (or_null_text (u_due_date req)) (or_null_text (u_party_id req))
             (or_null (u_status req)) now iv cid d = Inr dm"
    and loop: "update_lines cid iv pre (dm, new_Map (select_lines iv dm), 0) = Inr (d2, m2, t2)"
    by auto
  from tx have pty: "(if truthy (u_party_id req)
               then (case uuid_param (u_party_id req) of
                       Inl e \<Rightarrow> Inl e
                     | Inr party \<Rightarrow>
                         if select_party party cid d = [] then Inl PartyNotFound
                         else Inr ())
               else Inr ()) = Inr ()"
    by (auto simp: updateInvoice_tx_def split: if_splits sum.splits)
  note M = update_invoice_meta_Inr[OF meta]
  have Lm: "select_lines iv dm = select_lines iv d" using M by (simp add: select_lines_def)
  let ?m0 = "new_Map (select_lines iv d)"
  have im: "items dm = items d" using M by blast
  have nm: "stock_nonneg dm" using nn im by (simp add: stock_nonneg_def)
  have i2: "items d2 = map (settle cid pre ?m0) (items d)"
    using update_lines_items[OF loop] by (simp add: Lm im)
  have m2: "m2 = filter (\<lambda>kv. Some (fst kv) \<notin> key_of ` set pre) ?m0"
    using update_lines_map[OF loop] by (simp add: Lm)
  have n2: "stock_nonneg d2" using update_lines_nonneg[OF loop nm] .
  have sf: "it_id (settle cid pre ?m0 x) = it_id x \<and>
            it_company_id (settle cid pre ?m0 x) = it_company_id x" for x
    by (simp add: settle_def)
  have s2: "select_item (Some iid) cid d2 = map (settle cid pre ?m0) (select_item (Some iid) cid d)"
    by (rule select_item_map[where g = "settle cid pre ?m0"]) (simp_all add: i2 sf)
  note rm = select_item_member[OF sel]
  let ?r2 = "settle cid pre ?m0 r"
  have "?r2 \<in> set (items d2)" using rm by (simp add: i2)
  with n2 have r2nn: "0 \<le> it_quantity ?r2" by (simp add: stock_nonneg_def list_all_iff)
  have h2: "held m2 iid = (if Some iid \<in> key_of ` set pre then 0 else held ?m0 iid)"
    unfolding m2 by (rule held_filter)
  have r2: "it_quantity ?r2 = it_quantity r - requested pre iid +
              (if Some iid \<in> key_of ` set pre then held ?m0 iid else 0)"
    using rm by (simp add: settle_def)
  have ov: "it_quantity r < requested pre iid + quantity l - held ?m0 iid"
    using over id by (simp add: requested_append requested_single held_by_invoice_def)
  have q2: "it_quantity ?r2 < quantity l - held_for m2 l \<and> 0 < quantity l - held_for m2 l"
    using key_of_cases[OF id]
  proof
    assume k: "key_of l = Some iid"
    have "it_quantity ?r2 < quantity l - held m2 iid"
      using ov by (simp add: r2 h2)
    with r2nn show ?thesis by (simp add: held_for_key k)
  next
    assume k: "key_of l = None"
    with hn have h0: "0 \<le> held ?m0 iid" by (simp add: held_by_invoice_def)
    have "it_quantity ?r2 < quantity l"
      using ov h0 by (simp add: r2)
    with q show ?thesis by (simp add: held_for_key k)
  qed
  have step: "update_line cid iv l (d2, m2, t2) = Inl (InsufficientStock (item_id l))"
    using id q q2
    by (simp add: update_line_def s2 sel Let_def uuid_param_item_of item_of_truthy
        held_for_def[symmetric])
  have "update_lines cid iv (pre @ l # post) (dm, new_Map (select_lines iv dm), 0)
          = Inl (InsufficientStock (item_id l))"
    by (simp add: update_lines_append loop step)
  then show ?thesis
    using ex pty meta items idt by (simp add: updateInvoice_def updateInvoice_tx_def)
qed

lemma updateInvoice_unscoped_insufficient:
  assumes items: "u_items req = Some (pre @ l # post)" and id: "item_of l = Some iid"
    and q: "0 < quantity l"
    and idt: "read_text id_text = Some iv"
    and pre: "updateInvoice_unscoped now id_text cid (req\<lparr>u_items := Some pre\<rparr>) d = (d1, Inr ())"
    and sel: "select_item (Some iid) cid d = r # rs"
    and nn: "stock_nonneg d"
    and hn: "key_of l = Some iid \<or> 0 \<le> held_by_invoice iv d iid"
    and over: "it_quantity r < requested (pre @ [l]) iid - held_by_invoice iv d iid"
  shows "updateInvoice_unscoped now id_text cid req d = (d, Inl (InsufficientStock (item_id l)))"
proof -
  from pre idt have tx: "updateInvoice_unscoped_tx now iv cid (req\<lparr>u_items := Some pre\<rparr>) d = Inr d1"
    by (simp add: updateInvoice_unscoped_def split: sum.splits)
  have "u_items (req\<lparr>u_items := Some pre\<rparr>) = Some pre" by simp
  from updateInvoice_unscoped_tx_steps[OF tx this] obtain dm d2 m2 t2 where
    ex: "select_invoice iv cid d \<noteq> []"
    and meta: "update_invoice_meta (u_due_date req) (u_party_id req) (u_status req)
             now iv cid d = Inr dm"
    and loop: "update_lines_unscoped cid iv pre (dm, new_Map (select_lines iv dm), 0) = Inr (d2, m2, t2)"
    by auto
  note M = update_invoice_meta_Inr[OF meta]
  have Lm: "select_lines iv dm = select_lines iv d" using M by (simp add: select_lines_def)
  let ?m0 = "new_Map (select_lines iv d)"
  have im: "items dm = items d" using M by blast
  have nm: "stock_nonneg dm" using nn im by (simp add: stock_nonneg_def)
  have i2: "items d2 = map (settle_unscoped pre ?m0) (items d)"
    using update_lines_unscoped_items[OF loop] by (simp add: Lm im)
  have m2: "m2 = filter (\<lambda>kv. Some (fst kv) \<notin> key_of ` set pre) ?m0"
    using update_lines_unscoped_map[OF loop] by (simp add: Lm)
  have n2: "stock_nonneg d2" using update_lines_unscoped_nonneg[OF loop nm] .
  have sf: "it_id (settle_unscoped pre ?m0 x) = it_id x \<and>
            it_company_id (settle_unscoped pre ?m0 x) = it_company_id x" for x
    by (simp add: settle_unscoped_def)
  have s2: "select_item (Some iid) cid d2 = map (settle_unscoped pre ?m0) (select_item (Some iid) cid d)"
    by (rule select_item_map[where g = "settle_unscoped pre ?m0"]) (simp_all add: i2 sf)
  note rm = select_item_member[OF sel]
  let ?r2 = "settle_unscoped pre ?m0 r"
  have "?r2 \<in> set (items d2)" using rm by (simp add: i2)
  with n2 have r2nn: "0 \<le> it_quantity ?r2" by (simp add: stock_nonneg_def list_all_iff)
  have h2: "held m2 iid = (if Some iid \<in> key_of ` set pre then 0 else held ?m0 iid)"
    unfolding m2 by (rule held_filter)
  have r2: "it_quantity ?r2 = it_quantity r - requested pre iid +
              (if Some iid \<in> key_of ` set pre then held ?m0 iid else 0)"
    using rm by (simp add: settle_unscoped_def)
  have ov: "it_quantity r < requested pre iid + quantity l - held ?m0 iid"
    using over id by (simp add: requested_append requested_single held_by_invoice_def)
  have q2: "it_quantity ?r2 < quantity l - held_for m2 l \<and> 0 < quantity l - held_for m2 l"
    using key_of_cases[OF id]
  proof
    assume k: "key_of l = Some iid"
    have "it_quantity ?r2 < quantity l - held m2 iid"
      using ov by (simp add: r2 h2)
    with r2nn show ?thesis by (simp add: held_for_key k)
  next
    assume k: "key_of l = None"
    with hn have h0: "0 \<le> held ?m0 iid" by (simp add: held_by_invoice_def)
    have "it_quantity ?r2 < quantity l"
      using ov h0 by (simp add: r2)
    with q show ?thesis by (simp add: held_for_key k)
  qed
  have step: "update_line_unscoped cid iv l (d2, m2, t2) = Inl (InsufficientStock (item_id l))"
    using id q q2
    by (simp add: update_line_unscoped_def s2 sel Let_def uuid_param_item_of item_of_truthy
        held_for_def[symmetric])
  have "update_lines_unscoped cid iv (pre @ l # post) (dm, new_Map (select_lines iv dm), 0)
          = Inl (InsufficientStock (item_id l))"
    by (simp add: update_lines_unscoped_append loop step)
  then show ?thesis
    using ex meta items idt by (simp add: updateInvoice_unscoped_def updateInvoice_unscoped_tx_def)
qed

lemma exceeds_stockD:
  "exceeds_stock cid d iid n \<Longrightarrow> \<exists>r rs. select_item (Some iid) cid d = r # rs \<and> it_quantity r < n"
  by (auto simp: exceeds_stock_def split: list.splits)

text \<open>
  Claim C2. From a store in which no stock is negative, \<open>createInvoice\<close>,
  \<open>updateInvoice\<close> and \<open>deleteInvoice\<close> (either controller) leave a store in which no
  stock is negative, whatever the request. A create whose lines, up to and including some
  line, ask for more units of that line's item than the item's current stock, and an update
  whose lines, up to and including some line, ask for more units than the invoice already
  holds plus the current stock, fail with \<open>InsufficientStock\<close> for that line and leave the
  store as it was, whenever the request cut off before that line is accepted, that is,
  whenever no earlier check of the handler fails first. The item of a line is the one the
  store reads from its \<open>item_id\<close>, in any spelling; for an update line that spells it
  otherwise than the store prints it, the quantity the invoice holds of the item is taken not
  to be negative, which \<^verbatim>\<open>CHECK (quantity > 0)\<close> guarantees.
\<close>

theorem stock_never_negative:
  assumes "stock_nonneg d"
  shows "stock_nonneg (fst (createInvoice now new_id company_id creq d)) \<and>
         stock_nonneg (fst (updateInvoice now id_text company_id ureq d)) \<and>
         stock_nonneg (fst (deleteInvoice id_text company_id d)) \<and>
         stock_nonneg (fst (createInvoice_unscoped now new_id company_id creq d)) \<and>
         stock_nonneg (fst (updateInvoice_unscoped now id_text company_id ureq d)) \<and>
         stock_nonneg (fst (deleteInvoice_unscoped id_text company_id d)) \<and>
         (c_items creq = Some (pre @ l # post) \<and> item_of l = Some iid \<and> 0 < quantity l \<and>
          exceeds_stock company_id d iid (requested (pre @ [l]) iid) \<longrightarrow>
            (snd (createInvoice now new_id company_id (creq\<lparr>c_items := Some pre\<rparr>) d) = Inr new_id \<longrightarrow>
               createInvoice now new_id company_id creq d = (d, Inl (InsufficientStock (item_id l)))) \<and>
            (snd (createInvoice_unscoped now new_id company_id (creq\<lparr>c_items := Some pre\<rparr>) d)
               = Inr new_id \<longrightarrow>
               createInvoice_unscoped now new_id company_id creq d
                 = (d, Inl (InsufficientStock (item_id l))))) \<and>
         (u_items ureq = Some (pre @ l # post) \<and> item_of l = Some iid \<and> 0 < quantity l \<and>
          read_text id_text = Some invoice_id \<and>
          (key_of l = Some iid \<or> 0 \<le> held_by_invoice invoice_id d iid) \<and>
          exceeds_stock company_id d iid
            (requested (pre @ [l]) iid - held_by_invoice invoice_id d iid) \<longrightarrow>
            (snd (updateInvoice now id_text company_id (ureq\<lparr>u_items := Some pre\<rparr>) d) = Inr () \<longrightarrow>
               updateInvoice now id_text company_id ureq d
                 = (d, Inl (InsufficientStock (item_id l)))) \<and>
            (snd (updateInvoice_unscoped now id_text company_id (ureq\<lparr>u_items := Some pre\<rparr>) d)
               = Inr () \<longrightarrow>
               updateInvoice_unscoped now id_text company_id ureq d
                 = (d, Inl (InsufficientStock (item_id l)))))"
proof -
  have c: "createInvoice now new_id company_id creq d = (d, Inl (InsufficientStock (item_id l)))"
    if h: "c_items creq = Some (pre @ l # post)" "item_of l = Some iid" "0 < quantity l"
      "exceeds_stock company_id d iid (requested (pre @ [l]) iid)"
      and p: "snd (createInvoice now new_id company_id (creq\<lparr>c_items := Some pre\<rparr>) d) = Inr new_id"
  proof -
    from exceeds_stockD[OF h(4)] obtain r rs where
      s: "select_item (Some iid) company_id d = r # rs" "it_quantity r < requested (pre @ [l]) iid"
      by blast
    from p obtain d1 where
      "createInvoice now new_id company_id (creq\<lparr>c_items := Some pre\<rparr>) d = (d1, Inr new_id)"
      by (metis prod.collapse)
    from createInvoice_insufficient[OF h(1,2,3) this s] show ?thesis .
  qed
  have cu: "createInvoice_unscoped now new_id company_id creq d = (d, Inl (InsufficientStock (item_id l)))"
    if h: "c_items creq = Some (pre @ l # post)" "item_of l = Some iid" "0 < quantity l"
      "exceeds_stock company_id d iid (requested (pre @ [l]) iid)"
      and p: "snd (createInvoice_unscoped now new_id company_id (creq\<lparr>c_items := Some pre\<rparr>) d)
               = Inr new_id"
  proof -
    from exceeds_stockD[OF h(4)] obtain r rs where
      s: "select_item (Some iid) company_id d = r # rs" "it_quantity r < requested (pre @ [l]) iid"
      by blast
    from p obtain d1 where
      "createInvoice_unscoped now new_id company_id (creq\<lparr>c_items := Some pre\<rparr>) d = (d1, Inr new_id)"
      by (metis prod.collapse)
    from createInvoice_unscoped_insufficient[OF h(1,2,3) this s] show ?thesis .
  qed
  have u: "updateInvoice now id_text company_id ureq d = (d, Inl (InsufficientStock (item_id l)))"
    if h: "u_items ureq = Some (pre @ l # post)" "item_of l = Some iid" "0 < quantity l"
      "read_text id_text = Some invoice_id"
      "key_of l = Some iid \<or> 0 \<le> held_by_invoice invoice_id d iid"
      "exceeds_stock company_id d iid (requested (pre @ [l]) iid - held_by_invoice invoice_id d iid)"
      and p: "snd (updateInvoice now id_text company_id (ureq\<lparr>u_items := Some pre\<rparr>) d) = Inr ()"
  proof -
    from exceeds_stockD[OF h(6)] obtain r rs where
      s: "select_item (Some iid) company_id d = r # rs"
        "it_quantity r < requested (pre @ [l]) iid - held_by_invoice invoice_id d iid"
      by blast
    from p obtain d1 where
      "updateInvoice now id_text company_id (ureq\<lparr>u_items := Some pre\<rparr>) d = (d1, Inr ())"
      by (metis prod.collapse)
    from updateInvoice_insufficient[OF h(1,2,3,4) this s(1) assms h(5) s(2)] show ?thesis .
  qed
  have uu: "updateInvoice_unscoped now id_text company_id ureq d
              = (d, Inl (InsufficientStock (item_id l)))"
    if h: "u_items ureq = Some (pre @ l # post)" "item_of l = Some iid" "0 < quantity l"
      "read_text id_text = Some invoice_id"
      "key_of l = Some iid \<or> 0 \<le> held_by_invoice invoice_id d iid"
      "exceeds_stock company_id d iid (requested (pre @ [l]) iid - held_by_invoice invoice_id d iid)"
      and p: "snd (updateInvoice_unscoped now id_text company_id (ureq\<lparr>u_items := Some pre\<rparr>) d)
                = Inr ()"
  proof -
    from exceeds_stockD[OF h(6)] obtain r rs where
      s: "select_item (Some iid) company_id d = r # rs"
        "it_quantity r < requested (pre @ [l]) iid - held_by_invoice invoice_id d iid"
      by blast
    from p obtain d1 where
      "updateInvoice_unscoped now id_text company_id (ureq\<lparr>u_items := Some pre\<rparr>) d = (d1, Inr ())"
      by (metis prod.collapse)
    from updateInvoice_unscoped_insufficient[OF h(1,2,3,4) this s(1) assms h(5) s(2)] show ?thesis .
  qed
  show ?thesis
    using createInvoice_nonneg[OF assms] updateInvoice_nonneg[OF assms] deleteInvoice_nonneg[OF assms]
      createInvoice_unscoped_nonneg[OF assms] updateInvoice_unscoped_nonneg[OF assms]
      deleteInvoice_unscoped_nonneg[OF assms] c cu u uu
    by (intro conjI impI) blast+
qed

theorem stock_never_negative_witness:
  "stock_nonneg ex_db \<and> stock_nonneg ex_db1 \<and>
   stock_nonneg (fst (deleteInvoice (Standard ''I'') ''C'' ex_db1)) \<and>
   exceeds_stock ''C'' ex_db ''A'' 11 \<and>
   createInvoice 1 ''I'' ''C'' (ex_create ex_overdraw) ex_db
     = (ex_db, Inl (InsufficientStock (Some (Standard ''A'')))) \<and>
   createInvoice_unscoped 1 ''I'' ''C'' (ex_create ex_overdraw) ex_db
     = (ex_db, Inl (InsufficientStock (Some (Standard ''A'')))) \<and>
   exceeds_stock ''C'' ex_db1 ''A'' (11 - held_by_invoice ''I'' ex_db1 ''A'') \<and>
   updateInvoice 2 (Standard ''I'') ''C'' (ex_update ex_overdraw) ex_db1
     = (ex_db1, Inl (InsufficientStock (Some (Standard ''A'')))) \<and>
   updateInvoice_unscoped 2 (Standard ''I'') ''C'' (ex_update ex_overdraw) ex_db1
     = (ex_db1, Inl (InsufficientStock (Some (Standard ''A''))))"
proof -
  let ?pre = "[\<lparr>item_id = Some (Standard ''B''), quantity = 1\<rparr>]"
  let ?l = "\<lparr>item_id = Some (Standard ''A''), quantity = 11\<rparr>"
  have n0: "stock_nonneg ex_db" by (simp add: stock_nonneg_def ex_db_def)
  have n1: "stock_nonneg ex_db1" by (simp add: stock_nonneg_def ex_db1_def)
  have ci: "c_items (ex_create ex_overdraw) = Some (?pre @ ?l # [])"
    by (simp add: ex_create_def ex_overdraw_def)
  have ui: "u_items (ex_update ex_overdraw) = Some (?pre @ ?l # [])"
    by (simp add: ex_update_def ex_overdraw_def)
  have cp: "(ex_create ex_overdraw)\<lparr>c_items := Some ?pre\<rparr> = ex_create ?pre"
    by (simp add: ex_create_def)
  have up: "(ex_update ex_overdraw)\<lparr>u_items := Some ?pre\<rparr> = ex_update ?pre"
    by (simp add: ex_update_def)
  have io: "item_of ?l = Some ''A''" by (simp add: item_of_def read_text_def)
  have ko: "key_of ?l = Some ''A''" by (simp add: key_of_def Map_key_def)
  have il: "item_id ?l = Some (Standard ''A'')" by simp
  have rt: "read_text (Standard ''I'') = Some ''I''" by (simp add: read_text_def)
  have rq: "requested (?pre @ [?l]) ''A'' = 11" by (simp add: requested_def item_of_def read_text_def)
  have e0: "exceeds_stock ''C'' ex_db ''A'' 11" by code_simp
  have e1: "exceeds_stock ''C'' ex_db1 ''A'' (11 - held_by_invoice ''I'' ex_db1 ''A'')" by code_simp
  have a1: "snd (createInvoice 1 ''I'' ''C'' (ex_create ?pre) ex_db) = Inr ''I''" by code_simp
  have a2: "snd (createInvoice_unscoped 1 ''I'' ''C'' (ex_create ?pre) ex_db) = Inr ''I''" by code_simp
  have b1: "snd (updateInvoice 2 (Standard ''I'') ''C'' (ex_update ?pre) ex_db1) = Inr ()" by code_simp
  have b2: "snd (updateInvoice_unscoped 2 (Standard ''I'') ''C'' (ex_update ?pre) ex_db1) = Inr ()"
    by code_simp
  note T0 = stock_never_negative[OF n0, of 1 "''I''" "''C''" "ex_create ex_overdraw" "Standard ''I''"
      "ex_update ex_overdraw" ?pre ?l "[]" "''A''" "''I''", unfolded cp up rq il]
  note T1 = stock_never_negative[OF n1, of 2 "''I''" "''C''" "ex_create ex_overdraw" "Standard ''I''"
      "ex_update ex_overdraw" ?pre ?l "[]" "''A''" "''I''", unfolded cp up rq il]
  have c1: "createInvoice 1 ''I'' ''C'' (ex_create ex_overdraw) ex_db
     = (ex_db, Inl (InsufficientStock (Some (Standard ''A''))))"
    and c2: "createInvoice_unscoped 1 ''I'' ''C'' (ex_create ex_overdraw) ex_db
     = (ex_db, Inl (InsufficientStock (Some (Standard ''A''))))"
    using T0 ci io e0 a1 a2 by simp_all
  have u1: "updateInvoice 2 (Standard ''I'') ''C'' (ex_update ex_overdraw) ex_db1
     = (ex_db1, Inl (InsufficientStock (Some (Standard ''A''))))"
    and u2: "updateInvoice_unscoped 2 (Standard ''I'') ''C'' (ex_update ex_overdraw) ex_db1
     = (ex_db1, Inl (InsufficientStock (Some (Standard ''A''))))"
    using T1 ui io ko rt e1 b1 b2 by simp_all
  have dl: "stock_nonneg (fst (deleteInvoice (Standard ''I'') ''C'' ex_db1))" using T1 by blast
  show ?thesis using n0 n1 dl e0 c1 c2 e1 u1 u2 by blast
qed


end
